(* ===== verification/Go_Prelude.thy ===== *)
theory Go_Prelude
  imports
    Main
    "HOL-Library.List_Lexorder"
    "HOL-Library.Char_ord"
    "HOL-Library.Sublist"
    "HOL-Library.AList"
begin

text \<open>
  The parts of Go and of its standard library that the modelled code uses.

  A Go \<^verbatim>\<open>string\<close> and a Go \<^verbatim>\<open>[]byte\<close> are both sequences of bytes, so both are the
  type \<^typ>\<open>string\<close> here (a \<^typ>\<open>char\<close> of Isabelle/HOL is a byte), compared as Go compares
  strings: lexicographically, byte by unsigned byte (the order of List\_Lexorder over Char\_ord).
  A Go \<^verbatim>\<open>map[string]string\<close> is an association list with distinct keys; the order of its
  entries stands for one of the iteration orders Go allows. \<^verbatim>\<open>int\<close> and \<^verbatim>\<open>int64\<close> are \<^typ>\<open>int\<close>,
  with the 64-bit bounds written out where the code can reach them.

  The theory holds the package \<^verbatim>\<open>strings\<close> (prefixes, suffixes, splitting), the package
  \<^verbatim>\<open>strconv\<close> (decimal numbers, with the range and syntax errors), and the generic lemmas on
  them that the component theories share.
\<close>

named_theorems go_defs \<open>definitions of thin wrappers that proofs always unfold\<close>
named_theorems keyspace \<open>facts on key strings: prefixes, separators, fixed-width fields\<close>

type_synonym bytes = string
type_synonym strmap = "(string \<times> string) list"

section \<open>Package strings\<close>

definition strings_HasPrefix :: "string \<Rightarrow> string \<Rightarrow> bool" where
  "strings_HasPrefix s p = (take (length p) s = p)"

definition strings_HasSuffix :: "string \<Rightarrow> string \<Rightarrow> bool" where
  "strings_HasSuffix s p = (length p \<le> length s \<and> drop (length s - length p) s = p)"

definition strings_TrimPrefix :: "string \<Rightarrow> string \<Rightarrow> string" where
  "strings_TrimPrefix s p = (if strings_HasPrefix s p then drop (length p) s else s)"

definition strings_TrimSuffix :: "string \<Rightarrow> string \<Rightarrow> string" where
  "strings_TrimSuffix s p = (if strings_HasSuffix s p then take (length s - length p) s else s)"

fun strings_Contains :: "string \<Rightarrow> string \<Rightarrow> bool" where
  "strings_Contains [] p = (p = [])"
| "strings_Contains (c # s) p = (strings_HasPrefix (c # s) p \<or> strings_Contains s p)"

text \<open>\<^verbatim>\<open>strings.Split(s, sep)\<close> for a separator of one byte, the only use in the code.\<close>

fun strings_Split :: "string \<Rightarrow> char \<Rightarrow> string list" where
  "strings_Split [] c = [[]]"
| "strings_Split (x # xs) c =
     (if x = c then [] # strings_Split xs c
      else (case strings_Split xs c of [] \<Rightarrow> [[x]] | y # ys \<Rightarrow> (x # y) # ys))"

text \<open>\<^verbatim>\<open>strings.SplitN(s, sep, 2)\<close> for a separator of one byte.\<close>

definition strings_SplitN2 :: "string \<Rightarrow> char \<Rightarrow> string list" where
  "strings_SplitN2 s c =
     (if c \<in> set s then [takeWhile (\<lambda>x. x \<noteq> c) s, tl (dropWhile (\<lambda>x. x \<noteq> c) s)] else [s])"

text \<open>\<^verbatim>\<open>strings.Join(xs, sep)\<close> for a separator of one byte.\<close>

fun strings_Join :: "string list \<Rightarrow> char \<Rightarrow> string" where
  "strings_Join [] c = []"
| "strings_Join [x] c = x"
| "strings_Join (x # y # ys) c = x @ c # strings_Join (y # ys) c"

text \<open>\<^verbatim>\<open>strings.LastIndex(s, sep)\<close> for a separator of one byte; \<open>None\<close> is the \<open>-1\<close> of Go.\<close>

fun strings_LastIndex :: "string \<Rightarrow> char \<Rightarrow> nat option" where
  "strings_LastIndex [] c = None"
| "strings_LastIndex (x # xs) c =
     (case strings_LastIndex xs c of
        Some i \<Rightarrow> Some (Suc i)
      | None \<Rightarrow> if x = c then Some 0 else None)"

text \<open>\<^verbatim>\<open>strings.Index(s, sep)\<close> for a separator of one byte.\<close>

fun strings_Index :: "string \<Rightarrow> char \<Rightarrow> nat option" where
  "strings_Index [] c = None"
| "strings_Index (x # xs) c = (if x = c then Some 0 else map_option Suc (strings_Index xs c))"

subsection \<open>Prefixes and suffixes\<close>

lemma HasPrefix_iff_prefix: "strings_HasPrefix s p \<longleftrightarrow> prefix p s"
  by (auto simp: strings_HasPrefix_def prefix_def append_eq_conv_conj)
    (metis append_take_drop_id)

lemma HasPrefix_append [simp]: "strings_HasPrefix (p @ s) p"
  by (simp add: strings_HasPrefix_def)

lemma HasPrefix_Nil [simp]: "strings_HasPrefix s []"
  by (simp add: strings_HasPrefix_def)

lemma HasSuffix_iff: "strings_HasSuffix s p \<longleftrightarrow> (\<exists>t. s = t @ p)"
  by (auto simp: strings_HasSuffix_def) (metis append_take_drop_id)

lemma TrimPrefix_append [simp]: "strings_TrimPrefix (p @ s) p = s"
  by (simp add: strings_TrimPrefix_def)

lemma Contains_iff: "strings_Contains s p \<longleftrightarrow> (\<exists>a b. s = a @ p @ b)"
proof (induction s)
  case Nil
  then show ?case by auto
next
  case (Cons c s)
  have "(\<exists>a b. c # s = a @ p @ b) \<longleftrightarrow> prefix p (c # s) \<or> (\<exists>a b. s = a @ p @ b)"
    by (auto simp: prefix_def Cons_eq_append_conv)
  with Cons show ?case by (simp add: HasPrefix_iff_prefix)
qed

lemma Contains_single: "strings_Contains s [c] \<longleftrightarrow> c \<in> set s"
  by (auto simp: Contains_iff in_set_conv_decomp)

subsection \<open>Splitting and joining\<close>

lemma Split_not_Nil [simp]: "strings_Split s c \<noteq> []"
  by (induction s) (auto split: list.splits)

lemma Split_length_pos [simp]: "0 < length (strings_Split s c)"
  by simp

lemma Split_no_sep: "c \<notin> set s \<Longrightarrow> strings_Split s c = [s]"
  by (induction s) auto

lemma Split_list_all: "list_all P s \<Longrightarrow> p \<in> set (strings_Split s c) \<Longrightarrow> list_all P p"
  by (induction s arbitrary: p) (auto split: if_splits list.splits)

lemma Split_append_sep:
  "c \<notin> set x \<Longrightarrow> strings_Split (x @ c # s) c = x # strings_Split s c"
  by (induction x) auto

lemma Split_pieces: "x \<in> set (strings_Split s c) \<Longrightarrow> c \<notin> set x"
  by (induction s arbitrary: x) (auto split: list.splits if_splits)

lemma Join_Split: "strings_Join (strings_Split s c) c = s"
proof (induction s)
  case Nil
  then show ?case by simp
next
  case (Cons a s)
  show ?case
  proof (cases "strings_Split s c")
    case Nil
    then show ?thesis using Split_not_Nil by blast
  next
    case (Cons y ys)
    with Cons.IH show ?thesis by (cases ys) auto
  qed
qed

lemma Split_Join:
  "xs \<noteq> [] \<Longrightarrow> \<forall>x \<in> set xs. c \<notin> set x \<Longrightarrow> strings_Split (strings_Join xs c) c = xs"
  by (induction xs c rule: strings_Join.induct) (auto simp: Split_no_sep Split_append_sep)

lemma Split_two:
  "c \<notin> set x \<Longrightarrow> c \<notin> set y \<Longrightarrow> strings_Split (x @ c # y) c = [x, y]"
  by (simp add: Split_append_sep Split_no_sep)

lemma Split_length: "length (strings_Split s c) = Suc (count_list s c)"
  by (induction s) (auto split: list.splits)

section \<open>Package strconv\<close>

text \<open>Decimal output: \<^verbatim>\<open>strconv.FormatInt(i, 10)\<close> and the verb \<^verbatim>\<open>%.5d\<close> of \<^verbatim>\<open>fmt.Sprintf\<close>.\<close>

definition digit_char :: "nat \<Rightarrow> char" where
  "digit_char d = char_of (48 + d)"

fun show_nat :: "nat \<Rightarrow> string" where
  "show_nat n = (if n < 10 then [digit_char n] else show_nat (n div 10) @ [digit_char (n mod 10)])"

declare show_nat.simps [simp del]

definition FormatInt :: "int \<Rightarrow> string" where
  "FormatInt i = (if i < 0 then CHR ''-'' # show_nat (nat (- i)) else show_nat (nat i))"

definition zero_pad :: "nat \<Rightarrow> string \<Rightarrow> string" where
  "zero_pad w s = replicate (w - length s) CHR ''0'' @ s"

definition Sprintf_05d :: "int \<Rightarrow> string" where
  "Sprintf_05d i =
     (if i < 0 then CHR ''-'' # zero_pad 5 (show_nat (nat (- i))) else zero_pad 5 (show_nat (nat i)))"

text \<open>
  Decimal input: \<^verbatim>\<open>strconv.ParseInt(s, 10, 64)\<close>, which is also what \<^verbatim>\<open>strconv.Atoi\<close> computes on
  a 64-bit platform. As in Go the value comes back beside the error: \<open>0\<close> with a syntax error,
  the nearest 64-bit bound with a range error.
\<close>

datatype num_error = ErrSyntax | ErrRange

definition is_digit :: "char \<Rightarrow> bool" where
  "is_digit c = (48 \<le> (of_char c :: nat) \<and> (of_char c :: nat) \<le> 57)"

definition digit_val :: "char \<Rightarrow> nat" where
  "digit_val c = of_char c - 48"

abbreviation maxUint64 :: nat where "maxUint64 \<equiv> 18446744073709551615"
abbreviation maxInt64 :: int where "maxInt64 \<equiv> 9223372036854775807"
abbreviation minInt64 :: int where "minInt64 \<equiv> - 9223372036854775808"

fun ParseUint_loop :: "nat \<Rightarrow> string \<Rightarrow> num_error + nat" where
  "ParseUint_loop n [] = Inr n"
| "ParseUint_loop n (c # cs) =
     (if is_digit c
      then (let n' = n * 10 + digit_val c
            in if maxUint64 < n' then Inl ErrRange else ParseUint_loop n' cs)
      else Inl ErrSyntax)"

definition ParseUint :: "string \<Rightarrow> num_error + nat" where
  "ParseUint s = (if s = [] then Inl ErrSyntax else ParseUint_loop 0 s)"

definition ParseInt :: "string \<Rightarrow> int \<times> num_error option" where
  "ParseInt s =
     (let neg = (s \<noteq> [] \<and> hd s = CHR ''-'');
          rest = (if s \<noteq> [] \<and> (hd s = CHR ''-'' \<or> hd s = CHR ''+'') then tl s else s)
      in case ParseUint rest of
           Inl ErrSyntax \<Rightarrow> (0, Some ErrSyntax)
         | Inl ErrRange \<Rightarrow> (if neg then minInt64 else maxInt64, Some ErrRange)
         | Inr un \<Rightarrow>
             if \<not> neg \<and> maxInt64 < int un then (maxInt64, Some ErrRange)
             else if neg \<and> maxInt64 + 1 < int un then (minInt64, Some ErrRange)
             else (if neg then - int un else int un, None))"

definition Atoi :: "string \<Rightarrow> int \<times> num_error option" where
  "Atoi s = ParseInt s"

subsection \<open>Decimal round trips\<close>

lemma digit_val_char [simp]: "d < 10 \<Longrightarrow> digit_val (digit_char d) = d"
  by (simp add: digit_val_def digit_char_def)

lemma is_digit_char [simp]: "d < 10 \<Longrightarrow> is_digit (digit_char d)"
  by (simp add: is_digit_def digit_char_def)

lemma is_digit_0 [simp]: "is_digit CHR ''0''"
  by (simp add: is_digit_def)

lemma digit_val_0 [simp]: "digit_val CHR ''0'' = 0"
  by (simp add: digit_val_def)

text \<open>The value of a string of digits, the reference for the parsing loop.\<close>

definition decimal_value :: "string \<Rightarrow> nat" where
  "decimal_value s = foldl (\<lambda>n c. n * 10 + digit_val c) 0 s"

lemma foldl_decimal_ge: "n \<le> foldl (\<lambda>n c. n * 10 + digit_val c) n s"
proof (induction s arbitrary: n)
  case (Cons c s)
  have "n \<le> n * 10 + digit_val c" by simp
  also have "\<dots> \<le> foldl (\<lambda>n c. n * 10 + digit_val c) (n * 10 + digit_val c) s" by (rule Cons.IH)
  finally show ?case by simp
qed simp

lemma ParseUint_loop_digits:
  "list_all is_digit s \<Longrightarrow>
   ParseUint_loop n s =
     (let v = foldl (\<lambda>n c. n * 10 + digit_val c) n s
      in if n \<le> maxUint64 \<and> v \<le> maxUint64 then Inr v
         else if s = [] then Inr n else Inl ErrRange)"
proof (induction s arbitrary: n)
  case (Cons c s)
  have ge: "n * 10 + digit_val c \<le> foldl (\<lambda>n c. n * 10 + digit_val c) (n * 10 + digit_val c) s"
    by (rule foldl_decimal_ge)
  show ?case
    using Cons ge by (auto simp: Let_def)
qed (simp add: Let_def)

lemma ParseUint_digits:
  "s \<noteq> [] \<Longrightarrow> list_all is_digit s \<Longrightarrow>
   ParseUint s = (if decimal_value s \<le> maxUint64 then Inr (decimal_value s) else Inl ErrRange)"
  by (simp add: ParseUint_def ParseUint_loop_digits decimal_value_def Let_def)

lemma ParseUint_Inr_digits: "ParseUint_loop n s = Inr v \<Longrightarrow> list_all is_digit s"
  by (induction s arbitrary: n) (auto simp: Let_def split: if_splits)

lemma digit_not_sign: "is_digit c \<Longrightarrow> c \<noteq> CHR ''-'' \<and> c \<noteq> CHR ''+''"
  by (auto simp: is_digit_def)

lemma ParseInt_digits:
  assumes "s \<noteq> []" "list_all is_digit s" "int (decimal_value s) \<le> maxInt64"
  shows "ParseInt s = (int (decimal_value s), None)"
proof -
  have "is_digit (hd s)" using assms by (cases s) auto
  then have "hd s \<noteq> CHR ''-''" "hd s \<noteq> CHR ''+''" using digit_not_sign by blast+
  then show ?thesis
    using assms by (simp add: ParseInt_def ParseUint_digits)
qed

lemma decimal_value_snoc: "decimal_value (s @ [c]) = decimal_value s * 10 + digit_val c"
  by (simp add: decimal_value_def)

lemma decimal_value_show_nat [simp]: "decimal_value (show_nat n) = n"
proof (induction n rule: show_nat.induct)
  case (1 n)
  show ?case
  proof (cases "n < 10")
    case True
    then show ?thesis by (subst show_nat.simps) (simp add: decimal_value_def)
  next
    case False
    with 1 show ?thesis by (subst show_nat.simps) (simp add: decimal_value_snoc)
  qed
qed

lemma show_nat_digits [simp]: "list_all is_digit (show_nat n)"
proof (induction n rule: show_nat.induct)
  case (1 n)
  then show ?case by (subst show_nat.simps) simp
qed

lemma show_nat_not_Nil [simp]: "show_nat n \<noteq> []"
  by (subst show_nat.simps) simp

lemma show_nat_length: "n < 10 ^ k \<Longrightarrow> 0 < k \<Longrightarrow> length (show_nat n) \<le> k"
proof (induction k arbitrary: n)
  case (Suc k)
  show ?case
  proof (cases "n < 10")
    case True
    then show ?thesis by (subst show_nat.simps) simp
  next
    case False
    with Suc.prems have "n div 10 < 10 ^ k" "0 < k"
      by (auto intro: less_mult_imp_div_less gr0I)
    with Suc.IH have "length (show_nat (n div 10)) \<le> k" by blast
    with False show ?thesis by (subst show_nat.simps) simp
  qed
qed simp

lemma decimal_value_zeros [simp]: "decimal_value (replicate k CHR ''0'' @ s) = decimal_value s"
  by (induction k) (simp_all add: decimal_value_def)

lemma zero_pad_digits [simp]: "list_all is_digit s \<Longrightarrow> list_all is_digit (zero_pad w s)"
  by (auto simp: zero_pad_def list_all_iff)

lemma zero_pad_value [simp]: "decimal_value (zero_pad w s) = decimal_value s"
  by (simp add: zero_pad_def)

lemma zero_pad_length: "length (zero_pad w s) = max w (length s)"
  by (simp add: zero_pad_def)

lemma Sprintf_05d_digits: "0 \<le> i \<Longrightarrow> list_all is_digit (Sprintf_05d i)"
  by (simp add: Sprintf_05d_def)

lemma Sprintf_05d_length [keyspace]: "0 \<le> i \<Longrightarrow> i < 100000 \<Longrightarrow> length (Sprintf_05d i) = 5"
  using show_nat_length [of "nat i" 5] by (simp add: Sprintf_05d_def zero_pad_length)

lemma Sprintf_05d_not_Nil [simp]: "Sprintf_05d i \<noteq> []"
  by (auto simp: Sprintf_05d_def zero_pad_def)

lemma Sprintf_05d_value: "0 \<le> i \<Longrightarrow> int (decimal_value (Sprintf_05d i)) = i"
  by (simp add: Sprintf_05d_def)

lemma Sprintf_05d_inj [keyspace]:
  "0 \<le> i \<Longrightarrow> 0 \<le> j \<Longrightarrow> Sprintf_05d i = Sprintf_05d j \<longleftrightarrow> i = j"
  using Sprintf_05d_value by metis

lemma Atoi_Sprintf_05d: "0 \<le> i \<Longrightarrow> i \<le> maxInt64 \<Longrightarrow> Atoi (Sprintf_05d i) = (i, None)"
  by (simp add: Atoi_def ParseInt_digits Sprintf_05d_digits Sprintf_05d_value)

lemma ParseInt_FormatInt:
  assumes "minInt64 \<le> i" "i \<le> maxInt64"
  shows "ParseInt (FormatInt i) = (i, None)"
proof (cases "i < 0")
  case True
  then show ?thesis
    using assms by (simp add: ParseInt_def FormatInt_def ParseUint_digits)
next
  case False
  then show ?thesis
    using assms by (simp add: FormatInt_def ParseInt_digits)
qed

lemma digits_no_char: "list_all is_digit s \<Longrightarrow> \<not> is_digit c \<Longrightarrow> c \<notin> set s"
  by (auto simp: list_all_iff)

lemma not_digit_dot [simp]: "\<not> is_digit CHR ''.''" "\<not> is_digit CHR ''/''" "\<not> is_digit CHR '':''"
  by (simp_all add: is_digit_def)

lemma ParseInt_range: "ParseInt s = (i, e) \<Longrightarrow> minInt64 \<le> i \<and> i \<le> maxInt64"
  by (auto simp: ParseInt_def Let_def split: sum.splits num_error.splits if_splits)

end
