(* ===== verification/Go_Text.thy ===== *)
theory Go_Text
  imports Go_Prelude
begin

text \<open>
  Text functions of Go's standard library: UTF-8 decoding as \<^verbatim>\<open>utf8.DecodeRuneInString\<close> and the
  conversion \<^verbatim>\<open>[]rune(s)\<close> do it, \<^verbatim>\<open>utf8.ValidString\<close>, \<^verbatim>\<open>strings.TrimSpace\<close>, and
  \<^verbatim>\<open>path.Clean\<close>, \<^verbatim>\<open>path.Join\<close>, \<^verbatim>\<open>path.Ext\<close>.
\<close>

section \<open>UTF-8\<close>

type_synonym rune = nat

abbreviation RuneError :: rune where "RuneError \<equiv> 65533"

definition byte :: "char \<Rightarrow> nat" where
  "byte c = of_char c"

definition is_cont :: "char \<Rightarrow> bool" where
  "is_cont c = (128 \<le> byte c \<and> byte c < 192)"

text \<open>The second byte of a sequence starting with \<open>b\<close> lies in a range that depends on \<open>b\<close>.\<close>

definition second_ok :: "nat \<Rightarrow> char \<Rightarrow> bool" where
  "second_ok b c =
     (if b = 224 then 160 \<le> byte c \<and> byte c < 192
      else if b = 237 then 128 \<le> byte c \<and> byte c < 160
      else if b = 240 then 144 \<le> byte c \<and> byte c < 192
      else if b = 244 then 128 \<le> byte c \<and> byte c < 144
      else is_cont c)"

text \<open>The first rune of a non-empty string and its width; an invalid byte is
  \<^verbatim>\<open>(RuneError, 1)\<close>.\<close>

definition DecodeRune :: "string \<Rightarrow> rune \<times> nat" where
  "DecodeRune s =
     (case s of
        [] \<Rightarrow> (RuneError, 0)
      | c0 # rest \<Rightarrow>
          (let b = byte c0 in
           if b < 128 then (b, 1)
           else if 194 \<le> b \<and> b < 224 then
             (case rest of
                c1 # _ \<Rightarrow> if is_cont c1 then ((b - 192) * 64 + (byte c1 - 128), 2) else (RuneError, 1)
              | _ \<Rightarrow> (RuneError, 1))
           else if 224 \<le> b \<and> b < 240 then
             (case rest of
                c1 # c2 # _ \<Rightarrow>
                  if second_ok b c1 \<and> is_cont c2
                  then ((b - 224) * 4096 + (byte c1 - 128) * 64 + (byte c2 - 128), 3)
                  else (RuneError, 1)
              | _ \<Rightarrow> (RuneError, 1))
           else if 240 \<le> b \<and> b < 245 then
             (case rest of
                c1 # c2 # c3 # _ \<Rightarrow>
                  if second_ok b c1 \<and> is_cont c2 \<and> is_cont c3
                  then ((b - 240) * 262144 + (byte c1 - 128) * 4096 + (byte c2 - 128) * 64
                          + (byte c3 - 128), 4)
                  else (RuneError, 1)
              | _ \<Rightarrow> (RuneError, 1))
           else (RuneError, 1)))"

lemma DecodeRune_width_pos: "s \<noteq> [] \<Longrightarrow> 0 < snd (DecodeRune s)"
  by (auto simp: DecodeRune_def Let_def split: list.split)

function runes :: "string \<Rightarrow> rune list" where
  "runes [] = []"
| "runes (c # s) = fst (DecodeRune (c # s)) # runes (drop (snd (DecodeRune (c # s))) (c # s))"
  by pat_completeness auto
termination
  by (relation "measure length")
    (auto simp: DecodeRune_width_pos simp del: drop_Cons)

function ValidString :: "string \<Rightarrow> bool" where
  "ValidString [] = True"
| "ValidString (c # s) =
     (let (r, w) = DecodeRune (c # s)
      in \<not> (r = RuneError \<and> w = 1) \<and> ValidString (drop w (c # s)))"
  by pat_completeness auto
termination
proof (relation "measure length", goal_cases)
  case (2 c s x xa y)
  then have "xa = fst (DecodeRune (c # s))" "y = snd (DecodeRune (c # s))" by (metis fst_conv snd_conv)+
  then show ?case using DecodeRune_width_pos [of "c # s"] by simp
qed simp

lemma DecodeRune_ascii: "byte c < 128 \<Longrightarrow> DecodeRune (c # s) = (byte c, 1)"
  by (simp add: DecodeRune_def)

lemma runes_ascii: "\<forall>c \<in> set s. byte c < 128 \<Longrightarrow> runes s = map byte s"
  by (induction s) (auto simp: DecodeRune_ascii)

lemma ValidString_ascii: "\<forall>c \<in> set s. byte c < 128 \<Longrightarrow> ValidString s"
  by (induction s) (auto simp: DecodeRune_ascii)

lemma runes_not_Nil [simp]: "runes s = [] \<longleftrightarrow> s = []"
  by (cases s) auto

section \<open>Trimming white space\<close>

text \<open>The runes of \<^verbatim>\<open>unicode.IsSpace\<close>, each as its UTF-8 byte sequence.\<close>

definition space_seqs :: "string list" where
  "space_seqs =
     [[CHR 0x09], [CHR 0x0A], [CHR 0x0B],
      [CHR 0x0C], [CHR 0x0D], [CHR 0x20],
      [CHR 0xC2, CHR 0x85], [CHR 0xC2, CHR 0xA0], [CHR 0xE1, CHR 0x9A, CHR 0x80],
      [CHR 0xE2, CHR 0x80, CHR 0x80], [CHR 0xE2, CHR 0x80, CHR 0x81], [CHR 0xE2, CHR 0x80, CHR 0x82],
      [CHR 0xE2, CHR 0x80, CHR 0x83], [CHR 0xE2, CHR 0x80, CHR 0x84], [CHR 0xE2, CHR 0x80, CHR 0x85],
      [CHR 0xE2, CHR 0x80, CHR 0x86], [CHR 0xE2, CHR 0x80, CHR 0x87], [CHR 0xE2, CHR 0x80, CHR 0x88],
      [CHR 0xE2, CHR 0x80, CHR 0x89], [CHR 0xE2, CHR 0x80, CHR 0x8A], [CHR 0xE2, CHR 0x80, CHR 0xA8],
      [CHR 0xE2, CHR 0x80, CHR 0xA9], [CHR 0xE2, CHR 0x80, CHR 0xAF], [CHR 0xE2, CHR 0x81, CHR 0x9F],
      [CHR 0xE3, CHR 0x80, CHR 0x80]]"

function trim_seqs :: "string list \<Rightarrow> string \<Rightarrow> string" where
  "trim_seqs ws s =
     (case find (\<lambda>w. w \<noteq> [] \<and> strings_HasPrefix s w) ws of
        Some w \<Rightarrow> trim_seqs ws (drop (length w) s)
      | None \<Rightarrow> s)"
  by pat_completeness auto
termination
proof (relation "measure (length \<circ> snd)", goal_cases)
  case (2 ws s w)
  then have "w \<noteq> []" "take (length w) s = w"
    by (auto simp: find_Some_iff strings_HasPrefix_def)
  then have "s \<noteq> []" "0 < length w" by auto
  then show ?case by simp
qed simp

declare trim_seqs.simps [simp del]

definition TrimSpace :: "string \<Rightarrow> string" where
  "TrimSpace s = rev (trim_seqs (map rev space_seqs) (rev (trim_seqs space_seqs s)))"

text \<open>A string of printable ASCII characters without blanks is left as it is.\<close>

definition graph_char :: "char \<Rightarrow> bool" where
  "graph_char c = (32 < byte c \<and> byte c < 128)"

lemma trim_seqs_none: "\<forall>w \<in> set ws. w \<noteq> [] \<and> hd w \<notin> set s \<Longrightarrow> trim_seqs ws s = s"
proof -
  assume ws: "\<forall>w \<in> set ws. w \<noteq> [] \<and> hd w \<notin> set s"
  have "\<not> strings_HasPrefix s w" if "w \<in> set ws" for w
  proof
    assume "strings_HasPrefix s w"
    then have w: "take (length w) s = w" by (simp add: strings_HasPrefix_def)
    then have "hd w \<in> set w" using ws that by simp
    moreover have "set w \<subseteq> set s" by (metis w set_take_subset)
    ultimately show False using ws that by blast
  qed
  then have "find (\<lambda>w. w \<noteq> [] \<and> strings_HasPrefix s w) ws = None"
    by (simp add: find_None_iff)
  then show ?thesis by (subst trim_seqs.simps) simp
qed

lemma space_seqs_ends: "list_all (\<lambda>w. w \<noteq> [] \<and> \<not> graph_char (hd w) \<and> \<not> graph_char (last w)) space_seqs"
  by (simp add: space_seqs_def graph_char_def byte_def)

lemma TrimSpace_graph: "list_all graph_char s \<Longrightarrow> TrimSpace s = s"
proof -
  assume s: "list_all graph_char s"
  have e: "\<forall>w \<in> set space_seqs. w \<noteq> [] \<and> hd w \<notin> set s \<and> last w \<notin> set s"
    using space_seqs_ends s by (auto simp: list_all_iff)
  have "trim_seqs space_seqs s = s" by (rule trim_seqs_none) (use e in blast)
  moreover have "trim_seqs (map rev space_seqs) (rev s) = rev s"
    by (rule trim_seqs_none) (use e in \<open>simp add: hd_rev\<close>)
  ultimately show ?thesis by (simp add: TrimSpace_def)
qed

section \<open>Slash-separated paths\<close>

fun clean_step :: "bool \<Rightarrow> string list \<Rightarrow> string list \<Rightarrow> string list" where
  "clean_step rooted st [] = rev st"
| "clean_step rooted st (c # cs) =
     (if c = [] \<or> c = ''.'' then clean_step rooted st cs
      else if c = ''..'' then
        (case st of
           t # ts \<Rightarrow> if t \<noteq> ''..'' then clean_step rooted ts cs
                     else clean_step rooted (c # st) cs
         | [] \<Rightarrow> if rooted then clean_step rooted [] cs else clean_step rooted [c] cs)
      else clean_step rooted (c # st) cs)"

definition path_Clean :: "string \<Rightarrow> string" where
  "path_Clean p =
     (let rooted = (p \<noteq> [] \<and> hd p = CHR ''/'');
          body = strings_Join (clean_step rooted [] (strings_Split p CHR ''/'')) CHR ''/'';
          out = (if rooted then CHR ''/'' # body else body)
      in if out = [] then ''.'' else out)"

definition path_Join :: "string list \<Rightarrow> string" where
  "path_Join elem =
     (case dropWhile (\<lambda>e. e = []) elem of
        [] \<Rightarrow> []
      | es \<Rightarrow> path_Clean (strings_Join es CHR ''/''))"

definition path_Ext :: "string \<Rightarrow> string" where
  "path_Ext p =
     (let base = (case strings_LastIndex p CHR ''/'' of None \<Rightarrow> p | Some i \<Rightarrow> drop (Suc i) p)
      in case strings_LastIndex base CHR ''.'' of None \<Rightarrow> [] | Some i \<Rightarrow> drop i base)"

text \<open>A path component that cleaning leaves alone.\<close>

definition plain_component :: "string \<Rightarrow> bool" where
  "plain_component c = (c \<noteq> [] \<and> c \<noteq> ''.'' \<and> c \<noteq> ''..'' \<and> CHR ''/'' \<notin> set c)"

lemma clean_step_plain:
  "\<forall>c \<in> set cs. plain_component c \<Longrightarrow> clean_step rooted st cs = rev st @ cs"
  by (induction cs arbitrary: st) (auto simp: plain_component_def)

lemma hd_Join: "cs \<noteq> [] \<Longrightarrow> hd cs \<noteq> [] \<Longrightarrow> strings_Join cs c \<noteq> [] \<and> hd (strings_Join cs c) = hd (hd cs)"
  by (cases "(cs, c)" rule: strings_Join.cases) auto

lemma path_Clean_plain:
  assumes "cs \<noteq> []" "\<forall>c \<in> set cs. plain_component c"
  shows "path_Clean (strings_Join cs CHR ''/'') = strings_Join cs CHR ''/''"
proof -
  let ?p = "strings_Join cs CHR ''/''"
  have no: "\<forall>c \<in> set cs. CHR ''/'' \<notin> set c" "hd cs \<noteq> []"
    using assms by (auto simp: plain_component_def)
  then have "?p \<noteq> []" "hd ?p = hd (hd cs)" using assms(1) hd_Join by blast+
  moreover have "hd (hd cs) \<noteq> CHR ''/''" using no assms(1) by (metis hd_in_set)
  ultimately show ?thesis
    using assms no by (simp add: path_Clean_def Split_Join clean_step_plain)
qed

end
