(* ===== verification/Object_Errors.thy ===== *)
theory Object_Errors
  imports Go_Prelude
begin

text \<open>
  The error values of the program as a datatype, with the source's names:
  the sentinel errors of \<^verbatim>\<open>cmd/storage-errors.go\<close>, \<^verbatim>\<open>cmd/typed-errors.go\<close> and
  \<^verbatim>\<open>cmd/kinetic-errors.go\<close>, the typed errors of \<^verbatim>\<open>cmd/object-api-errors.go\<close> with their
  fields, the errors of \<^verbatim>\<open>io\<close>, \<^verbatim>\<open>encoding/json\<close> and \<^verbatim>\<open>pkg/hash\<close> that the code returns unchanged, and
  \<open>GoPanic\<close> for a run-time panic of Go. A Go \<^verbatim>\<open>error\<close> result is an \<open>error option\<close>,
  \<open>None\<close> being \<^verbatim>\<open>nil\<close>.
\<close>

datatype storage_err =
    errUnexpected | errCorruptedFormat | errInvalidArgument | errBucketNotEmpty
  | errVolumeNotFound | errVolumeNotEmpty | errVolumeExists | errDiskFull | errTooManyOpenFiles
  | errFileAccessDenied | errFileParentIsFile | errIsNotRegular | errFileNotFound
  | errFileNameTooLong | errDataTooLarge | errDataTooSmall | errXLReadQuorum | errXLWriteQuorum
  | errInvalidRange | errInvalidDecompressedSize

datatype kinetic_err =
    errKineticNotFound | errKineticVersionMismatch | errKineticAuthorizationFailure
  | errKineticNoSpace | errKineticFrozen | errKineticMediaFault | errKineticInvalidError

datatype lib_err =
    ErrEOF | ErrUnexpectedEOF | ErrShortWrite | ErrJson | ErrNet | ErrOther string
  | BadDigest string string | SHA256Mismatch string string

datatype request_err =
    StorageFull | SlowDown | InsufficientReadQuorum | InsufficientWriteQuorum | IncompleteBody
  | OperationTimedOut | NotImplemented | InvalidETag | PreConditionFailed
  | InvalidRange int int int
  | InvalidUploadIDKeyCombination string string
  | InvalidMarkerPrefixCombination string string
  | MalformedUploadID string
  | InvalidUploadID string string string
  | InvalidPart int string string
  | PartTooSmall int int string

datatype name_err =
    BucketNotFound string
  | BucketNotEmpty string
  | BucketExists string
  | BucketNameInvalid string
  | ObjectNotFound string string
  | ObjectExistsAsDirectory string string
  | PrefixAccessDenied string string
  | ParentIsObject string string
  | ObjectNameInvalid string string
  | ObjectNameTooLong string string
  | ObjectNamePrefixAsSlash string string
  | ObjectTooLarge string string
  | ObjectTooSmall string string

datatype iam_err =
    errNoSuchUser | errNoSuchGroup | errGroupNotEmpty | errNoSuchPolicy | errIAMActionNotAllowed
  | errServerNotInitialized | errConfigNotFound

datatype error =
    Storage storage_err | Kinetic kinetic_err | Lib lib_err
  | Request request_err | Name name_err | Iam iam_err | GoPanic string

definition isErrObjectNotFound :: "error \<Rightarrow> bool" where
  "isErrObjectNotFound err = (case err of Name (ObjectNotFound _ _) \<Rightarrow> True | _ \<Rightarrow> False)"

section \<open>Status codes of the drive\<close>

text \<open>\<^verbatim>\<open>KineticError\<close>: the constants are an \<^verbatim>\<open>iota\<close> block, so each is its position.\<close>

abbreviation (input) StoreOperationStatus_SUCCESS :: int where "StoreOperationStatus_SUCCESS \<equiv> 0"
abbreviation (input) StoreOperationStatus_NOT_FOUND :: int where "StoreOperationStatus_NOT_FOUND \<equiv> 1"
abbreviation (input) StoreOperationStatus_VERSION_MISMATCH :: int where
  "StoreOperationStatus_VERSION_MISMATCH \<equiv> 2"
abbreviation (input) StoreOperationStatus_AUTHORIZATION_FAILURE :: int where
  "StoreOperationStatus_AUTHORIZATION_FAILURE \<equiv> 3"
abbreviation (input) StoreOperationStatus_NO_SPACE :: int where "StoreOperationStatus_NO_SPACE \<equiv> 4"
abbreviation (input) StoreOperationStatus_FROZEN :: int where "StoreOperationStatus_FROZEN \<equiv> 5"
abbreviation (input) StoreOperationStatus_MEDIA_FAULT :: int where
  "StoreOperationStatus_MEDIA_FAULT \<equiv> 6"

definition toKineticError :: "int \<Rightarrow> error option" where
  "toKineticError err =
     (if err = StoreOperationStatus_SUCCESS then None
      else if err = StoreOperationStatus_NOT_FOUND then Some (Kinetic errKineticNotFound)
      else if err = StoreOperationStatus_VERSION_MISMATCH then Some (Kinetic errKineticVersionMismatch)
      else if err = StoreOperationStatus_AUTHORIZATION_FAILURE
        then Some (Kinetic errKineticAuthorizationFailure)
      else if err = StoreOperationStatus_NO_SPACE then Some (Kinetic errKineticNoSpace)
      else if err = StoreOperationStatus_FROZEN then Some (Kinetic errKineticFrozen)
      else if err = StoreOperationStatus_MEDIA_FAULT then Some (Kinetic errKineticMediaFault)
      else Some (Kinetic errKineticInvalidError))"

lemma toKineticError_None_iff [simp]: "toKineticError s = None \<longleftrightarrow> s = 0"
  by (simp add: toKineticError_def)

section \<open>Storage errors to object errors\<close>

text \<open>The variadic \<^verbatim>\<open>params\<close> of \<^verbatim>\<open>toObjectErr\<close> are a list.\<close>

definition toObjectErr :: "error option \<Rightarrow> string list \<Rightarrow> error option" where
  "toObjectErr err params =
     (case err of
        Some (Storage errVolumeNotFound) \<Rightarrow>
          if length params \<ge> 1 then Some (Name (BucketNotFound (params ! 0))) else err
      | Some (Storage errVolumeNotEmpty) \<Rightarrow>
          if length params \<ge> 1 then Some (Name (BucketNotEmpty (params ! 0))) else err
      | Some (Storage errVolumeExists) \<Rightarrow>
          if length params \<ge> 1 then Some (Name (BucketExists (params ! 0))) else err
      | Some (Storage errDiskFull) \<Rightarrow> Some (Request StorageFull)
      | Some (Storage errTooManyOpenFiles) \<Rightarrow> Some (Request SlowDown)
      | Some (Storage errFileAccessDenied) \<Rightarrow>
          if length params \<ge> 2 then Some (Name (PrefixAccessDenied (params ! 0) (params ! 1))) else err
      | Some (Storage errFileParentIsFile) \<Rightarrow>
          if length params \<ge> 2 then Some (Name (ParentIsObject (params ! 0) (params ! 1))) else err
      | Some (Storage errIsNotRegular) \<Rightarrow>
          if length params \<ge> 2 then Some (Name (ObjectExistsAsDirectory (params ! 0) (params ! 1))) else err
      | Some (Storage errFileNotFound) \<Rightarrow>
          if length params = 2 then Some (Name (ObjectNotFound (params ! 0) (params ! 1)))
          else if length params = 3
            then Some (Request (InvalidUploadID (params ! 0) (params ! 1) (params ! 2)))
          else err
      | Some (Storage errFileNameTooLong) \<Rightarrow>
          if length params \<ge> 2 then Some (Name (ObjectNameInvalid (params ! 0) (params ! 1))) else err
      | Some (Storage errDataTooLarge) \<Rightarrow>
          if length params \<ge> 2 then Some (Name (ObjectTooLarge (params ! 0) (params ! 1))) else err
      | Some (Storage errDataTooSmall) \<Rightarrow>
          if length params \<ge> 2 then Some (Name (ObjectTooSmall (params ! 0) (params ! 1))) else err
      | Some (Storage errXLReadQuorum) \<Rightarrow> Some (Request InsufficientReadQuorum)
      | Some (Storage errXLWriteQuorum) \<Rightarrow> Some (Request InsufficientWriteQuorum)
      | Some (Lib ErrUnexpectedEOF) \<Rightarrow> Some (Request IncompleteBody)
      | Some (Lib ErrShortWrite) \<Rightarrow> Some (Request IncompleteBody)
      | _ \<Rightarrow> err)"

lemma toObjectErr_None [simp]: "toObjectErr None ps = None"
  by (simp add: toObjectErr_def)

lemma toObjectErr_None_iff [simp]: "toObjectErr e ps = None \<longleftrightarrow> e = None"
  by (simp add: toObjectErr_def split: option.split error.split storage_err.split lib_err.split)

text \<open>Converting twice is converting once, with whatever parameters the second call has.\<close>

lemma toObjectErr_idem: "toObjectErr (toObjectErr e [b, x]) ps = toObjectErr e [b, x]"
  by (simp add: toObjectErr_def split: option.split error.split storage_err.split lib_err.split)

end
