(* ===== verification/Object_Names.thy ===== *)
theory Object_Names
  imports Go_Text Object_Errors
begin

text \<open>
  Bucket and object names: the validity checks and path helpers of
  \<^verbatim>\<open>cmd/object-api-utils.go\<close>, \<^verbatim>\<open>cmd/generic-handlers.go\<close> and \<^verbatim>\<open>cmd/utils.go\<close>, on the platform the
  Kinetic server is built for (Linux, so the comparisons are case sensitive).

  The lemmas give \<^verbatim>\<open>IsValidBucketName\<close> a declarative reading, show that accepted names cannot
  contain the separators the key layout relies on, and that \<^verbatim>\<open>pathJoin\<close> is the identity on
  accepted names, so that two different objects never share a namespace lock.
\<close>

section \<open>Path helpers\<close>

abbreviation SlashSeparator :: string where "SlashSeparator \<equiv> ''/''"

definition HasPrefix :: "string \<Rightarrow> string \<Rightarrow> bool" where
  "HasPrefix s pre = strings_HasPrefix s pre"

definition HasSuffix :: "string \<Rightarrow> string \<Rightarrow> bool" where
  "HasSuffix s suf = strings_HasSuffix s suf"

definition isStringEqual :: "string \<Rightarrow> string \<Rightarrow> bool" where
  "isStringEqual s1 s2 = (s1 = s2)"

definition retainSlash :: "string \<Rightarrow> string" where
  "retainSlash s = strings_TrimSuffix s SlashSeparator @ SlashSeparator"

definition pathJoin :: "string list \<Rightarrow> string" where
  "pathJoin elem =
     (let trailingSlash =
            (if elem \<noteq> [] \<and> HasSuffix (last elem) SlashSeparator then SlashSeparator else [])
      in path_Join elem @ trailingSlash)"

definition pathsJoinPrefix :: "string \<Rightarrow> string list \<Rightarrow> string list" where
  "pathsJoinPrefix pre elem = map (\<lambda>e. pathJoin [pre, e]) elem"

definition path2BucketObjectWithBasePath :: "string \<Rightarrow> string \<Rightarrow> string \<times> string" where
  "path2BucketObjectWithBasePath basePath path =
     (let path = strings_TrimPrefix path basePath;
          path = strings_TrimPrefix path SlashSeparator
      in case strings_Index path CHR ''/'' of
           None \<Rightarrow> (path, [])
         | Some m \<Rightarrow> (take m path, drop (m + 1) path))"

definition path2BucketObject :: "string \<Rightarrow> string \<times> string" where
  "path2BucketObject s = path2BucketObjectWithBasePath [] s"

section \<open>Names\<close>

abbreviation minioMetaBucket :: string where "minioMetaBucket \<equiv> ''.minio.sys''"
abbreviation minioMetaBackgroundOpsBucket :: string where
  "minioMetaBackgroundOpsBucket \<equiv> ''.minio.sys/background-ops''"
abbreviation minioMetaMultipartBucket :: string where
  "minioMetaMultipartBucket \<equiv> ''.minio.sys/multipart''"
abbreviation minioMetaTmpBucket :: string where "minioMetaTmpBucket \<equiv> ''.minio.sys/tmp''"

definition isMinioMetaBucketName :: "string \<Rightarrow> bool" where
  "isMinioMetaBucketName bucket =
     (bucket = minioMetaBucket \<or> bucket = minioMetaMultipartBucket \<or>
      bucket = minioMetaTmpBucket \<or> bucket = minioMetaBackgroundOpsBucket)"

text \<open>The inner loop of \<^verbatim>\<open>IsValidBucketName\<close>: \<open>None\<close> is its \<^verbatim>\<open>return false\<close>,
  \<open>Some isNotNumber\<close> the flag at the end of the piece.\<close>

fun bucket_piece :: "bool \<Rightarrow> string \<Rightarrow> bool option" where
  "bucket_piece isNotNumber [] = Some isNotNumber"
| "bucket_piece isNotNumber (c # cs) =
     (if (97 \<le> byte c \<and> byte c \<le> 122) \<or> c = CHR ''-'' then bucket_piece True cs
      else if 48 \<le> byte c \<and> byte c \<le> 57 then bucket_piece isNotNumber cs
      else None)"

fun bucket_pieces :: "bool \<Rightarrow> string list \<Rightarrow> bool option" where
  "bucket_pieces allNumbers [] = Some allNumbers"
| "bucket_pieces allNumbers (piece # pieces) =
     (if length piece = 0 \<or> hd piece = CHR ''-'' \<or> last piece = CHR ''-'' then None
      else case bucket_piece False piece of
             None \<Rightarrow> None
           | Some isNotNumber \<Rightarrow> bucket_pieces (allNumbers \<and> \<not> isNotNumber) pieces)"

definition IsValidBucketName :: "string \<Rightarrow> bool" where
  "IsValidBucketName bucket =
     (if isMinioMetaBucketName bucket then True
      else if length bucket < 3 \<or> length bucket > 63 then False
      else let pieces = strings_Split bucket CHR ''.'' in
           case bucket_pieces True pieces of
             None \<Rightarrow> False
           | Some allNumbers \<Rightarrow> \<not> (length pieces = 4 \<and> allNumbers))"

definition hasBadPathComponent :: "string \<Rightarrow> bool" where
  "hasBadPathComponent path =
     list_ex (\<lambda>p. TrimSpace p = ''..'' \<or> TrimSpace p = ''.'')
       (strings_Split (TrimSpace path) CHR ''/'')"

definition IsValidObjectPrefix :: "string \<Rightarrow> bool" where
  "IsValidObjectPrefix object =
     (if hasBadPathComponent object then False
      else if \<not> ValidString object then False
      else if strings_Contains object ''//'' then False
      else True)"

definition IsValidObjectName :: "string \<Rightarrow> bool" where
  "IsValidObjectName object =
     (if length object = 0 then False
      else if HasSuffix object SlashSeparator then False
      else IsValidObjectPrefix object)"

definition checkObjectNameForLengthAndSlash :: "string \<Rightarrow> string \<Rightarrow> error option" where
  "checkObjectNameForLengthAndSlash bucket object =
     (if length object > 1024 then Some (Name (ObjectNameTooLong bucket object))
      else if HasPrefix object SlashSeparator then Some (Name (ObjectNamePrefixAsSlash bucket object))
      else None)"

text \<open>
  \<^verbatim>\<open>checkBucketAndObjectNames\<close>, with \<^verbatim>\<open>s3utils.CheckValidBucketName\<close> of the package minio-go as the
  parameter \<open>s3utils_ok\<close>; \<^verbatim>\<open>checkGetObjArgs\<close> and \<^verbatim>\<open>checkDelObjArgs\<close> are calls of it.
\<close>

definition checkBucketAndObjectNames ::
  "(string \<Rightarrow> bool) \<Rightarrow> string \<Rightarrow> string \<Rightarrow> error option" where
  "checkBucketAndObjectNames s3utils_ok bucket object =
     (if \<not> isMinioMetaBucketName bucket \<and> \<not> s3utils_ok bucket then Some (Name (BucketNameInvalid bucket))
      else if length object = 0 then Some (Name (ObjectNameInvalid bucket object))
      else if \<not> IsValidObjectPrefix object then Some (Name (ObjectNameInvalid bucket object))
      else None)"

definition checkGetObjArgs :: "(string \<Rightarrow> bool) \<Rightarrow> string \<Rightarrow> string \<Rightarrow> error option" where
  "checkGetObjArgs s3utils_ok bucket object = checkBucketAndObjectNames s3utils_ok bucket object"

definition checkDelObjArgs :: "(string \<Rightarrow> bool) \<Rightarrow> string \<Rightarrow> string \<Rightarrow> error option" where
  "checkDelObjArgs s3utils_ok bucket object = checkBucketAndObjectNames s3utils_ok bucket object"

lemma IsValidObjectPrefix_graph:
  assumes "list_all graph_char s"
  shows "IsValidObjectPrefix s \<longleftrightarrow>
    list_all (\<lambda>p. p \<noteq> ''..'' \<and> p \<noteq> ''.'') (strings_Split s CHR ''/'') \<and> \<not> strings_Contains s ''//''"
proof -
  have "ValidString s" using assms by (auto simp: list_all_iff graph_char_def intro: ValidString_ascii)
  moreover have "TrimSpace p = p" if "p \<in> set (strings_Split s CHR ''/'')" for p
    using TrimSpace_graph Split_list_all [OF assms that] by blast
  ultimately show ?thesis
    using TrimSpace_graph [OF assms]
    by (auto simp: IsValidObjectPrefix_def hasBadPathComponent_def list_ex_iff list_all_iff)
qed

section \<open>Bucket names, declaratively\<close>

definition bucket_char :: "char \<Rightarrow> bool" where
  "bucket_char c = ((97 \<le> byte c \<and> byte c \<le> 122) \<or> c = CHR ''-'' \<or> (48 \<le> byte c \<and> byte c \<le> 57))"

definition bucket_digit :: "char \<Rightarrow> bool" where
  "bucket_digit c = (48 \<le> byte c \<and> byte c \<le> 57)"

definition bucket_label :: "string \<Rightarrow> bool" where
  "bucket_label p = (p \<noteq> [] \<and> hd p \<noteq> CHR ''-'' \<and> last p \<noteq> CHR ''-'' \<and> list_all bucket_char p)"

lemma bucket_piece_spec:
  "bucket_piece b p = (if list_all bucket_char p then Some (b \<or> \<not> list_all bucket_digit p) else None)"
proof (induction p arbitrary: b)
  case (Cons c p)
  have "byte (CHR ''-'') = 45" by (simp add: byte_def)
  with Cons show ?case
    by (auto simp: bucket_char_def [of c] bucket_digit_def [of c])
qed simp

lemma bucket_pieces_spec:
  "bucket_pieces b ps =
     (if list_all bucket_label ps then Some (b \<and> list_all (list_all bucket_digit) ps) else None)"
  by (induction ps arbitrary: b) (auto simp: bucket_piece_spec bucket_label_def)

lemma IsValidBucketName_iff:
  "IsValidBucketName b \<longleftrightarrow>
     isMinioMetaBucketName b \<or>
     (3 \<le> length b \<and> length b \<le> 63 \<and>
      list_all bucket_label (strings_Split b CHR ''.'') \<and>
      \<not> (length (strings_Split b CHR ''.'') = 4 \<and>
         list_all (list_all bucket_digit) (strings_Split b CHR ''.'')))"
  by (auto simp: IsValidBucketName_def bucket_pieces_spec Let_def)

lemma set_Join: "set (strings_Join xs c) \<subseteq> insert c (\<Union> (set ` set xs))"
  by (induction xs c rule: strings_Join.induct) auto

lemma set_Split: "x \<in> set s \<Longrightarrow> x = c \<or> (\<exists>p \<in> set (strings_Split s c). x \<in> set p)"
  using set_Join [of "strings_Split s c" c] by (auto simp: Join_Split)

lemma bucket_chars:
  assumes "IsValidBucketName b" "\<not> isMinioMetaBucketName b" "c \<in> set b"
  shows "bucket_char c \<or> c = CHR ''.''"
proof -
  have "list_all bucket_label (strings_Split b CHR ''.'')"
    using assms(1,2) by (simp add: IsValidBucketName_iff)
  then have "\<forall>p \<in> set (strings_Split b CHR ''.''). list_all bucket_char p"
    by (auto simp: list_all_iff bucket_label_def)
  with set_Split [OF assms(3), of "CHR ''.''"] show ?thesis
    by (auto simp: list_all_iff)
qed

lemma bucket_char_no_sep:
  "\<not> bucket_char CHR ''/''" "\<not> bucket_char CHR '':''" "\<not> bucket_char (CHR 0x00)"
  by (simp_all add: bucket_char_def byte_def)

lemma bucket_no_separators:
  assumes "IsValidBucketName b" "\<not> isMinioMetaBucketName b"
  shows "CHR ''/'' \<notin> set b" "CHR '':'' \<notin> set b" "CHR 0x00 \<notin> set b"
  using bucket_chars [OF assms] bucket_char_no_sep by auto

section \<open>Object names\<close>

lemma trim_seqs_component:
  assumes "\<forall>w \<in> set ws. sep \<notin> set w \<and> set w \<inter> set c = {}"
  shows "c \<noteq> [] \<Longrightarrow> c \<in> set (strings_Split s sep) \<Longrightarrow> c \<in> set (strings_Split (trim_seqs ws s) sep)"
  using assms
proof (induction ws s rule: trim_seqs.induct)
  case (1 ws s)
  show ?case
  proof (cases "find (\<lambda>w. w \<noteq> [] \<and> strings_HasPrefix s w) ws")
    case None
    with 1 show ?thesis by (subst trim_seqs.simps) simp
  next
    case (Some w)
    then have w: "w \<in> set ws" "w \<noteq> []" "strings_HasPrefix s w"
      by (auto simp: find_Some_iff)
    obtain s' where s': "s = w @ s'" using w(3) by (auto simp: HasPrefix_iff_prefix prefix_def)
    have sep: "sep \<notin> set w" and disj: "set w \<inter> set c = {}" using w(1) 1(4) by auto
    obtain y ys where ys: "strings_Split s' sep = y # ys" by (cases "strings_Split s' sep") auto
    have "strings_Split (w @ s') sep = (w @ y) # ys"
      using sep ys by (induction w) auto
    moreover have "c \<noteq> w @ y"
      using w(2) disj by (cases w) auto
    ultimately have "c \<in> set (strings_Split s' sep)" using 1(3) s' ys by auto
    moreover have "trim_seqs ws s = trim_seqs ws s'"
      using Some s' by (subst trim_seqs.simps) simp
    ultimately show ?thesis using 1(1) [OF Some] 1(2,4) s' by simp
  qed
qed

lemma Split_snoc:
  "strings_Split (s @ [x]) c =
     (if x = c then strings_Split s c @ [[]]
      else butlast (strings_Split s c) @ [last (strings_Split s c) @ [x]])"
  by (induction s) (auto split: list.splits)

lemma Split_rev: "strings_Split (rev s) c = rev (map rev (strings_Split s c))"
proof (induction s)
  case (Cons x s)
  then show ?case
    by (cases "strings_Split s c") (auto simp: Split_snoc)
qed simp

lemma space_seqs_plain: "list_all (\<lambda>w. CHR ''/'' \<notin> set w \<and> CHR ''.'' \<notin> set w) space_seqs"
  by (simp add: space_seqs_def)

lemma space_seqs_disjoint:
  "c \<in> {''.'', ''..''} \<Longrightarrow> \<forall>w \<in> set space_seqs. CHR ''/'' \<notin> set w \<and> set w \<inter> set c = {}"
  using space_seqs_plain by (auto simp: list_all_iff)

lemma TrimSpace_component:
  assumes "c \<in> {''.'', ''..''}" "c \<in> set (strings_Split s CHR ''/'')"
  shows "c \<in> set (strings_Split (TrimSpace s) CHR ''/'')"
proof -
  let ?t = "trim_seqs space_seqs s"
  have nz: "c \<noteq> []" and rc: "rev c = c" using assms(1) by auto
  have "c \<in> set (strings_Split ?t CHR ''/'')"
    using trim_seqs_component [OF space_seqs_disjoint [OF assms(1)] nz assms(2)] .
  then have "c \<in> set (strings_Split (rev ?t) CHR ''/'')"
    using rc by (auto simp: Split_rev image_iff intro: bexI [of _ c])
  moreover have "\<forall>w \<in> set (map rev space_seqs). CHR ''/'' \<notin> set w \<and> set w \<inter> set c = {}"
    using space_seqs_disjoint [OF assms(1)] by auto
  ultimately have "c \<in> set (strings_Split (trim_seqs (map rev space_seqs) (rev ?t)) CHR ''/'')"
    using trim_seqs_component nz by blast
  then show ?thesis
    using rc by (auto simp: TrimSpace_def Split_rev image_iff intro: bexI [of _ c])
qed

lemma TrimSpace_dots: "TrimSpace ''.'' = ''.''" "TrimSpace ''..'' = ''..''"
  by (simp_all add: TrimSpace_def space_seqs_def trim_seqs.simps strings_HasPrefix_def)

lemma no_bad_component:
  assumes "\<not> hasBadPathComponent s" "c \<in> set (strings_Split s CHR ''/'')"
  shows "c \<noteq> ''.''" "c \<noteq> ''..''"
  using assms TrimSpace_component [of c s] TrimSpace_dots
  by (auto simp: hasBadPathComponent_def list_ex_iff)


lemma Join_append:
  "xs \<noteq> [] \<Longrightarrow> ys \<noteq> [] \<Longrightarrow> strings_Join (xs @ ys) c = strings_Join xs c @ c # strings_Join ys c"
proof (induction xs)
  case (Cons x xs)
  then show ?case by (cases xs; cases ys) auto
qed simp

lemma inner_empty_component:
  assumes "strings_Split s c = xs @ [] # y # ys"
  shows "s \<noteq> [] \<and> hd s = c \<or> strings_Contains s [c, c]"
proof -
  have "s = strings_Join (xs @ [] # y # ys) c" using assms Join_Split [of s c] by simp
  then show ?thesis
    by (cases "xs = []") (auto simp: Join_append Contains_iff)
qed

text \<open>The components of an accepted object name: all of them plain, and possibly a final empty
  one when the name ends with a slash.\<close>

lemma object_components:
  assumes "IsValidObjectPrefix obj" "\<not> HasPrefix obj SlashSeparator" "obj \<noteq> []"
  shows "\<exists>cs. (\<forall>c \<in> set cs. plain_component c) \<and> cs \<noteq> [] \<and>
           strings_Split obj CHR ''/'' = cs @ (if HasSuffix obj SlashSeparator then [[]] else [])"
proof -
  let ?sp = "strings_Split obj CHR ''/''"
  have bad: "\<not> hasBadPathComponent obj" "\<not> strings_Contains obj ''//''"
    using assms(1) by (auto simp: IsValidObjectPrefix_def split: if_splits)
  have hdo: "hd obj \<noteq> CHR ''/''"
    using assms(2,3) by (cases obj) (auto simp: HasPrefix_def strings_HasPrefix_def)
  have nonempty: "p \<noteq> []" if "p \<in> set (butlast ?sp)" for p
  proof
    assume "p = []"
    with that obtain xs ys where "butlast ?sp = xs @ [] # ys" by (auto simp: in_set_conv_decomp)
    then have "?sp = xs @ [] # (ys @ [last ?sp])"
      by (metis Split_not_Nil append_Cons append_assoc append_butlast_last_id)
    then obtain y zs where "?sp = xs @ [] # y # zs" by (cases ys) auto
    then show False using inner_empty_component hdo bad(2) by blast
  qed
  have plain: "plain_component p" if "p \<in> set ?sp" "p \<noteq> []" for p
    using that no_bad_component [OF bad(1)] Split_pieces by (auto simp: plain_component_def)
  have last: "last ?sp = [] \<longleftrightarrow> HasSuffix obj SlashSeparator"
    using assms(3) by (cases obj rule: rev_cases)
      (auto simp: Split_snoc HasSuffix_def HasSuffix_iff)
  have sp: "?sp = butlast ?sp @ [last ?sp]" by simp
  show ?thesis
  proof (cases "last ?sp = []")
    case True
    have "butlast ?sp \<noteq> []"
      using True assms(3) sp Join_Split [of obj "CHR ''/''"] by (metis append_Nil strings_Join.simps(2))
    with True last sp plain nonempty show ?thesis
      by (intro exI [of _ "butlast ?sp"]) (auto dest: in_set_butlastD)
  next
    case False
    then have "\<forall>p \<in> set ?sp. plain_component p"
      using plain nonempty sp by (metis UnE empty_iff empty_set in_set_conv_nth insert_iff list.set(2) set_append)
    with False last show ?thesis by (intro exI [of _ ?sp]) auto
  qed
qed

lemma clean_step_trailing:
  "\<forall>c \<in> set cs. plain_component c \<Longrightarrow> clean_step r st (cs @ [[]]) = rev st @ cs"
  by (induction cs arbitrary: st) (auto simp: plain_component_def)

lemma pathJoin_bucket_object:
  assumes "plain_component b" "IsValidObjectPrefix obj" "\<not> HasPrefix obj SlashSeparator" "obj \<noteq> []"
  shows "pathJoin [b, obj] = b @ ''/'' @ obj"
proof -
  obtain cs where cs: "\<forall>c \<in> set cs. plain_component c" "cs \<noteq> []"
    "strings_Split obj CHR ''/'' = cs @ (if HasSuffix obj SlashSeparator then [[]] else [])"
    using object_components [OF assms(2,3,4)] by blast
  have b: "b \<noteq> []" "CHR ''/'' \<notin> set b" "hd b \<noteq> CHR ''/''"
    using assms(1) by (auto simp: plain_component_def dest: hd_in_set)
  have split: "strings_Split (b @ CHR ''/'' # obj) CHR ''/'' = b # strings_Split obj CHR ''/''"
    using b by (simp add: Split_append_sep)
  have clean: "clean_step False [] (b # strings_Split obj CHR ''/'') = b # cs"
    using cs(1,3) assms(1) clean_step_trailing [of "b # cs" False "[]"]
      clean_step_plain [of "b # cs" False "[]"]
    by (cases "HasSuffix obj SlashSeparator") auto
  have obj: "obj = strings_Join cs CHR ''/'' @ (if HasSuffix obj SlashSeparator then ''/'' else [])"
    using cs Join_Split [of obj "CHR ''/''"] by (auto simp: Join_append split: if_splits)
  have "strings_Join (b # cs) CHR ''/'' \<noteq> []"
    using hd_Join [of "b # cs"] b by simp
  then have "path_Clean (b @ CHR ''/'' # obj) = strings_Join (b # cs) CHR ''/''"
    using b by (simp add: path_Clean_def split clean del: clean_step.simps)
  moreover have "strings_Join (b # cs) CHR ''/'' = b @ ''/'' @ strings_Join cs CHR ''/''"
    using cs(2) by (cases cs) auto
  ultimately show ?thesis
    using b obj by (simp add: pathJoin_def path_Join_def Let_def)
qed

lemma plain_bucket:
  assumes "IsValidBucketName b" "\<not> isMinioMetaBucketName b"
  shows "plain_component b"
  using assms bucket_no_separators(1) [OF assms] by (auto simp: plain_component_def IsValidBucketName_iff)

lemma Index_append: "c \<notin> set s \<Longrightarrow> strings_Index (s @ c # t) c = Some (length s)"
  by (induction s) auto

lemma path2BucketObject_key:
  assumes "CHR ''/'' \<notin> set b" "b \<noteq> []"
  shows "path2BucketObject (b @ ''/'' @ obj) = (b, obj)"
    "path2BucketObject (''/'' @ b @ ''/'' @ obj) = (b, obj)"
proof -
  have "\<not> strings_HasPrefix (b @ ''/'' @ obj) ''/''"
    using assms by (cases b) (auto simp: strings_HasPrefix_def)
  then show "path2BucketObject (b @ ''/'' @ obj) = (b, obj)"
    using assms(1) by (simp add: path2BucketObject_def path2BucketObjectWithBasePath_def
        strings_TrimPrefix_def Index_append)
  show "path2BucketObject (''/'' @ b @ ''/'' @ obj) = (b, obj)"
    using assms(1) TrimPrefix_append [of "''/''" "b @ ''/'' @ obj"]
    by (simp add: path2BucketObject_def path2BucketObjectWithBasePath_def Index_append
        strings_TrimPrefix_def [of _ "[]"])
qed

text \<open>C31. A bucket name is accepted exactly if it is a reserved name, or has 3 to 63 characters and is a sequence
  of dot-separated labels of lower-case letters, digits and hyphens, none of them beginning or ending with a
  hyphen, that does not look like an IP address.\<close>

theorem bucket_name_rules:
  "IsValidBucketName b \<longleftrightarrow>
     isMinioMetaBucketName b \<or>
     (3 \<le> length b \<and> length b \<le> 63 \<and>
      list_all bucket_label (strings_Split b CHR ''.'') \<and>
      \<not> (length (strings_Split b CHR ''.'') = 4 \<and>
         list_all (list_all bucket_digit) (strings_Split b CHR ''.'')))"
  by (rule IsValidBucketName_iff)

text \<open>For a valid bucket name and a valid object name, the path the layer locks is the key the drive stores,
  and splitting it gives the two names back: no name can escape from its bucket.\<close>

theorem object_path_roundtrip:
  assumes "IsValidBucketName b" "\<not> isMinioMetaBucketName b"
    "IsValidObjectPrefix obj" "\<not> HasPrefix obj SlashSeparator" "obj \<noteq> []"
  shows "pathJoin [b, obj] = b @ ''/'' @ obj \<and> path2BucketObject (pathJoin [b, obj]) = (b, obj)"
proof -
  have "b \<noteq> []" using plain_bucket [OF assms(1,2)] by (auto simp: plain_component_def)
  then show ?thesis
    using pathJoin_bucket_object [OF plain_bucket [OF assms(1,2)] assms(3-5)]
      path2BucketObject_key(1) [OF bucket_no_separators(1) [OF assms(1,2)]] by simp
qed

theorem object_path_roundtrip_witness:
  "pathJoin [''my-bucket'', ''a/b.txt''] = ''my-bucket/a/b.txt'' \<and>
   path2BucketObject (pathJoin [''my-bucket'', ''a/b.txt'']) = (''my-bucket'', ''a/b.txt'')"
proof -
  have "IsValidBucketName ''my-bucket''" "\<not> isMinioMetaBucketName ''my-bucket''"
    by (simp_all add: IsValidBucketName_iff isMinioMetaBucketName_def bucket_label_def bucket_char_def byte_def)
  moreover have "IsValidObjectPrefix ''a/b.txt''" "\<not> HasPrefix ''a/b.txt'' SlashSeparator"
    by (simp_all add: IsValidObjectPrefix_graph graph_char_def byte_def strings_HasPrefix_def HasPrefix_def)
  ultimately have "pathJoin [''my-bucket'', ''a/b.txt''] = ''my-bucket'' @ ''/'' @ ''a/b.txt'' \<and>
      path2BucketObject (pathJoin [''my-bucket'', ''a/b.txt'']) = (''my-bucket'', ''a/b.txt'')"
    by (intro object_path_roundtrip) simp_all
  then show ?thesis unfolding append.simps .
qed

end
