(* ===== verification/Kinetic_Keys.thy ===== *)
theory Kinetic_Keys
  imports Object_Names "HOL-Library.Signed_Division"
begin

text \<open>
  The layout of the drive's key space: \<^verbatim>\<open>common/util.go\<close> (byte-string increment), the key, version
  and part-name functions of \<^verbatim>\<open>cmd/kinetic.go\<close>, \<^verbatim>\<open>cmd/kinetic-multipart.go\<close> and
  \<^verbatim>\<open>cmd/object-api-utils.go\<close>.

  A bucket \<open>b\<close> is the key \<^verbatim>\<open>bucket.b\<close>, an object \<open>o\<close> of it the key \<^verbatim>\<open>b/o\<close>, part \<open>n\<close> of version
  \<open>v\<close> of it \<^verbatim>\<open>b/o.v.n.etag.size\<close>, an upload in progress \<^verbatim>\<open>b/o.fs.json.uploadID\<close>. The lemmas
  show when the half-open range from a key to its increment is exactly the set of keys with that
  prefix, that versions stay in 1..99999, that part names decode to what was encoded, and that
  keys of different objects differ.
\<close>

section \<open>Incrementing a byte string\<close>

definition inc_byte :: "char \<Rightarrow> char" where
  "inc_byte c = char_of ((of_char c + 1 :: nat) mod 256)"

text \<open>The loop of \<^verbatim>\<open>IncByte\<close> runs from the last byte down and stops at the first byte that does
  not wrap to 0; the list is the bytes from the last one to the first.\<close>

fun IncByte_loop :: "bytes \<Rightarrow> bytes" where
  "IncByte_loop [] = []"
| "IncByte_loop (b # bs) =
     (let b' = inc_byte b in if 0 < (of_char b' :: nat) then b' # bs else b' # IncByte_loop bs)"

definition IncByte :: "bytes \<Rightarrow> bytes" where
  "IncByte bs = rev (IncByte_loop (rev bs))"

definition IncStr :: "string \<Rightarrow> string" where
  "IncStr str = IncByte str"

section \<open>Keys, versions and part names\<close>

definition makeKey :: "string \<Rightarrow> string \<Rightarrow> string" where
  "makeKey bucket obj = bucket @ SlashSeparator @ obj"

text \<open>64-bit wrap-around of Go's \<^verbatim>\<open>int\<close>; the remainder of Go truncates, which is \<open>smod\<close>.\<close>

definition wrap64 :: "int \<Rightarrow> int" where
  "wrap64 i = (i + 2 ^ 63) mod 2 ^ 64 - 2 ^ 63"

definition newVersion :: "string \<Rightarrow> string" where
  "newVersion aCurVersion =
     (if aCurVersion = [] then Sprintf_05d 1
      else let curVer = fst (Atoi aCurVersion);
               nNxtVer = wrap64 (curVer + 1) smod 100000;
               nNxtVer = (if nNxtVer = 0 then 1 else nNxtVer)
           in Sprintf_05d nNxtVer)"

definition encodePartFile :: "int \<Rightarrow> string \<Rightarrow> int \<Rightarrow> string" where
  "encodePartFile partNumber etag actualSize =
     Sprintf_05d partNumber @ ''.'' @ etag @ ''.'' @ FormatInt actualSize"

definition decodePartFile :: "string \<Rightarrow> (int \<times> string \<times> int) + error" where
  "decodePartFile name =
     (let result = strings_Split name CHR ''.'' in
      if length result \<noteq> 3 then Inr (Storage errUnexpected)
      else case Atoi (result ! 0) of
             (_, Some _) \<Rightarrow> Inr (Storage errUnexpected)
           | (partNumber, None) \<Rightarrow>
               (case ParseInt (result ! 2) of
                  (_, Some _) \<Rightarrow> Inr (Storage errUnexpected)
                | (actualSize, None) \<Rightarrow> Inl (partNumber, result ! 1, actualSize)))"

definition getPartKO :: "string list \<Rightarrow> int \<Rightarrow> string \<Rightarrow> string" where
  "getPartKO keys partNumber etag =
     (case find (\<lambda>key. strings_HasPrefix key (Sprintf_05d partNumber @ ''.'' @ etag @ ''.'')) keys of
        Some key \<Rightarrow> key
      | None \<Rightarrow> [])"

section \<open>The range from a key to its increment\<close>

lemma of_char_inc: "of_char c \<noteq> (255 :: nat) \<Longrightarrow> of_char (inc_byte c) = (of_char c + 1 :: nat)"
proof -
  assume "of_char c \<noteq> (255 :: nat)"
  then have "of_char c + 1 < (256 :: nat)" using nat_of_char_less_256 [of c] by linarith
  then show ?thesis by (simp add: inc_byte_def)
qed

lemma IncStr_snoc: "of_char c \<noteq> (255 :: nat) \<Longrightarrow> IncStr (p @ [c]) = p @ [inc_byte c]"
  by (simp add: IncStr_def IncByte_def of_char_inc)

lemma IncStr_length [simp]: "length (IncStr s) = length s"
proof -
  have "length (IncByte_loop xs) = length xs" for xs
    by (induction xs) (auto simp: Let_def)
  then show ?thesis by (simp add: IncStr_def IncByte_def)
qed

lemma char_less_iff: "c < d \<longleftrightarrow> (of_char c :: nat) < of_char d" for c d :: char
  by (simp add: less_char_def)

lemma between_inc:
  assumes "of_char c \<noteq> (255 :: nat)"
  shows "\<not> d < c \<and> d < inc_byte c \<longleftrightarrow> d = c"
proof -
  have "\<not> d < c \<and> d < inc_byte c \<longleftrightarrow> (of_char d :: nat) = of_char c"
    unfolding char_less_iff of_char_inc [OF assms] by linarith
  then show ?thesis by simp
qed

lemma prefix_range_snoc:
  assumes "of_char c \<noteq> (255 :: nat)"
  shows "p @ [c] \<le> k \<and> k < p @ [inc_byte c] \<longleftrightarrow> prefix (p @ [c]) k"
proof (induction p arbitrary: k)
  case Nil
  show ?case
  proof (cases k)
    case (Cons d t)
    have "[c] \<le> d # t \<longleftrightarrow> \<not> d < c" by auto
    moreover have "d # t < [inc_byte c] \<longleftrightarrow> d < inc_byte c" by simp
    ultimately show ?thesis
      using Cons between_inc [OF assms, of d] by (simp add: eq_commute)
  qed simp
next
  case (Cons a p)
  show ?case
  proof (cases k)
    case Nil
    then show ?thesis by simp
  next
    case (Cons d t)
    show ?thesis
    proof (cases "a = d")
      case True
      with Cons show ?thesis using Cons.IH [of t] by simp
    next
      case False
      with Cons show ?thesis by auto
    qed
  qed
qed

text \<open>The scan range the listing code uses holds exactly the keys with the prefix, provided the
  last byte of the prefix is not \<open>0xFF\<close>, which no UTF-8 text ends with.\<close>

lemma IncStr_range:
  assumes "p \<noteq> []" "of_char (last p) \<noteq> (255 :: nat)"
  shows "p \<le> k \<and> k < IncStr p \<longleftrightarrow> prefix p k"
proof -
  have p: "butlast p @ [last p] = p" using assms(1) by simp
  have inc: "IncStr p = butlast p @ [inc_byte (last p)]"
    using IncStr_snoc [OF assms(2), of "butlast p"] unfolding p .
  show ?thesis
    using prefix_range_snoc [OF assms(2), of "butlast p" k] unfolding p inc .
qed

lemma IncStr_greater:
  assumes "p \<noteq> []" "of_char (last p) \<noteq> (255 :: nat)"
  shows "p < IncStr p"
  using IncStr_range [OF assms, of p] by simp

text \<open>Without that proviso the range is wrong: incrementing a run of \<open>0xFF\<close> wraps around.\<close>

lemma IncStr_wraps: "IncStr [CHR 0xFF] = [CHR 0x00]"
  by code_simp

section \<open>Versions\<close>

lemma wrap64_id: "minInt64 \<le> i \<Longrightarrow> i \<le> maxInt64 \<Longrightarrow> wrap64 i = i"
  by (simp add: wrap64_def)

lemma smod_pos: "0 \<le> a \<Longrightarrow> 0 < b \<Longrightarrow> a smod b = a mod b" for a b :: int
  by (simp add: signed_modulo_int_def signed_divide_int_def sgn_if minus_div_mult_eq_mod)

text \<open>The version after version \<open>n\<close>.\<close>

definition next_version_number :: "int \<Rightarrow> int" where
  "next_version_number n = (if n = 99999 then 1 else n + 1)"

lemma newVersion_step:
  assumes "0 \<le> n" "n \<le> 99999"
  shows "newVersion (Sprintf_05d n) = Sprintf_05d (next_version_number n)"
proof -
  have "Atoi (Sprintf_05d n) = (n, None)" using assms by (simp add: Atoi_Sprintf_05d)
  moreover have "wrap64 (n + 1) = n + 1" using assms by (simp add: wrap64_id)
  ultimately show ?thesis
    using assms by (auto simp: newVersion_def smod_pos next_version_number_def)
qed

lemma newVersion_empty: "newVersion [] = Sprintf_05d 1"
  by (simp add: newVersion_def)

text \<open>The versions an object goes through: none, then the iterates of \<^verbatim>\<open>newVersion\<close>.\<close>

lemma newVersion_iterate:
  "(newVersion ^^ Suc k) [] = Sprintf_05d (int k mod 99999 + 1)"
proof (induction k)
  case 0
  show ?case by (simp add: newVersion_empty)
next
  case (Suc k)
  let ?m = "int k mod 99999"
  have m: "0 \<le> ?m" "?m < 99999" by simp_all
  have "next_version_number (?m + 1) = (?m + 1) mod 99999 + 1"
    using m by (auto simp: next_version_number_def)
  also have "(?m + 1) mod 99999 = int (Suc k) mod 99999"
    by (simp add: mod_simps add.commute)
  finally have "next_version_number (?m + 1) = int (Suc k) mod 99999 + 1" .
  moreover have "(newVersion ^^ Suc (Suc k)) [] = newVersion ((newVersion ^^ Suc k) [])" by simp
  ultimately show ?case
    using Suc newVersion_step [of "?m + 1"] m by simp
qed

section \<open>Part names\<close>

lemma FormatInt_no_dot [simp]: "CHR ''.'' \<notin> set (FormatInt i)"
  using digits_no_char [OF show_nat_digits not_digit_dot(1)] by (simp add: FormatInt_def)

lemma Sprintf_05d_no_dot: "0 \<le> i \<Longrightarrow> CHR ''.'' \<notin> set (Sprintf_05d i)"
  using digits_no_char [OF Sprintf_05d_digits not_digit_dot(1)] by simp

lemma Split_append: "strings_Split (x @ c # y) c = strings_Split x c @ strings_Split y c"
proof (induction x)
  case (Cons a x)
  then show ?case by (cases "strings_Split x c") auto
qed simp

lemma Split_encodePartFile:
  assumes "0 \<le> n" "CHR ''.'' \<notin> set etag"
  shows "strings_Split (encodePartFile n etag sz) CHR ''.'' = [Sprintf_05d n, etag, FormatInt sz]"
  using assms by (simp add: encodePartFile_def Split_append Split_no_sep Sprintf_05d_no_dot)

lemma decode_encodePartFile:
  assumes "0 \<le> n" "n \<le> maxInt64" "CHR ''.'' \<notin> set etag" "minInt64 \<le> sz" "sz \<le> maxInt64"
  shows "decodePartFile (encodePartFile n etag sz) = Inl (n, etag, sz)"
  using assms by (simp add: decodePartFile_def Split_encodePartFile Atoi_Sprintf_05d ParseInt_FormatInt)

lemma FormatInt_inj:
  assumes "FormatInt i = FormatInt j" "minInt64 \<le> i" "i \<le> maxInt64" "minInt64 \<le> j" "j \<le> maxInt64"
  shows "i = j"
  using assms ParseInt_FormatInt by (metis prod.inject)

text \<open>The key of a part, as \<^verbatim>\<open>PutObjectPart\<close> builds it, and its fields read back from the end.\<close>

definition part_key :: "string \<Rightarrow> string \<Rightarrow> string \<Rightarrow> int \<Rightarrow> string \<Rightarrow> int \<Rightarrow> string" where
  "part_key bucket object version partNumber etag actualSize =
     bucket @ ''/'' @ object @ ''.'' @ version @ ''.'' @ encodePartFile partNumber etag actualSize"

lemma part_key_makeKey:
  "part_key b obj v n e sz = makeKey b obj @ ''.'' @ v @ ''.'' @ encodePartFile n e sz"
  by (simp add: part_key_def makeKey_def)

lemma Split_part_key:
  assumes "0 \<le> n" "CHR ''.'' \<notin> set e" "CHR ''.'' \<notin> set v"
  shows "strings_Split (part_key b obj v n e sz) CHR ''.'' =
           strings_Split (makeKey b obj) CHR ''.'' @ [v, Sprintf_05d n, e, FormatInt sz]"
  using assms by (simp add: part_key_makeKey Split_append Split_encodePartFile Split_no_sep)

lemma Split_inj: "strings_Split s c = strings_Split t c \<Longrightarrow> s = t"
  by (metis Join_Split)

lemma makeKey_inj:
  assumes "makeKey b obj = makeKey b' obj'" "CHR ''/'' \<notin> set b" "CHR ''/'' \<notin> set b'"
  shows "b = b' \<and> obj = obj'"
  using arg_cong [OF assms(1), of "\<lambda>k. strings_Split k CHR ''/''"] assms(2,3)
  by (auto simp: makeKey_def Split_append_sep intro: Split_inj)

lemma part_key_inj:
  assumes "part_key b obj v n e sz = part_key b' obj' v' n' e' sz'"
    and "0 \<le> n" "0 \<le> n'"
    and "CHR ''.'' \<notin> set e" "CHR ''.'' \<notin> set e'" "CHR ''.'' \<notin> set v" "CHR ''.'' \<notin> set v'"
    and "minInt64 \<le> sz" "sz \<le> maxInt64" "minInt64 \<le> sz'" "sz' \<le> maxInt64"
    and "CHR ''/'' \<notin> set b" "CHR ''/'' \<notin> set b'"
  shows "b = b' \<and> obj = obj' \<and> v = v' \<and> n = n' \<and> e = e' \<and> sz = sz'"
proof -
  have "strings_Split (makeKey b obj) CHR ''.'' = strings_Split (makeKey b' obj') CHR ''.''"
    and eqs: "v = v'" "Sprintf_05d n = Sprintf_05d n'" "e = e'" "FormatInt sz = FormatInt sz'"
    using arg_cong [OF assms(1), of "\<lambda>k. strings_Split k CHR ''.''"] assms(2-7)
    by (auto simp: Split_part_key)
  then have "makeKey b obj = makeKey b' obj'" using Split_inj by blast
  then show ?thesis
    using makeKey_inj assms(2,3,8-13) eqs FormatInt_inj Sprintf_05d_inj by metis
qed

text \<open>Looking up a part by number and ETag among the encoded names of a version.\<close>

lemma field_prefix_iff:
  assumes "CHR ''.'' \<notin> set x" "CHR ''.'' \<notin> set y"
  shows "prefix (x @ CHR ''.'' # s) (y @ CHR ''.'' # t) \<longleftrightarrow> x = y \<and> prefix s t"
  using assms
proof (induction x arbitrary: y)
  case Nil
  then show ?case by (cases y) auto
next
  case (Cons a x)
  then show ?case by (cases y) auto
qed

lemma part_prefix_iff:
  assumes "0 \<le> n" "0 \<le> m" "CHR ''.'' \<notin> set e" "CHR ''.'' \<notin> set f"
  shows "strings_HasPrefix (encodePartFile m f sz) (Sprintf_05d n @ ''.'' @ e @ ''.'') \<longleftrightarrow> n = m \<and> e = f"
  using assms by (auto simp: HasPrefix_iff_prefix encodePartFile_def field_prefix_iff
      Sprintf_05d_no_dot Sprintf_05d_inj)

lemma find_SomeD: "find P xs = Some x \<Longrightarrow> x \<in> set xs \<and> P x"
  by (auto simp: find_Some_iff)

lemma getPartKO_found:
  assumes "getPartKO keys n e \<noteq> []"
  shows "getPartKO keys n e \<in> set keys"
    "strings_HasPrefix (getPartKO keys n e) (Sprintf_05d n @ ''.'' @ e @ ''.'')"
  using assms find_SomeD by (fastforce simp: getPartKO_def split: option.splits)+

lemma encodePartFile_not_Nil [simp]: "encodePartFile n e sz \<noteq> []"
  by (simp add: encodePartFile_def)

lemma getPartKO_encoded:
  assumes "0 \<le> n" "CHR ''.'' \<notin> set e"
    and "\<forall>(m, f, sz) \<in> set ps. 0 \<le> m \<and> CHR ''.'' \<notin> set f"
  shows "getPartKO (map (\<lambda>(m, f, sz). encodePartFile m f sz) ps) n e =
           (case find (\<lambda>(m, f, sz). m = n \<and> f = e) ps of
              Some (m, f, sz) \<Rightarrow> encodePartFile n e sz
            | None \<Rightarrow> [])"
  using assms(3)
proof (induction ps)
  case Nil
  then show ?case by (simp add: getPartKO_def)
next
  case (Cons p ps)
  obtain m f sz where p: "p = (m, f, sz)" by (cases p)
  show ?case
    using Cons p assms(1,2) part_prefix_iff [of n m e f sz]
    by (auto simp: getPartKO_def split: option.splits)
qed

section \<open>Properties of keys and versions\<close>

text \<open>C30. The key range the layer asks the drive for, from a key to its increment, holds exactly the keys that
  start with that key: a prefix listing returns neither more nor less.\<close>

theorem IncStr_is_prefix_range:
  assumes "p \<noteq> []" "of_char (last p) \<noteq> (255 :: nat)"
  shows "p \<le> k \<and> k < IncStr p \<longleftrightarrow> prefix p k"
  using IncStr_range [OF assms] .

theorem IncStr_is_prefix_range_witness:
  "(''b/a'' \<le> ''b/ab'' \<and> ''b/ab'' < IncStr ''b/a'') \<and> \<not> (''b/a'' \<le> ''b/c'' \<and> ''b/c'' < IncStr ''b/a'')"
  using IncStr_is_prefix_range [of "''b/a''" "''b/ab''"] IncStr_is_prefix_range [of "''b/a''" "''b/c''"] by simp

text \<open>Successive uploads of an object number its versions 1, 2, ..., 99999 and then 1 again, five digits
  each, and a new version never equals the one it replaces, so the parts of a new version are never stored
  under the keys of the current one.\<close>

theorem versions_cycle:
  "(newVersion ^^ Suc k) [] = Sprintf_05d (int k mod 99999 + 1) \<and>
   (newVersion ^^ Suc (Suc k)) [] \<noteq> (newVersion ^^ Suc k) []"
proof -
  let ?v = "\<lambda>k. int k mod 99999 + 1"
  have b: "0 \<le> ?v j" for j using pos_mod_sign [of 99999 "int j"] by linarith
  have v: "?v j = int (j mod 99999) + 1" for j by (simp add: zmod_int)
  have "Suc k mod 99999 \<noteq> k mod 99999" by (simp add: mod_Suc)
  then have "?v (Suc k) \<noteq> ?v k" unfolding v by simp
  then have "Sprintf_05d (?v (Suc k)) \<noteq> Sprintf_05d (?v k)"
    using Sprintf_05d_inj b by simp
  then show ?thesis by (simp only: newVersion_iterate simp_thms)
qed

text \<open>The name of a part stored on the drive gives back the part number, the ETag and the size it was made
  of.\<close>

theorem part_file_roundtrip:
  assumes "0 \<le> n" "n \<le> maxInt64" "CHR ''.'' \<notin> set etag" "minInt64 \<le> sz" "sz \<le> maxInt64"
  shows "decodePartFile (encodePartFile n etag sz) = Inl (n, etag, sz)"
  by (rule decode_encodePartFile [OF assms])

theorem part_file_roundtrip_witness:
  "decodePartFile (encodePartFile 7 ''e3b0'' 5242880) = Inl (7, ''e3b0'', 5242880)"
  using part_file_roundtrip [of 7 "''e3b0''" 5242880] by simp

text \<open>Distinct parts have distinct keys: the key of a part determines the bucket, the object, the
  version, the part number, the ETag and the size.\<close>

theorem part_keys_distinct:
  assumes "part_key b obj v n e sz = part_key b' obj' v' n' e' sz'"
    and "0 \<le> n" "0 \<le> n'"
    and "CHR ''.'' \<notin> set e" "CHR ''.'' \<notin> set e'" "CHR ''.'' \<notin> set v" "CHR ''.'' \<notin> set v'"
    and "minInt64 \<le> sz" "sz \<le> maxInt64" "minInt64 \<le> sz'" "sz' \<le> maxInt64"
    and "CHR ''/'' \<notin> set b" "CHR ''/'' \<notin> set b'"
  shows "b = b' \<and> obj = obj' \<and> v = v' \<and> n = n' \<and> e = e' \<and> sz = sz'"
  by (rule part_key_inj [OF assms])

theorem part_keys_distinct_witness:
  "part_key ''bkt'' ''o'' ''00001'' 1 ''e'' 5 = part_key ''bkt'' ''o'' ''00001'' 1 ''e'' 5 \<and>
   part_key ''bkt'' ''o'' ''00001'' 2 ''e'' 5 \<noteq> part_key ''bkt'' ''o'' ''00001'' 1 ''e'' 5"
proof -
  have "part_key ''bkt'' ''o'' ''00001'' 2 ''e'' 5 \<noteq> part_key ''bkt'' ''o'' ''00001'' 1 ''e'' 5"
  proof
    assume "part_key ''bkt'' ''o'' ''00001'' 2 ''e'' 5 = part_key ''bkt'' ''o'' ''00001'' 1 ''e'' 5"
    from part_keys_distinct [OF this] show False by simp
  qed
  then show ?thesis by simp
qed

end
