(* ===== verification/Kinetic_Meta.thy ===== *)
theory Kinetic_Meta
  imports Kinetic_Keys
begin

text \<open>
  Metadata: the structs of \<^verbatim>\<open>cmd/fs-v1-metadata.go\<close>, \<^verbatim>\<open>cmd/kinetic.go\<close>,
  \<^verbatim>\<open>cmd/object-api-datatypes.go\<close> and \<^verbatim>\<open>cmd/xl-v1-metadata.go\<close> that the Kinetic layer stores and
  returns, the conversion of stored metadata into object information, and the ETag helpers.

  A Go map is an association list (\<^verbatim>\<open>nil\<close> and empty maps are both \<open>[]\<close>; the one place that writes
  into a map it did not create is modelled as a panic where it happens). Time is a number of
  nanoseconds since 1970.

  What is written to the drive is one of three encodings. \<^verbatim>\<open>encoding/json\<close> and \<^verbatim>\<open>encoding/gob\<close>
  are modelled by the value they encode, so \<^verbatim>\<open>json.Marshal(m)\<close> is \<open>Json m\<close>; decoding bytes that
  no \<^verbatim>\<open>Marshal\<close> of the program produced is a parameter. The strings of a metadata value are
  taken to be valid UTF-8, as JSON text is.
\<close>

section \<open>Structs\<close>

abbreviation zeroTime :: int where "zeroTime \<equiv> - 62135596800000000000"
abbreviation (input) timeSentinel :: int where "timeSentinel \<equiv> 0"

record KOInfo =
  ko_Name :: string
  ko_Size :: int
  ko_CreatedTime :: int
  ko_ModTime :: int

record KVInfo =
  ki_name :: string
  ki_size :: int
  ki_createdTime :: int
  ki_modTime :: int
  ki_hidden :: bool

record BucketInfo =
  bi_Name :: string
  bi_Created :: int

record ObjectPartInfo =
  op_ETag :: string
  op_Number :: int
  op_Size :: int
  op_ActualSize :: int

record FSChecksumInfoV1 =
  cs_Algorithm :: string
  cs_Blocksize :: int
  cs_Hashes :: "bytes list"

record fsMetaV1 =
  fm_Version :: string
  fm_Checksum :: FSChecksumInfoV1
  fm_Meta :: strmap
  fm_Parts :: "ObjectPartInfo list"
  fm_KoInfo :: KOInfo

record ObjectInfo =
  oi_Bucket :: string
  oi_Name :: string
  oi_ModTime :: int
  oi_Size :: int
  oi_IsDir :: bool
  oi_ETag :: string
  oi_ContentType :: string
  oi_ContentEncoding :: string
  oi_Expires :: int
  oi_StorageClass :: string
  oi_UserDefined :: strmap
  oi_UserTags :: string
  oi_Parts :: "ObjectPartInfo list"
  oi_metadataOnly :: bool
  oi_Hidden :: bool

record PartInfo =
  pi_PartNumber :: int
  pi_LastModified :: int
  pi_ETag :: string
  pi_Size :: int
  pi_ActualSize :: int

record CompletePart =
  cp_PartNumber :: int
  cp_ETag :: string

text \<open>The zero values of the structs.\<close>

definition KOInfo0 :: KOInfo where
  "KOInfo0 = \<lparr>ko_Name = [], ko_Size = 0, ko_CreatedTime = zeroTime, ko_ModTime = zeroTime\<rparr>"

definition KVInfo0 :: KVInfo where
  "KVInfo0 = \<lparr>ki_name = [], ki_size = 0, ki_createdTime = zeroTime, ki_modTime = zeroTime,
              ki_hidden = False\<rparr>"

definition BucketInfo0 :: BucketInfo where
  "BucketInfo0 = \<lparr>bi_Name = [], bi_Created = zeroTime\<rparr>"

definition FSChecksumInfoV1_0 :: FSChecksumInfoV1 where
  "FSChecksumInfoV1_0 = \<lparr>cs_Algorithm = [], cs_Blocksize = 0, cs_Hashes = []\<rparr>"

definition fsMetaV1_0 :: fsMetaV1 where
  "fsMetaV1_0 = \<lparr>fm_Version = [], fm_Checksum = FSChecksumInfoV1_0, fm_Meta = [], fm_Parts = [],
                 fm_KoInfo = KOInfo0\<rparr>"

definition ObjectInfo0 :: ObjectInfo where
  "ObjectInfo0 = \<lparr>oi_Bucket = [], oi_Name = [], oi_ModTime = zeroTime, oi_Size = 0, oi_IsDir = False,
     oi_ETag = [], oi_ContentType = [], oi_ContentEncoding = [], oi_Expires = zeroTime,
     oi_StorageClass = [], oi_UserDefined = [], oi_UserTags = [], oi_Parts = [],
     oi_metadataOnly = False, oi_Hidden = False\<rparr>"

definition PartInfo0 :: PartInfo where
  "PartInfo0 = \<lparr>pi_PartNumber = 0, pi_LastModified = zeroTime, pi_ETag = [], pi_Size = 0,
                pi_ActualSize = 0\<rparr>"

section \<open>Maps of strings\<close>

text \<open>\<open>mget m k\<close> is the Go expression \<^verbatim>\<open>m[k]\<close>, the empty string for an absent key.\<close>

definition mget :: "strmap \<Rightarrow> string \<Rightarrow> string" where
  "mget m k = (case map_of m k of Some v \<Rightarrow> v | None \<Rightarrow> [])"

abbreviation mset :: "string \<Rightarrow> string \<Rightarrow> strmap \<Rightarrow> strmap" where
  "mset \<equiv> AList.update"

abbreviation mdelete :: "string \<Rightarrow> strmap \<Rightarrow> strmap" where
  "mdelete \<equiv> AList.delete"

lemma mget_mset [simp]: "mget (mset k v m) k' = (if k' = k then v else mget m k')"
  by (simp add: mget_def update_conv')

lemma mget_Nil [simp]: "mget [] k = []"
  by (simp add: mget_def)

lemma mget_mdelete [simp]: "mget (mdelete k m) k' = (if k' = k then [] else mget m k')"
  by (simp add: mget_def delete_conv')

text \<open>Copying the entries of one map over another, the \<^verbatim>\<open>for k, v := range\<close> loop.\<close>

definition mcopy :: "strmap \<Rightarrow> strmap \<Rightarrow> strmap" where
  "mcopy src dst = fold (\<lambda>(k, v). mset k v) src dst"

lemma keys_mset: "fst ` set (mset k v m) = insert k (fst ` set m)"
  using dom_update [of k v m] unfolding dom_def by (simp add: dom_map_of_conv_image_fst [symmetric] update_conv' dom_def)

lemma keys_mcopy: "fst ` set (mcopy src dst) = fst ` set src \<union> fst ` set dst"
  unfolding mcopy_def
  by (induction src arbitrary: dst) (simp_all add: keys_mset split_beta)

definition contains :: "string list \<Rightarrow> string \<Rightarrow> bool" where
  "contains slice elem = (elem \<in> set slice)"

definition removeStandardStorageClass :: "strmap \<Rightarrow> strmap" where
  "removeStandardStorageClass metadata =
     (if mget metadata ''x-amz-storage-class'' = ''STANDARD''
      then mdelete ''x-amz-storage-class'' metadata else metadata)"

definition cleanMetadataKeys :: "strmap \<Rightarrow> string list \<Rightarrow> strmap" where
  "cleanMetadataKeys metadata keyNames = filter (\<lambda>(k, v). \<not> contains keyNames k) metadata"

definition cleanMetadata :: "strmap \<Rightarrow> strmap" where
  "cleanMetadata metadata =
     cleanMetadataKeys (removeStandardStorageClass metadata)
       [''md5Sum'', ''etag'', ''expires'', ''X-Amz-Tagging'']"

definition extractETag :: "strmap \<Rightarrow> string" where
  "extractETag metadata =
     (case map_of metadata ''md5Sum'' of Some etag \<Rightarrow> etag | None \<Rightarrow> mget metadata ''etag'')"

section \<open>Stored encodings\<close>

datatype blob = Raw bytes | Json fsMetaV1 | Gob BucketInfo

text \<open>
  \<^verbatim>\<open>json.Unmarshal(data, &m)\<close> into a metadata value that may already hold something. \<^verbatim>\<open>Marshal\<close> omits an
  empty \<^verbatim>\<open>Meta\<close> and an empty \<^verbatim>\<open>Parts\<close> (\<^verbatim>\<open>omitempty\<close>), which leaves those fields alone; a map that is
  present is merged into the existing one; the other fields are always present and overwrite.
  \<open>foreign\<close> decodes bytes that no \<^verbatim>\<open>Marshal\<close> of the program produced, \<open>None\<close> being an error.
\<close>

definition json_merge :: "fsMetaV1 \<Rightarrow> fsMetaV1 \<Rightarrow> fsMetaV1" where
  "json_merge data m =
     m\<lparr>fm_Version := fm_Version data,
       fm_Checksum := fm_Checksum data,
       fm_Meta := mcopy (fm_Meta data) (fm_Meta m),
       fm_Parts := (if fm_Parts data = [] then fm_Parts m else fm_Parts data),
       fm_KoInfo := fm_KoInfo data\<rparr>"

definition json_Unmarshal ::
  "(bytes \<Rightarrow> fsMetaV1 \<Rightarrow> fsMetaV1 option) \<Rightarrow> blob \<Rightarrow> fsMetaV1 \<Rightarrow> fsMetaV1 \<times> error option" where
  "json_Unmarshal foreign data m =
     (case data of
        Json d \<Rightarrow> (json_merge d m, None)
      | Raw b \<Rightarrow> (case foreign b m of Some m' \<Rightarrow> (m', None) | None \<Rightarrow> (m, Some (Lib ErrJson)))
      | Gob _ \<Rightarrow> (m, Some (Lib ErrJson)))"

text \<open>\<^verbatim>\<open>gob.NewDecoder(buf).Decode(&bi)\<close>, whose error every caller ignores: a value that is not a
  gob of \<^verbatim>\<open>BucketInfo\<close> leaves \<open>bi\<close> as it is.\<close>

definition gob_Decode :: "blob \<Rightarrow> BucketInfo \<Rightarrow> BucketInfo" where
  "gob_Decode data bi = (case data of Gob b \<Rightarrow> b | _ \<Rightarrow> bi)"

lemma fold_mset: "mget (fold (\<lambda>(k, v). mset k v) src dst) k =
  (case map_of (rev src) k of Some v \<Rightarrow> v | None \<Rightarrow> mget dst k)"
  by (induction src arbitrary: dst) (auto simp: map_add_def split: option.splits)

lemma mget_mcopy: "distinct (map fst src) \<Longrightarrow>
  mget (mcopy src dst) k = (case map_of src k of Some v \<Rightarrow> v | None \<Rightarrow> mget dst k)"
proof -
  assume d: "distinct (map fst src)"
  have "map_of (rev src) = map_of src"
    using d by (intro map_of_inject_set [THEN iffD2]) (auto simp: rev_map [symmetric])
  then show ?thesis by (simp add: mcopy_def fold_mset)
qed

section \<open>Metadata to object information\<close>

definition isFSMetaValid :: "string \<Rightarrow> bool" where
  "isFSMetaValid version = (version = ''1.0.2'' \<or> version = ''1.0.0'' \<or> version = ''1.0.1'')"

definition IsValid :: "fsMetaV1 \<Rightarrow> bool" where
  "IsValid m = isFSMetaValid (fm_Version m)"

definition newFSMetaV1 :: fsMetaV1 where
  "newFSMetaV1 = fsMetaV1_0\<lparr>fm_Version := ''1.0.2''\<rparr>"

abbreviation emptyETag :: string where "emptyETag \<equiv> ''d41d8cd98f00b204e9800998ecf8427e''"
abbreviation defaultEtag :: string where "defaultEtag \<equiv> ''00000000000000000000000000000000-1''"

text \<open>
  The library functions the conversions call: \<^verbatim>\<open>mimedb.TypeByExtension\<close> (a table generated at build
  time) and \<^verbatim>\<open>time.Parse(http.TimeFormat, _)\<close>.
\<close>

record meta_env =
  TypeByExtension :: "string \<Rightarrow> string"
  parse_http_time :: "string \<Rightarrow> int option"

text \<open>The statements common to the three conversions: content type guess and directory ETag.\<close>

definition guess_meta :: "meta_env \<Rightarrow> string \<Rightarrow> strmap \<Rightarrow> strmap" where
  "guess_meta env object meta =
     (let meta = (if mget meta ''content-type'' = []
                  then mset ''content-type'' (TypeByExtension env (path_Ext object)) meta else meta)
      in if HasSuffix object SlashSeparator
         then mset ''content-type'' ''application/octet-stream'' (mset ''etag'' emptyETag meta)
         else meta)"

definition expires_of :: "meta_env \<Rightarrow> strmap \<Rightarrow> int" where
  "expires_of env meta =
     (case map_of meta ''expires'' of
        Some exp \<Rightarrow> (case parse_http_time env exp of Some t \<Rightarrow> t | None \<Rightarrow> zeroTime)
      | None \<Rightarrow> zeroTime)"

definition KVInfoToObjectInfo ::
  "meta_env \<Rightarrow> fsMetaV1 \<Rightarrow> string \<Rightarrow> string \<Rightarrow> KVInfo option \<Rightarrow> ObjectInfo" where
  "KVInfoToObjectInfo env m bucket object fi =
     (let meta = guess_meta env object (fm_Meta m);
          objInfo = ObjectInfo0\<lparr>oi_Bucket := bucket, oi_Name := object, oi_ModTime := timeSentinel\<rparr>;
          objInfo = (case fi of
             None \<Rightarrow> objInfo
           | Some ki \<Rightarrow> objInfo\<lparr>oi_ModTime := ki_modTime ki,
                               oi_Size := fst (ParseInt (mget meta ''size'')),
                               oi_Hidden := ki_hidden ki\<rparr>)
      in objInfo\<lparr>oi_ETag := extractETag meta,
                 oi_ContentType := mget meta ''content-type'',
                 oi_ContentEncoding := mget meta ''content-encoding'',
                 oi_StorageClass := ''STANDARD'',
                 oi_Expires := expires_of env meta,
                 oi_UserDefined := cleanMetadata meta,
                 oi_Parts := fm_Parts m\<rparr>)"

definition storage_class_of :: "strmap \<Rightarrow> string" where
  "storage_class_of meta =
     (case map_of meta ''x-amz-storage-class'' of Some sc \<Rightarrow> sc | None \<Rightarrow> ''STANDARD'')"

definition ToObjectKVInfo :: "meta_env \<Rightarrow> fsMetaV1 \<Rightarrow> string \<Rightarrow> string \<Rightarrow> KVInfo \<Rightarrow> ObjectInfo" where
  "ToObjectKVInfo env m bucket object ko =
     (let meta = guess_meta env object (fm_Meta m)
      in ObjectInfo0\<lparr>oi_Bucket := bucket, oi_Name := object, oi_Size := ki_size ko,
           oi_Hidden := ki_hidden ko,
           oi_ETag := extractETag meta,
           oi_ContentType := mget meta ''content-type'',
           oi_ContentEncoding := mget meta ''content-encoding'',
           oi_StorageClass := storage_class_of meta,
           oi_Expires := expires_of env meta,
           oi_UserDefined := cleanMetadata meta,
           oi_Parts := fm_Parts m\<rparr>)"

definition defaultFsJSON :: "meta_env \<Rightarrow> string \<Rightarrow> fsMetaV1" where
  "defaultFsJSON env object =
     newFSMetaV1\<lparr>fm_Meta := [(''etag'', defaultEtag),
                             (''content-type'', TypeByExtension env (path_Ext object))]\<rparr>"

text \<open>ETag, md5Sum, expiry and tags are never part of the user metadata that is returned.\<close>

lemma cleanMetadata_hides:
  "k \<in> {''md5Sum'', ''etag'', ''expires'', ''X-Amz-Tagging''} \<Longrightarrow> k \<notin> fst ` set (cleanMetadata m)"
  by (auto simp: cleanMetadata_def cleanMetadataKeys_def contains_def)

lemma cleanMetadata_sub: "set (cleanMetadata m) \<subseteq> set m"
  using AList.delete_notin_dom
  by (auto simp: cleanMetadata_def cleanMetadataKeys_def removeStandardStorageClass_def
      AList.delete_eq)

end
