(* ===== verification/Kinetic_Drive.thy ===== *)
theory Kinetic_Drive
  imports Kinetic_Meta
begin

text \<open>
  The drive and the client calls on it. The C functions of \<^verbatim>\<open>cmd/C_Operations.h\<close> are implemented in
  kineticd, outside this repository: they are the record \<open>drive_ops\<close>, a parameter of every
  definition that uses them, over a drive state of any type. What the code relies on is the locale
  \<open>kinetic_drive\<close>: the drive is a finite ordered map from keys to a metadata and a value blob.

  The wrappers \<^verbatim>\<open>CGet\<close>, \<^verbatim>\<open>CGetMeta\<close>, \<^verbatim>\<open>CPut\<close>, \<^verbatim>\<open>cDelete\<close>, \<^verbatim>\<open>DoesObjExist\<close> and \<^verbatim>\<open>CGetKeyRange\<close> of
  \<^verbatim>\<open>cmd/client.go\<close> follow, and what they do to the map. Two in-memory drives, one with unlimited
  space and one with a quota, satisfy the laws.
\<close>

section \<open>The C interface\<close>

text \<open>\<^verbatim>\<open>Opts\<close> of \<^verbatim>\<open>cmd/client.go\<close>; the protobuf enumerations are their integer codes.\<close>

record Opts =
  op_ClusterVersion :: int
  op_Timeout :: nat
  op_Priority :: int
  op_BatchID :: nat
  op_NewVersion :: bytes
  op_Force :: bool
  op_DbVersion :: bytes
  op_Tag :: bytes
  op_Algorithm :: int
  op_Synchronization :: int
  op_MetaDataOnly :: bool

text \<open>\<^verbatim>\<open>_CPrimaryStoreValue\<close>, the metadata apart.\<close>

record CPrimaryStoreValue =
  psv_version :: string
  psv_tag :: string
  psv_algorithm :: int

text \<open>A C function sees a Go string up to its first NUL byte.\<close>

definition C_CString :: "string \<Rightarrow> string" where
  "C_CString s = takeWhile (\<lambda>c. c \<noteq> CHR 0x00) s"

lemma C_CString_id [simp]: "CHR 0x00 \<notin> set s \<Longrightarrow> C_CString s = s"
  by (auto simp: C_CString_def takeWhile_eq_all_conv)

record 'd drive_ops =
  C_GetMeta :: "string \<Rightarrow> CPrimaryStoreValue \<Rightarrow> 'd \<Rightarrow> blob option \<times> int"
  C_Get :: "string \<Rightarrow> CPrimaryStoreValue \<Rightarrow> 'd \<Rightarrow> blob option \<times> int"
  C_PartialGet :: "string \<Rightarrow> CPrimaryStoreValue \<Rightarrow> int \<Rightarrow> int \<Rightarrow> 'd \<Rightarrow> blob option \<times> int"
  C_Put :: "string \<Rightarrow> string \<Rightarrow> CPrimaryStoreValue \<Rightarrow> blob \<Rightarrow> blob \<Rightarrow> 'd \<Rightarrow> int \<times> 'd"
  C_Delete :: "string \<Rightarrow> string \<Rightarrow> 'd \<Rightarrow> int \<times> 'd"
  C_GetKeyRange :: "string \<Rightarrow> string \<Rightarrow> bool \<Rightarrow> bool \<Rightarrow> nat \<Rightarrow> bool \<Rightarrow> 'd \<Rightarrow> string"
  C_Flush :: "'d \<Rightarrow> int \<times> 'd"
  net_Delete :: "string \<Rightarrow> Opts \<Rightarrow> 'd \<Rightarrow> error option \<times> 'd"

section \<open>Client calls\<close>

definition psv_of :: "Opts \<Rightarrow> CPrimaryStoreValue" where
  "psv_of acmd = \<lparr>psv_version = C_CString (op_NewVersion acmd), psv_tag = C_CString (op_Tag acmd),
                  psv_algorithm = op_Algorithm acmd\<rparr>"

text \<open>The conversion to a C \<^verbatim>\<open>int\<close> keeps the low 32 bits.\<close>

definition C_int :: "int \<Rightarrow> int" where
  "C_int i = (i + 2 ^ 31) mod 2 ^ 32 - 2 ^ 31"

lemma C_int_id [simp]: "- (2 ^ 31) \<le> i \<Longrightarrow> i < 2 ^ 31 \<Longrightarrow> C_int i = i"
  by (simp add: C_int_def)

definition CGet ::
  "'d drive_ops \<Rightarrow> string \<Rightarrow> int \<Rightarrow> Opts \<Rightarrow> int \<Rightarrow> int \<Rightarrow> 'd \<Rightarrow> blob option \<times> error option" where
  "CGet ops key objSize acmd offset requestSize d =
     (let psv = psv_of acmd;
          cKey = C_CString key;
          requestSize = (if requestSize = -1 \<or> requestSize > objSize then objSize else requestSize);
          (cvalue, status) =
            (if op_MetaDataOnly acmd then C_GetMeta ops cKey psv d
             else if offset = 0 \<and> requestSize = objSize then C_Get ops cKey psv d
             else C_PartialGet ops cKey psv (C_int offset) (C_int requestSize) d);
          err = (if status \<noteq> 0 \<or> cvalue = None then Some (Kinetic errKineticNotFound) else None)
      in (cvalue, err))"

text \<open>The length of the buffer \<^verbatim>\<open>CGet\<close> hands to the C side for a value.\<close>

definition CGet_bufsize :: "int \<Rightarrow> int" where
  "CGet_bufsize objSize =
     (if objSize > 0 then objSize + 1024 else 5 * 1024 * 1024 + 2 * 4096)"

definition CGetMeta ::
  "'d drive_ops \<Rightarrow> string \<Rightarrow> Opts \<Rightarrow> 'd \<Rightarrow> blob option \<times> error option" where
  "CGetMeta ops key acmd d = CGet ops key (-1) (acmd\<lparr>op_MetaDataOnly := True\<rparr>) 0 (-1) d"

definition DoesObjExist :: "'d drive_ops \<Rightarrow> string \<Rightarrow> Opts \<Rightarrow> 'd \<Rightarrow> bool" where
  "DoesObjExist ops key option d =
     (let (cvalue, err) = CGetMeta ops key option d in err = None \<and> cvalue \<noteq> None)"

definition CPut ::
  "'d drive_ops \<Rightarrow> string \<Rightarrow> blob \<Rightarrow> blob \<Rightarrow> Opts \<Rightarrow> 'd \<Rightarrow> error option \<times> 'd" where
  "CPut ops key meta value cmd d =
     (let (status, d') = C_Put ops (C_CString key) ''1'' (psv_of cmd) meta value d
      in (toKineticError status, d'))"

definition cDelete :: "'d drive_ops \<Rightarrow> string \<Rightarrow> Opts \<Rightarrow> 'd \<Rightarrow> error option \<times> 'd" where
  "cDelete ops key cmd d =
     (let (status, d') = C_Delete ops (C_CString key) ''1'' d in (toKineticError status, d'))"

text \<open>\<^verbatim>\<open>Delete\<close> calls the C function when the server was started on the in-process interface
  (\<^verbatim>\<open>SkinnyWaistIF\<close>) and otherwise exchanges a message with the drive.\<close>

definition Client_Delete ::
  "'d drive_ops \<Rightarrow> bool \<Rightarrow> string \<Rightarrow> Opts \<Rightarrow> 'd \<Rightarrow> error option \<times> 'd" where
  "Client_Delete ops skinny key cmd d =
     (if skinny then cDelete ops key cmd d else net_Delete ops key cmd d)"

text \<open>\<^verbatim>\<open>CGetKeyRange\<close>: the C side fills a buffer with keys separated by colons; the Go side splits it
  and drops empty pieces. It has no error to return.\<close>

definition split_keys :: "string \<Rightarrow> string list" where
  "split_keys buf = filter (\<lambda>s. length s > 0) (strings_Split buf CHR '':'')"

definition CGetKeyRange ::
  "'d drive_ops \<Rightarrow> string \<Rightarrow> string \<Rightarrow> bool \<Rightarrow> bool \<Rightarrow> nat \<Rightarrow> Opts \<Rightarrow> 'd \<Rightarrow> string list" where
  "CGetKeyRange ops startKey endKey startKeyInclusive endKeyInclusive maxReturned cmd d =
     split_keys (C_GetKeyRange ops (C_CString startKey) (C_CString endKey)
                   startKeyInclusive endKeyInclusive maxReturned False d)"

definition Client_Flush :: "'d drive_ops \<Rightarrow> 'd \<Rightarrow> error option \<times> 'd" where
  "Client_Flush ops d = (let (status, d') = C_Flush ops d in (toKineticError status, d'))"

section \<open>What the code relies on\<close>

definition in_key_range :: "string \<Rightarrow> string \<Rightarrow> bool \<Rightarrow> bool \<Rightarrow> string \<Rightarrow> bool" where
  "in_key_range s e si ei k =
     ((if si then s \<le> k else s < k) \<and> (if ei then k \<le> e else k < e))"

definition key_range :: "string \<Rightarrow> string \<Rightarrow> bool \<Rightarrow> bool \<Rightarrow> string set \<Rightarrow> string list" where
  "key_range s e si ei K = sorted_list_of_set {k \<in> K. in_key_range s e si ei k}"

definition join_keys :: "string list \<Rightarrow> string" where
  "join_keys ks = concat (map (\<lambda>k. k @ '':'') ks)"

type_synonym kstore = "string \<rightharpoonup> blob \<times> blob"

locale kinetic_drive =
  fixes ops :: "'d drive_ops" and contents :: "'d \<Rightarrow> kstore"
  assumes finite_contents: "finite (dom (contents d))"
    and get_meta_hit: "contents d k = Some (m, v) \<Longrightarrow> C_GetMeta ops k psv d = (Some m, 0)"
    and get_meta_miss: "contents d k = None \<Longrightarrow> C_GetMeta ops k psv d = (c, st) \<Longrightarrow> c = None \<or> st \<noteq> 0"
    and get_hit: "contents d k = Some (m, v) \<Longrightarrow> v \<noteq> Raw [] \<Longrightarrow> C_Get ops k psv d = (Some v, 0)"
    and get_miss: "contents d k = None \<Longrightarrow> C_Get ops k psv d = (c, st) \<Longrightarrow> c = None \<or> st \<noteq> 0"
    and partial_get_hit: "contents d k = Some (m, Raw bs) \<Longrightarrow> 0 \<le> off \<Longrightarrow> 0 < n \<Longrightarrow>
          off + n \<le> int (length bs) \<Longrightarrow>
          C_PartialGet ops k psv off n d = (Some (Raw (take (nat n) (drop (nat off) bs))), 0)"
    and put_done: "C_Put ops k ver psv m v d = (0, d') \<Longrightarrow> contents d' = (contents d)(k \<mapsto> (m, v))"
    and put_failed: "C_Put ops k ver psv m v d = (st, d') \<Longrightarrow> st \<noteq> 0 \<Longrightarrow> contents d' = contents d"
    and delete_done: "C_Delete ops k ver d = (0, d') \<Longrightarrow> contents d' = (contents d)(k := None)"
    and delete_failed: "C_Delete ops k ver d = (st, d') \<Longrightarrow> st \<noteq> 0 \<Longrightarrow> contents d' = contents d"
    and key_range_buffer: "e \<noteq> [] \<Longrightarrow>
       C_GetKeyRange ops s e si ei mx False d =
         join_keys (take mx (key_range s e si ei (dom (contents d))))"

text \<open>A drive with room, on which writing and deleting succeed.\<close>

locale healthy_drive = kinetic_drive +
  assumes put_total: "fst (C_Put ops k ver psv m v d) = 0"
    and delete_total: "fst (C_Delete ops k ver d) = 0"

section \<open>Splitting the key buffer\<close>

lemma Split_join_keys:
  "\<forall>k \<in> set ks. CHR '':'' \<notin> set k \<Longrightarrow> strings_Split (join_keys ks) CHR '':'' = ks @ [[]]"
  by (induction ks) (auto simp: join_keys_def Split_append_sep)

lemma split_keys_join:
  assumes "\<forall>k \<in> set ks. CHR '':'' \<notin> set k \<and> k \<noteq> []"
  shows "split_keys (join_keys ks) = ks"
  using assms by (simp add: split_keys_def Split_join_keys filter_id_conv)

text \<open>A key that contains a colon does not survive.\<close>

lemma split_keys_no_colon: "k \<in> set (split_keys buf) \<Longrightarrow> CHR '':'' \<notin> set k \<and> k \<noteq> []"
  by (auto simp: split_keys_def dest: Split_pieces)

lemma set_key_range: "finite K \<Longrightarrow> set (key_range s e si ei K) = {k \<in> K. in_key_range s e si ei k}"
  by (simp add: key_range_def)

lemma sorted_key_range: "sorted_wrt (<) (key_range s e si ei K)"
  by (simp add: key_range_def)


section \<open>What the client calls do\<close>

context kinetic_drive
begin

lemma CGetMeta_hit: "contents d (C_CString k) = Some (m, v) \<Longrightarrow> CGetMeta ops k acmd d = (Some m, None)"
  by (simp add: CGetMeta_def CGet_def get_meta_hit)

lemma CGetMeta_miss:
  assumes "contents d (C_CString k) = None"
  shows "snd (CGetMeta ops k acmd d) = Some (Kinetic errKineticNotFound)"
  using get_meta_miss [OF assms] by (auto simp: CGetMeta_def CGet_def Let_def split: prod.split)

lemma CGetMeta_err_iff:
  "snd (CGetMeta ops k acmd d) = None \<longleftrightarrow> contents d (C_CString k) \<noteq> None"
proof (cases "contents d (C_CString k)")
  case None
  then show ?thesis using CGetMeta_miss by simp
next
  case (Some e)
  then show ?thesis by (cases e) (simp add: CGetMeta_hit)
qed

lemma DoesObjExist_iff: "DoesObjExist ops k acmd d \<longleftrightarrow> contents d (C_CString k) \<noteq> None"
proof (cases "contents d (C_CString k)")
  case None
  then show ?thesis
    using CGetMeta_miss [of d k acmd] by (auto simp: DoesObjExist_def split: prod.splits)
next
  case (Some e)
  then show ?thesis by (cases e) (simp add: DoesObjExist_def CGetMeta_hit)
qed

text \<open>Reading a whole value: the size is unknown (\<open>-1\<close>) or the one stored.\<close>

lemma CGet_whole:
  assumes "contents d (C_CString k) = Some (m, v)" "v \<noteq> Raw []" "\<not> op_MetaDataOnly acmd"
    "rq = -1 \<or> rq \<ge> sz"
  shows "CGet ops k sz acmd 0 rq d = (Some v, None)"
  using assms by (auto simp: CGet_def get_hit)

lemma CGet_part:
  assumes "contents d (C_CString k) = Some (m, Raw bs)" "\<not> op_MetaDataOnly acmd"
    "0 \<le> off" "0 < rq" "rq \<le> sz" "off \<noteq> 0 \<or> rq \<noteq> sz" "off + rq \<le> int (length bs)"
    "int (length bs) < 2 ^ 31"
  shows "CGet ops k sz acmd off rq d = (Some (Raw (take (nat rq) (drop (nat off) bs))), None)"
proof -
  have "C_int off = off" "C_int rq = rq" using assms(3,4,7,8) by simp_all
  then show ?thesis using assms partial_get_hit [OF assms(1,3,4,7)] by (auto simp: CGet_def)
qed

lemma CGet_miss:
  assumes "contents d (C_CString k) = None" "\<not> op_MetaDataOnly acmd" "rq = -1 \<or> rq \<ge> sz"
  shows "snd (CGet ops k sz acmd 0 rq d) = Some (Kinetic errKineticNotFound)"
  using get_miss [OF assms(1)] assms(2,3) by (auto simp: CGet_def Let_def split: prod.split)

lemma CPut_contents:
  assumes "CPut ops k m v acmd d = (e, d')"
  shows "contents d' = (if e = None then (contents d)(C_CString k \<mapsto> (m, v)) else contents d)"
proof -
  obtain st where st: "C_Put ops (C_CString k) ''1'' (psv_of acmd) m v d = (st, d')" "e = toKineticError st"
    using assms by (auto simp: CPut_def Let_def split: prod.splits)
  show ?thesis
  proof (cases "st = 0")
    case True
    then show ?thesis using st put_done by auto
  next
    case False
    then show ?thesis using st put_failed by auto
  qed
qed

lemma cDelete_contents:
  assumes "cDelete ops k acmd d = (e, d')"
  shows "contents d' = (if e = None then (contents d)(C_CString k := None) else contents d)"
proof -
  obtain st where st: "C_Delete ops (C_CString k) ''1'' d = (st, d')" "e = toKineticError st"
    using assms by (auto simp: cDelete_def Let_def split: prod.splits)
  show ?thesis
  proof (cases "st = 0")
    case True
    then show ?thesis using st delete_done by auto
  next
    case False
    then show ?thesis using st delete_failed by auto
  qed
qed

lemma CGetKeyRange_exact:
  assumes "\<forall>k \<in> dom (contents d). CHR '':'' \<notin> set k \<and> k \<noteq> []" "C_CString e \<noteq> []"
  shows "CGetKeyRange ops s e si ei mx acmd d =
           take mx (key_range (C_CString s) (C_CString e) si ei (dom (contents d)))"
proof -
  let ?ks = "take mx (key_range (C_CString s) (C_CString e) si ei (dom (contents d)))"
  have "set ?ks \<subseteq> dom (contents d)"
    using set_take_subset set_key_range [OF finite_contents] by fastforce
  then show ?thesis
    using assms by (auto simp: CGetKeyRange_def key_range_buffer intro!: split_keys_join)
qed

end

context healthy_drive
begin

lemma CPut_total: "\<exists>d'. CPut ops k m v acmd d = (None, d') \<and> contents d' = (contents d)(C_CString k \<mapsto> (m, v))"
proof -
  obtain st d' where p: "C_Put ops (C_CString k) ''1'' (psv_of acmd) m v d = (st, d')"
    by (cases "C_Put ops (C_CString k) ''1'' (psv_of acmd) m v d")
  then have "st = 0" using put_total by (metis fst_conv)
  with p put_done show ?thesis by (auto simp: CPut_def)
qed

lemma cDelete_total: "\<exists>d'. cDelete ops k acmd d = (None, d') \<and> contents d' = (contents d)(C_CString k := None)"
proof -
  obtain st d' where p: "C_Delete ops (C_CString k) ''1'' d = (st, d')"
    by (cases "C_Delete ops (C_CString k) ''1'' d")
  then have "st = 0" using delete_total by (metis fst_conv)
  with p delete_done show ?thesis by (auto simp: cDelete_def)
qed

end

text \<open>A key with a colon in it is never among the keys a range request returns, whatever the drive answers:
  the keys are cut out of a colon-separated buffer.\<close>

theorem colon_keys_unlisted:
  assumes "CHR '':'' \<in> set k"
  shows "k \<notin> set (CGetKeyRange ops s e si ei mx acmd d)"
  using assms split_keys_no_colon by (auto simp: CGetKeyRange_def)

end
