(* ===== verification/Kinetic_Pool.thy ===== *)
theory Kinetic_Pool
  imports Kinetic_Drive
begin

text \<open>
  The pool of drive connections of \<^verbatim>\<open>cmd/kinetic.go\<close>: \<^verbatim>\<open>KConnsPool\<close>, \<^verbatim>\<open>GetKineticConnection\<close> and
  \<^verbatim>\<open>ReleaseConnection\<close>. The two functions run under the pool's mutex, so each is one atomic step;
  the call of \<^verbatim>\<open>cond.Wait\<close> in the former is the result \<open>None\<close>, and the panic of the latter too.

  The second half runs any number of goroutines against the pool as a transition system: a
  goroutine acquires, waits, or releases (which wakes every waiter). The lemmas show that the
  counter is the number of busy connections, that no two goroutines hold the same connection, that
  the panic is unreachable, and that nobody waits while a connection is free.
\<close>

abbreviation maxQueue :: nat where "maxQueue \<equiv> 100"

text \<open>The fields of \<^verbatim>\<open>Client\<close> that outlive a call: which slot it is, and the state of the reader that
  \<^verbatim>\<open>GetObjectNInfo\<close> makes of it.\<close>

record Client =
  cl_Idx :: nat
  cl_Key :: bytes
  cl_NextPartNumber :: int
  cl_LastPartNumber :: int
  cl_DataOffset :: int

record KConnsPool =
  kp_kcs :: "Client list"
  kp_inUsed :: "bool list"
  kp_totalInUsed :: int
  kp_totalInUsedMax :: int

definition Client0 :: "nat \<Rightarrow> Client" where
  "Client0 i = \<lparr>cl_Idx = i, cl_Key = [], cl_NextPartNumber = 0, cl_LastPartNumber = 0,
                cl_DataOffset = 0\<rparr>"

text \<open>The pool that \<^verbatim>\<open>NewKineticObjectLayer\<close> builds.\<close>

definition new_pool :: KConnsPool where
  "new_pool = \<lparr>kp_kcs = map Client0 [0..<maxQueue], kp_inUsed = replicate maxQueue False,
               kp_totalInUsed = 0, kp_totalInUsedMax = 0\<rparr>"

definition first_free :: "bool list \<Rightarrow> nat option" where
  "first_free used = find (\<lambda>i. \<not> (i < length used \<and> used ! i)) [0..<maxQueue]"

text \<open>One round of the loop of \<^verbatim>\<open>GetKineticConnection\<close>; \<open>None\<close> is \<^verbatim>\<open>kConnsPool.cond.Wait()\<close>.\<close>

definition GetKineticConnection :: "KConnsPool \<Rightarrow> (nat \<times> KConnsPool) option" where
  "GetKineticConnection p =
     (if kp_totalInUsed p < int maxQueue then
        (case first_free (kp_inUsed p) of
           None \<Rightarrow> None
         | Some i \<Rightarrow>
             let total = kp_totalInUsed p + 1 in
             Some (i, p\<lparr>kp_kcs := (kp_kcs p)[i := (kp_kcs p ! i)\<lparr>cl_Idx := i\<rparr>],
                        kp_inUsed := (kp_inUsed p)[i := True],
                        kp_totalInUsed := total,
                        kp_totalInUsedMax := max (kp_totalInUsedMax p) total\<rparr>))
      else None)"

text \<open>\<open>None\<close> is the panic on a negative counter.\<close>

definition ReleaseConnection :: "nat \<Rightarrow> KConnsPool \<Rightarrow> KConnsPool option" where
  "ReleaseConnection ix p =
     (if ix < length (kp_inUsed p) \<and> kp_inUsed p ! ix then
        (let total = kp_totalInUsed p - 1 in
         if total < 0 then None
         else Some (p\<lparr>kp_inUsed := (kp_inUsed p)[ix := False], kp_totalInUsed := total\<rparr>))
      else Some p)"

section \<open>The invariant of the pool\<close>

definition busy :: "KConnsPool \<Rightarrow> nat" where
  "busy p = length (filter id (kp_inUsed p))"

definition pool_inv :: "KConnsPool \<Rightarrow> bool" where
  "pool_inv p = (length (kp_inUsed p) = maxQueue \<and> length (kp_kcs p) = maxQueue \<and>
                 kp_totalInUsed p = int (busy p))"

lemma new_pool_inv: "pool_inv new_pool"
  by (simp add: pool_inv_def new_pool_def busy_def)

lemma busy_update_True:
  "i < length us \<Longrightarrow> \<not> us ! i \<Longrightarrow> length (filter id (us[i := True])) = Suc (length (filter id us))"
  by (induction us arbitrary: i) (auto split: nat.splits)

lemma busy_update_False:
  "i < length us \<Longrightarrow> us ! i \<Longrightarrow> Suc (length (filter id (us[i := False]))) = length (filter id us)"
  by (induction us arbitrary: i) (auto split: nat.splits)

lemma busy_pos: "i < length us \<Longrightarrow> us ! i \<Longrightarrow> 0 < length (filter id us)"
  using busy_update_False by fastforce

lemma busy_full: "length (filter id us) = length us \<longleftrightarrow> (\<forall>i < length us. us ! i)"
proof -
  have "length (filter id us) = length us \<longleftrightarrow> (\<forall>u \<in> set us. u)"
  proof (cases "\<forall>u \<in> set us. u")
    case True
    then have "filter id us = us" by (simp add: filter_id_conv)
    with True show ?thesis by simp
  next
    case False
    then show ?thesis using length_filter_less [of _ us id] by fastforce
  qed
  then show ?thesis by (simp add: all_set_conv_all_nth)
qed

lemma first_free_Some:
  "first_free us = Some i \<Longrightarrow> length us = maxQueue \<Longrightarrow> i < maxQueue \<and> \<not> us ! i"
  by (auto simp: first_free_def find_Some_iff)

lemma first_free_None: "first_free us = None \<Longrightarrow> length us = maxQueue \<Longrightarrow> \<forall>i < maxQueue. us ! i"
  by (auto simp: first_free_def find_None_iff)

lemma GetKineticConnection_None_iff:
  assumes "pool_inv p"
  shows "GetKineticConnection p = None \<longleftrightarrow> busy p = maxQueue"
proof -
  have len: "length (kp_inUsed p) = maxQueue" and tot: "kp_totalInUsed p = int (busy p)"
    using assms by (auto simp: pool_inv_def)
  have "busy p \<le> maxQueue" using len by (metis busy_def length_filter_le)
  moreover have "first_free (kp_inUsed p) = None \<longleftrightarrow> busy p = maxQueue"
  proof (cases "first_free (kp_inUsed p)")
    case None
    then show ?thesis using busy_full [of "kp_inUsed p"] len first_free_None by (auto simp: busy_def)
  next
    case (Some i)
    then have "i < maxQueue" "\<not> kp_inUsed p ! i" using first_free_Some len by blast+
    then show ?thesis using Some busy_full [of "kp_inUsed p"] len by (auto simp: busy_def)
  qed
  ultimately show ?thesis
    using tot by (auto simp: GetKineticConnection_def Let_def split: option.splits)
qed

lemma GetKineticConnection_Some:
  assumes "pool_inv p" "GetKineticConnection p = Some (i, p')"
  shows "pool_inv p'" "i < maxQueue" "\<not> kp_inUsed p ! i" "kp_inUsed p' = (kp_inUsed p)[i := True]"
    "busy p' = Suc (busy p)"
proof -
  have len: "length (kp_inUsed p) = maxQueue" "length (kp_kcs p) = maxQueue"
    and tot: "kp_totalInUsed p = int (busy p)"
    using assms by (auto simp: pool_inv_def)
  from assms(2) have ff: "first_free (kp_inUsed p) = Some i"
    and p': "kp_inUsed p' = (kp_inUsed p)[i := True]" "kp_totalInUsed p' = kp_totalInUsed p + 1"
      "length (kp_kcs p') = length (kp_kcs p)"
    by (auto simp: GetKineticConnection_def Let_def split: option.splits if_splits)
  show free: "i < maxQueue" "\<not> kp_inUsed p ! i" using first_free_Some [OF ff len(1)] by auto
  show "kp_inUsed p' = (kp_inUsed p)[i := True]" by (rule p'(1))
  show "busy p' = Suc (busy p)" using free len by (simp add: busy_def p'(1) busy_update_True)
  then show "pool_inv p'" using len tot p' by (simp add: pool_inv_def)
qed

lemma ReleaseConnection_inv:
  assumes "pool_inv p"
  shows "\<exists>p'. ReleaseConnection ix p = Some p' \<and> pool_inv p' \<and>
           kp_inUsed p' = (if ix < maxQueue then (kp_inUsed p)[ix := False] else kp_inUsed p)"
proof (cases "ix < length (kp_inUsed p) \<and> kp_inUsed p ! ix")
  case True
  then have "0 < busy p" using busy_pos [of ix "kp_inUsed p"] by (simp add: busy_def)
  then show ?thesis
    using assms True busy_update_False [of ix "kp_inUsed p"]
    by (auto simp: ReleaseConnection_def pool_inv_def busy_def)
next
  case False
  then have "ix < length (kp_inUsed p) \<Longrightarrow> (kp_inUsed p)[ix := False] = kp_inUsed p"
    by (simp add: list_update_same_conv)
  then show ?thesis
    using assms False by (auto simp: ReleaseConnection_def pool_inv_def)
qed

text \<open>Taking a connection and giving it back leaves the slots and the counter as they were.\<close>

lemma Get_Release:
  assumes "pool_inv p" "GetKineticConnection p = Some (i, p')"
  shows "\<exists>p''. ReleaseConnection i p' = Some p'' \<and> pool_inv p'' \<and>
           kp_inUsed p'' = kp_inUsed p \<and> kp_totalInUsed p'' = kp_totalInUsed p"
proof -
  note g = GetKineticConnection_Some [OF assms]
  obtain p'' where r: "ReleaseConnection i p' = Some p''" "pool_inv p''"
    "kp_inUsed p'' = (kp_inUsed p')[i := False]"
    using ReleaseConnection_inv [OF g(1), of i] g(2) by auto
  have "kp_inUsed p'' = kp_inUsed p"
    using r(3) g(3,4) by (metis list_update_id list_update_overwrite)
  then show ?thesis using r assms(1) by (auto simp: pool_inv_def busy_def)
qed

section \<open>Goroutines on the pool\<close>

record pool_sys =
  ps_pool :: KConnsPool
  ps_hold :: "(nat \<times> nat) list"
  ps_waiting :: "nat set"

inductive pool_step :: "pool_sys \<Rightarrow> pool_sys \<Rightarrow> bool" where
  acquire: "t \<notin> fst ` set (ps_hold s) \<Longrightarrow> t \<notin> ps_waiting s \<Longrightarrow>
    GetKineticConnection (ps_pool s) = Some (i, p') \<Longrightarrow>
    pool_step s (s\<lparr>ps_pool := p', ps_hold := (t, i) # ps_hold s\<rparr>)"
| wait: "t \<notin> fst ` set (ps_hold s) \<Longrightarrow> GetKineticConnection (ps_pool s) = None \<Longrightarrow>
    pool_step s (s\<lparr>ps_waiting := insert t (ps_waiting s)\<rparr>)"
| release: "(t, i) \<in> set (ps_hold s) \<Longrightarrow> ReleaseConnection i (ps_pool s) = Some p' \<Longrightarrow>
    pool_step s (s\<lparr>ps_pool := p', ps_hold := remove1 (t, i) (ps_hold s), ps_waiting := {}\<rparr>)"

definition pool_start :: pool_sys where
  "pool_start = \<lparr>ps_pool = new_pool, ps_hold = [], ps_waiting = {}\<rparr>"

definition sys_inv :: "pool_sys \<Rightarrow> bool" where
  "sys_inv s = (pool_inv (ps_pool s) \<and> distinct (map fst (ps_hold s)) \<and>
     distinct (map snd (ps_hold s)) \<and>
     snd ` set (ps_hold s) = {i. i < maxQueue \<and> kp_inUsed (ps_pool s) ! i} \<and>
     (ps_waiting s \<noteq> {} \<longrightarrow> busy (ps_pool s) = maxQueue))"

lemma sys_inv_start: "sys_inv pool_start"
  by (auto simp: sys_inv_def pool_start_def new_pool_inv) (simp add: new_pool_def)

lemma busy_card: "length us = n \<Longrightarrow> card {i. i < n \<and> us ! i} = length (filter id us)"
  by (simp add: length_filter_conv_card)

lemma hold_busy:
  assumes "sys_inv s"
  shows "length (ps_hold s) = busy (ps_pool s)"
proof -
  have "length (ps_hold s) = card (snd ` set (ps_hold s))"
    using assms by (metis sys_inv_def distinct_card length_map set_map)
  also have "\<dots> = busy (ps_pool s)"
    using assms busy_card [of "kp_inUsed (ps_pool s)" maxQueue]
    by (simp add: sys_inv_def pool_inv_def busy_def)
  finally show ?thesis .
qed

lemma distinct_map_remove1: "distinct (map f xs) \<Longrightarrow> distinct (map f (remove1 x xs))"
  by (induction xs) (auto dest: set_remove1_subset [THEN subsetD])

lemma image_remove1:
  "distinct (map f xs) \<Longrightarrow> x \<in> set xs \<Longrightarrow> f ` set (remove1 x xs) = f ` set xs - {f x}"
proof (induction xs)
  case (Cons a xs)
  then show ?case by (cases "a = x") auto
qed simp

lemma sys_inv_step:
  assumes "pool_step s s'" "sys_inv s"
  shows "sys_inv s'"
  using assms
proof cases
  case (acquire t i p')
  have pi: "pool_inv (ps_pool s)" using assms(2) by (simp add: sys_inv_def)
  note g = GetKineticConnection_Some [OF pi acquire(4)]
  have len: "length (kp_inUsed (ps_pool s)) = maxQueue" using pi by (simp add: pool_inv_def)
  have "ps_waiting s = {}"
    using assms(2) acquire(4) GetKineticConnection_None_iff [OF pi] by (auto simp: sys_inv_def)
  moreover have "{j. j < maxQueue \<and> kp_inUsed p' ! j}
                   = insert i {j. j < maxQueue \<and> kp_inUsed (ps_pool s) ! j}"
    using g(2,4) len by (auto simp: nth_list_update split: if_splits)
  moreover have "i \<notin> snd ` set (ps_hold s)" using assms(2) g(3) by (auto simp: sys_inv_def)
  ultimately show ?thesis
    using assms(2) acquire g(1) by (auto simp: sys_inv_def)
next
  case (wait t)
  then show ?thesis
    using assms(2) GetKineticConnection_None_iff by (auto simp: sys_inv_def)
next
  case (release t i p')
  have inv: "pool_inv (ps_pool s)" "distinct (map fst (ps_hold s))" "distinct (map snd (ps_hold s))"
    "snd ` set (ps_hold s) = {i. i < maxQueue \<and> kp_inUsed (ps_pool s) ! i}"
    using assms(2) by (auto simp: sys_inv_def)
  have i: "i < maxQueue" using inv(4) release(2) by force
  have r: "pool_inv p'" "kp_inUsed p' = (kp_inUsed (ps_pool s))[i := False]"
    using ReleaseConnection_inv [OF inv(1), of i] release(3) i by auto
  have "snd ` set (remove1 (t, i) (ps_hold s)) = snd ` set (ps_hold s) - {i}"
    using image_remove1 [OF inv(3) release(2)] by simp
  also have "\<dots> = {j. j < maxQueue \<and> kp_inUsed p' ! j}"
  proof -
    have "kp_inUsed p' ! j \<longleftrightarrow> j \<noteq> i \<and> kp_inUsed (ps_pool s) ! j" if "j < maxQueue" for j
      using that inv(1) r(2) by (cases "i = j") (simp_all add: pool_inv_def)
    then show ?thesis unfolding inv(4) by blast
  qed
  finally have "snd ` set (remove1 (t, i) (ps_hold s)) = {j. j < maxQueue \<and> kp_inUsed p' ! j}" .
  then show ?thesis
    unfolding sys_inv_def release(1) using r(1) distinct_map_remove1 [OF inv(2)] distinct_map_remove1 [OF inv(3)]
    by simp
qed

lemma reachable_sys_inv: "pool_step\<^sup>*\<^sup>* pool_start s \<Longrightarrow> sys_inv s"
  by (induction rule: rtranclp_induct) (auto intro: sys_inv_start sys_inv_step)

text \<open>C9. However goroutines take and return connections, no two of them ever hold the same connection, the
  pool's counter is the number of connections held and never exceeds its size, and a goroutine waits only
  while every connection is in use.\<close>

theorem pool_connections_exclusive:
  assumes "pool_step\<^sup>*\<^sup>* pool_start s"
  shows "distinct (map snd (ps_hold s)) \<and> kp_totalInUsed (ps_pool s) = int (length (ps_hold s)) \<and>
    length (ps_hold s) \<le> maxQueue \<and> (ps_waiting s \<noteq> {} \<longrightarrow> length (ps_hold s) = maxQueue)"
proof -
  have inv: "sys_inv s" by (rule reachable_sys_inv [OF assms])
  then have "busy (ps_pool s) \<le> maxQueue"
    by (metis busy_def length_filter_le pool_inv_def sys_inv_def)
  then show ?thesis using inv hold_busy [OF inv] by (simp add: sys_inv_def pool_inv_def)
qed

theorem pool_connections_exclusive_witness:
  "\<exists>s. ps_hold s = [(8, 1), (7, 0)] \<and> pool_step\<^sup>*\<^sup>* pool_start s \<and> kp_totalInUsed (ps_pool s) = 2"
proof -
  have "first_free (replicate maxQueue False) = Some 0"
    "first_free ((replicate maxQueue False)[0 := True]) = Some 1"
    by (simp_all add: first_free_def upt_rec)
  then obtain p1 p2 where p: "GetKineticConnection new_pool = Some (0, p1)" "GetKineticConnection p1 = Some (1, p2)"
    by (simp add: GetKineticConnection_def new_pool_def Let_def)
  let ?s1 = "pool_start\<lparr>ps_pool := p1, ps_hold := [(7, 0)]\<rparr>"
  let ?s2 = "?s1\<lparr>ps_pool := p2, ps_hold := [(8, 1), (7, 0)]\<rparr>"
  have "pool_step pool_start ?s1"
    using pool_step.acquire [of 7 pool_start 0 p1] p(1) by (simp add: pool_start_def)
  moreover have "pool_step ?s1 ?s2"
    using pool_step.acquire [of 8 ?s1 1 p2] p(2) by (simp add: pool_start_def)
  ultimately have r: "pool_step\<^sup>*\<^sup>* pool_start ?s2" by (meson converse_rtranclp_into_rtranclp rtranclp.rtrancl_refl)
  then show ?thesis using pool_connections_exclusive [OF r] by (intro exI [of _ ?s2]) simp
qed

end
