(* ===== verification/Namespace_Lock.thy ===== *)
theory Namespace_Lock
  imports Object_Names
begin

text \<open>
  The in-process namespace locks of \<^verbatim>\<open>cmd/namespace-lock.go\<close>: a map from resource names to a
  reference-counted read/write mutex, and lock instances over one or more paths of a volume. The
  mutex \<^verbatim>\<open>LRWMutex\<close> of the package lsync is outside this repository: it is the record \<open>lrw_ops\<close>, with
  the behaviour the code relies on as the locale \<open>lrw_mutex\<close>. An attempt to lock returns whether the
  lock was obtained within the timeout.

  The lemmas show that the reference count is the number of lock holders, that an entry exists
  exactly while it is referenced, that a failed or finished lock leaves no trace, and that a lock
  instance over several paths is all or nothing.
\<close>

record 'm lrw_ops =
  NewLRWMutex :: 'm
  lrw_GetLock :: "'m \<Rightarrow> bool \<times> 'm"
  lrw_GetRLock :: "'m \<Rightarrow> bool \<times> 'm"
  lrw_Unlock :: "'m \<Rightarrow> 'm"
  lrw_RUnlock :: "'m \<Rightarrow> 'm"

record 'm nsLock =
  nl_mutex :: 'm
  nl_ref :: nat

type_synonym 'm lock_map = "(string \<times> 'm nsLock) list"

section \<open>The lock map\<close>

text \<open>The entry a locker refers to: a new one, or the existing one with its count raised.\<close>

definition nsLock_entry :: "'m lrw_ops \<Rightarrow> 'm lock_map \<Rightarrow> string \<Rightarrow> 'm nsLock" where
  "nsLock_entry L m resource =
     (case map_of m resource of
        None \<Rightarrow> \<lparr>nl_mutex = NewLRWMutex L, nl_ref = 1\<rparr>
      | Some nsLk \<Rightarrow> nsLk\<lparr>nl_ref := nl_ref nsLk + 1\<rparr>)"

definition nsLockMap_lock ::
  "'m lrw_ops \<Rightarrow> 'm lock_map \<Rightarrow> string \<Rightarrow> string \<Rightarrow> bool \<Rightarrow> bool \<times> 'm lock_map" where
  "nsLockMap_lock L m volume path readLock =
     (let resource = pathJoin [volume, path];
          nsLk = nsLock_entry L m resource;
          (locked, mutex) = (if readLock then lrw_GetRLock L (nl_mutex nsLk)
                             else lrw_GetLock L (nl_mutex nsLk));
          nsLk = nsLk\<lparr>nl_mutex := mutex\<rparr>
      in if locked then (True, AList.update resource nsLk m)
         else let ref = nl_ref nsLk - 1
              in (False, if ref = 0 then AList.delete resource m
                         else AList.update resource (nsLk\<lparr>nl_ref := ref\<rparr>) m))"

definition nsLockMap_unlock ::
  "'m lrw_ops \<Rightarrow> 'm lock_map \<Rightarrow> string \<Rightarrow> string \<Rightarrow> bool \<Rightarrow> 'm lock_map" where
  "nsLockMap_unlock L m volume path readLock =
     (let resource = pathJoin [volume, path]
      in case map_of m resource of
           None \<Rightarrow> m
         | Some nsLk \<Rightarrow>
             (let mutex = (if readLock then lrw_RUnlock L (nl_mutex nsLk)
                           else lrw_Unlock L (nl_mutex nsLk));
                  nsLk = nsLk\<lparr>nl_mutex := mutex\<rparr>
              in if nl_ref nsLk = 0 then AList.update resource nsLk m
                 else let ref = nl_ref nsLk - 1
                      in if ref = 0 then AList.delete resource m
                         else AList.update resource (nsLk\<lparr>nl_ref := ref\<rparr>) m))"

section \<open>Lock instances\<close>

record localLockInstance =
  li_volume :: string
  li_paths :: "string list"

definition NewNSLock :: "string \<Rightarrow> string list \<Rightarrow> localLockInstance" where
  "NewNSLock volume paths = \<lparr>li_volume = volume, li_paths = sort paths\<rparr>"

text \<open>The loop of \<^verbatim>\<open>GetLock\<close> and \<^verbatim>\<open>GetRLock\<close>; \<open>done\<close> are the paths locked so far, which are unlocked
  again when one fails.\<close>

fun lock_paths ::
  "'m lrw_ops \<Rightarrow> string \<Rightarrow> bool \<Rightarrow> string list \<Rightarrow> string list \<Rightarrow> 'm lock_map \<Rightarrow> error option \<times> 'm lock_map" where
  "lock_paths L volume readLock success [] m = (None, m)"
| "lock_paths L volume readLock success (path # paths) m =
     (case nsLockMap_lock L m volume path readLock of
        (True, m') \<Rightarrow> lock_paths L volume readLock (success @ [path]) paths m'
      | (False, m') \<Rightarrow>
          (Some (Request OperationTimedOut),
           fold (\<lambda>p m. nsLockMap_unlock L m volume p readLock) success m'))"

definition li_GetLock :: "'m lrw_ops \<Rightarrow> localLockInstance \<Rightarrow> 'm lock_map \<Rightarrow> error option \<times> 'm lock_map" where
  "li_GetLock L li m = lock_paths L (li_volume li) False [] (li_paths li) m"

definition li_GetRLock :: "'m lrw_ops \<Rightarrow> localLockInstance \<Rightarrow> 'm lock_map \<Rightarrow> error option \<times> 'm lock_map" where
  "li_GetRLock L li m = lock_paths L (li_volume li) True [] (li_paths li) m"

definition li_Unlock :: "'m lrw_ops \<Rightarrow> localLockInstance \<Rightarrow> 'm lock_map \<Rightarrow> 'm lock_map" where
  "li_Unlock L li m = fold (\<lambda>p m. nsLockMap_unlock L m (li_volume li) p False) (li_paths li) m"

definition li_RUnlock :: "'m lrw_ops \<Rightarrow> localLockInstance \<Rightarrow> 'm lock_map \<Rightarrow> 'm lock_map" where
  "li_RUnlock L li m = fold (\<lambda>p m. nsLockMap_unlock L m (li_volume li) p True) (li_paths li) m"

text \<open>Every entry is referenced by its holders, who exclude each other, and by nobody else; the readers and
  the writer of a resource. Both are stated over the observations of the mutex.\<close>

definition ns_entry_ok :: "('m \<Rightarrow> nat) \<Rightarrow> ('m \<Rightarrow> bool) \<Rightarrow> 'm nsLock \<Rightarrow> bool" where
  "ns_entry_ok readers writer e =
     (0 < nl_ref e \<and> nl_ref e = readers (nl_mutex e) + (if writer (nl_mutex e) then 1 else 0) \<and>
      (writer (nl_mutex e) \<longrightarrow> readers (nl_mutex e) = 0))"

definition ns_map_ok :: "('m \<Rightarrow> nat) \<Rightarrow> ('m \<Rightarrow> bool) \<Rightarrow> 'm lock_map \<Rightarrow> bool" where
  "ns_map_ok readers writer m = (\<forall>r e. map_of m r = Some e \<longrightarrow> ns_entry_ok readers writer e)"

definition ns_state :: "('m \<Rightarrow> nat) \<Rightarrow> ('m \<Rightarrow> bool) \<Rightarrow> 'm lock_map \<Rightarrow> string \<Rightarrow> nat \<times> bool" where
  "ns_state readers writer m r =
     (case map_of m r of None \<Rightarrow> (0, False) | Some e \<Rightarrow> (readers (nl_mutex e), writer (nl_mutex e)))"

text \<open>A state \<open>s\<close> that differs from \<open>s0\<close> by holding the resources \<open>rs\<close> in one mode.\<close>

definition holding :: "bool \<Rightarrow> string list \<Rightarrow> (string \<Rightarrow> nat \<times> bool) \<Rightarrow> (string \<Rightarrow> nat \<times> bool) \<Rightarrow> bool" where
  "holding rd rs s0 s =
     ((\<forall>r. s r = (if r \<in> set rs then (if rd then (fst (s0 r) + count_list rs r, False) else (0, True)) else s0 r)) \<and>
      (\<forall>r \<in> set rs. if rd then \<not> snd (s0 r) else s0 r = (0, False)) \<and> (\<not> rd \<longrightarrow> distinct rs))"

section \<open>The mutex\<close>

text \<open>A read/write mutex: the number of readers and whether there is a writer.\<close>

locale lrw_mutex =
  fixes L :: "'m lrw_ops" and readers :: "'m \<Rightarrow> nat" and writer :: "'m \<Rightarrow> bool"
  assumes new_free: "readers (NewLRWMutex L) = 0" "\<not> writer (NewLRWMutex L)"
    and lock_iff: "fst (lrw_GetLock L m) \<longleftrightarrow> readers m = 0 \<and> \<not> writer m"
    and lock_state: "fst (lrw_GetLock L m) \<Longrightarrow>
          readers (snd (lrw_GetLock L m)) = 0 \<and> writer (snd (lrw_GetLock L m))"
    and lock_failed: "\<not> fst (lrw_GetLock L m) \<Longrightarrow>
          readers (snd (lrw_GetLock L m)) = readers m \<and> writer (snd (lrw_GetLock L m)) = writer m"
    and rlock_iff: "fst (lrw_GetRLock L m) \<longleftrightarrow> \<not> writer m"
    and rlock_state: "fst (lrw_GetRLock L m) \<Longrightarrow>
          readers (snd (lrw_GetRLock L m)) = Suc (readers m) \<and> \<not> writer (snd (lrw_GetRLock L m))"
    and rlock_failed: "\<not> fst (lrw_GetRLock L m) \<Longrightarrow>
          readers (snd (lrw_GetRLock L m)) = readers m \<and> writer (snd (lrw_GetRLock L m)) = writer m"
    and unlock_state: "writer m \<Longrightarrow> readers m = 0 \<Longrightarrow>
          readers (lrw_Unlock L m) = 0 \<and> \<not> writer (lrw_Unlock L m)"
    and runlock_state: "0 < readers m \<Longrightarrow> \<not> writer m \<Longrightarrow>
          readers (lrw_RUnlock L m) = readers m - 1 \<and> \<not> writer (lrw_RUnlock L m)"
begin

abbreviation entry_ok :: "'m nsLock \<Rightarrow> bool" where
  "entry_ok \<equiv> ns_entry_ok readers writer"

abbreviation map_ok :: "'m lock_map \<Rightarrow> bool" where
  "map_ok \<equiv> ns_map_ok readers writer"

abbreviation state_of :: "'m lock_map \<Rightarrow> string \<Rightarrow> nat \<times> bool" where
  "state_of \<equiv> ns_state readers writer"

lemma map_ok_Nil: "map_ok []"
  by (simp add: ns_map_ok_def)

lemma map_ok_update: "map_ok m \<Longrightarrow> entry_ok e \<Longrightarrow> map_ok (AList.update r e m)"
  by (auto simp: ns_map_ok_def update_conv')

lemma map_ok_delete: "map_ok m \<Longrightarrow> map_ok (AList.delete r m)"
  by (auto simp: ns_map_ok_def delete_conv' split: if_splits)

lemma state_of_update:
  "state_of (AList.update r e m) = (state_of m)(r := (readers (nl_mutex e), writer (nl_mutex e)))"
  by (auto simp: ns_state_def fun_eq_iff update_conv')

lemma state_of_delete: "state_of (AList.delete r m) = (state_of m)(r := (0, False))"
  by (auto simp: ns_state_def fun_eq_iff delete_conv')

lemma lock_spec:
  assumes "map_ok m" "nsLockMap_lock L m vol p rd = (ok, m')" and r: "r = pathJoin [vol, p]"
  shows "map_ok m'"
    "ok \<longleftrightarrow> (if rd then \<not> snd (state_of m r) else state_of m r = (0, False))"
    "state_of m' = (if ok then (state_of m)(r := if rd then (Suc (fst (state_of m r)), False) else (0, True))
                    else state_of m)"
proof -
  define e where "e = nsLock_entry L m r"
  have st: "state_of m r = (readers (nl_mutex e), writer (nl_mutex e))"
    using new_free by (simp add: ns_state_def e_def nsLock_entry_def split: option.split)
  have ok_e: "nl_ref e = Suc (readers (nl_mutex e) + (if writer (nl_mutex e) then 1 else 0))"
    "writer (nl_mutex e) \<Longrightarrow> readers (nl_mutex e) = 0"
    using new_free assms(1) by (auto simp: e_def nsLock_entry_def ns_map_ok_def ns_entry_ok_def split: option.split)
  have some: "map_of m r = Some e' \<Longrightarrow> nl_mutex e' = nl_mutex e \<and> entry_ok e'" for e'
    using assms(1) by (auto simp: e_def nsLock_entry_def ns_map_ok_def)
  obtain l mu where lm: "(if rd then lrw_GetRLock L (nl_mutex e) else lrw_GetLock L (nl_mutex e)) = (l, mu)"
    by fastforce
  have res: "(ok, m') = (if l then (True, AList.update r (e\<lparr>nl_mutex := mu\<rparr>) m)
       else (False, if nl_ref e - 1 = 0 then AList.delete r m
                    else AList.update r (e\<lparr>nl_mutex := mu, nl_ref := nl_ref e - 1\<rparr>) m))"
    using assms(2) lm unfolding nsLockMap_lock_def r [symmetric] e_def
    by (auto simp: Let_def split: if_splits)
  have l: "l = (if rd then \<not> writer (nl_mutex e) else readers (nl_mutex e) = 0 \<and> \<not> writer (nl_mutex e))"
    using lm lock_iff [of "nl_mutex e"] rlock_iff [of "nl_mutex e"] by (auto split: if_splits)
  have mu: "if l then (readers mu, writer mu) = (if rd then (Suc (readers (nl_mutex e)), False) else (0, True))
            else readers mu = readers (nl_mutex e) \<and> writer mu = writer (nl_mutex e)"
    using lm lock_state [of "nl_mutex e"] lock_failed [of "nl_mutex e"]
      rlock_state [of "nl_mutex e"] rlock_failed [of "nl_mutex e"] by (auto split: if_splits)
  show "ok \<longleftrightarrow> (if rd then \<not> snd (state_of m r) else state_of m r = (0, False))"
    using res l st by (auto split: if_splits)
  show "map_ok m'"
    using res l mu ok_e
    by (auto simp: ns_entry_ok_def split: if_splits intro!: map_ok_update map_ok_delete assms(1))
  show "state_of m' = (if ok then (state_of m)(r := if rd then (Suc (fst (state_of m r)), False) else (0, True))
                    else state_of m)"
    using res mu st l ok_e
    by (auto simp: state_of_update state_of_delete fun_upd_idem split: if_splits)
qed

text \<open>Unlocking a resource that is locked in that mode.\<close>

lemma unlock_spec:
  assumes "map_ok m" and r: "r = pathJoin [vol, p]"
    and held: "if rd then 0 < fst (state_of m r) else snd (state_of m r)"
  shows "map_ok (nsLockMap_unlock L m vol p rd)"
    "state_of (nsLockMap_unlock L m vol p rd) =
       (state_of m)(r := if rd then (fst (state_of m r) - 1, False) else (0, False))"
proof -
  obtain e where e: "map_of m r = Some e" using held by (auto simp: ns_state_def split: option.splits if_splits)
  have ok: "entry_ok e" using assms(1) e by (simp add: ns_map_ok_def)
  have st: "state_of m r = (readers (nl_mutex e), writer (nl_mutex e))" by (simp add: ns_state_def e)
  define mu where "mu = (if rd then lrw_RUnlock L (nl_mutex e) else lrw_Unlock L (nl_mutex e))"
  have mu: "(readers mu, writer mu) = (if rd then (readers (nl_mutex e) - 1, False) else (0, False))"
    using held st ok unlock_state [of "nl_mutex e"] runlock_state [of "nl_mutex e"]
    by (auto simp: mu_def ns_entry_ok_def split: if_splits)
  have u: "nsLockMap_unlock L m vol p rd =
      (if nl_ref e - 1 = 0 then AList.delete r m
       else AList.update r (e\<lparr>nl_mutex := mu, nl_ref := nl_ref e - 1\<rparr>) m)"
    using ok e unfolding nsLockMap_unlock_def r [symmetric] by (auto simp: mu_def ns_entry_ok_def Let_def)
  show "map_ok (nsLockMap_unlock L m vol p rd)"
    unfolding u using ok mu held st
    by (auto simp: ns_entry_ok_def split: if_splits intro!: map_ok_update map_ok_delete assms(1))
  show "state_of (nsLockMap_unlock L m vol p rd) =
       (state_of m)(r := if rd then (fst (state_of m r) - 1, False) else (0, False))"
    unfolding u st using ok mu held st
    by (auto simp: state_of_update state_of_delete ns_entry_ok_def split: if_splits)
qed

text \<open>On a resource nobody refers to, a lock succeeds and its unlock removes every trace of it.\<close>

lemma lock_fresh:
  assumes "map_of m (pathJoin [vol, p]) = None"
  shows "\<exists>m'. nsLockMap_lock L m vol p rd = (True, m') \<and> nsLockMap_unlock L m' vol p rd = m"
proof -
  let ?r = "pathJoin [vol, p]"
  let ?g = "if rd then lrw_GetRLock L (NewLRWMutex L) else lrw_GetLock L (NewLRWMutex L)"
  have "fst ?g" using lock_iff rlock_iff new_free by simp
  then obtain mu where g: "?g = (True, mu)" by (cases ?g) auto
  have "nsLockMap_lock L m vol p rd = (True, AList.update ?r \<lparr>nl_mutex = mu, nl_ref = 1\<rparr> m)"
    using g assms by (auto simp: nsLockMap_lock_def nsLock_entry_def Let_def split: if_splits)
  moreover have "AList.delete ?r (AList.update ?r e m) = m" for e
    using assms by (induction m) (auto split: if_splits)
  ultimately show ?thesis
    by (simp add: nsLockMap_unlock_def update_conv' Let_def)
qed

text \<open>Several paths: what \<^verbatim>\<open>lock_paths\<close> has locked so far is released again when a path fails.\<close>

lemma lock_holding:
  assumes "map_ok m" "holding rd rs s0 (state_of m)" "nsLockMap_lock L m vol p rd = (True, m')"
  shows "holding rd (rs @ [pathJoin [vol, p]]) s0 (state_of m')"
  using assms(2) lock_spec(2,3) [OF assms(1,3) refl]
  by (auto simp: holding_def split: if_splits)

lemma unlock_holding:
  assumes "map_ok m" "holding rd (pathJoin [vol, p] # rs) s0 (state_of m)"
  shows "map_ok (nsLockMap_unlock L m vol p rd)" "holding rd rs s0 (state_of (nsLockMap_unlock L m vol p rd))"
proof -
  let ?r = "pathJoin [vol, p]"
  have st: "state_of m ?r = (if rd then (Suc (fst (s0 ?r) + count_list rs ?r), False) else (0, True))"
    using assms(2) by (simp add: holding_def)
  then have held: "if rd then 0 < fst (state_of m ?r) else snd (state_of m ?r)" by simp
  show "map_ok (nsLockMap_unlock L m vol p rd)" by (rule unlock_spec(1) [OF assms(1) refl held])
  have "s0 ?r = (fst (s0 ?r), False)" if rd
    using assms(2) that by (cases "s0 ?r") (simp add: holding_def)
  then show "holding rd rs s0 (state_of (nsLockMap_unlock L m vol p rd))"
    unfolding unlock_spec(2) [OF assms(1) refl held] using assms(2) st
    by (auto simp: holding_def count_list_0_iff split: if_splits)
qed

lemma unlock_all:
  assumes "map_ok m" "holding rd (map (\<lambda>p. pathJoin [vol, p]) ps) s0 (state_of m)"
  shows "state_of (fold (\<lambda>p m. nsLockMap_unlock L m vol p rd) ps m) = s0"
  using assms
proof (induction ps arbitrary: m)
  case Nil
  then show ?case by (simp add: holding_def fun_eq_iff)
next
  case (Cons p ps)
  then show ?case using unlock_holding [of m rd vol p "map (\<lambda>p. pathJoin [vol, p]) ps" s0] by simp
qed

lemma lock_paths_spec:
  assumes "map_ok m" "holding rd (map (\<lambda>p. pathJoin [vol, p]) success) s0 (state_of m)"
    "lock_paths L vol rd success ps m = (e, m')"
  shows "(e = None \<longrightarrow> map_ok m' \<and> holding rd (map (\<lambda>p. pathJoin [vol, p]) (success @ ps)) s0 (state_of m')) \<and>
         (e \<noteq> None \<longrightarrow> state_of m' = s0)"
  using assms
proof (induction ps arbitrary: success m)
  case (Cons p ps)
  obtain ok m1 where l: "nsLockMap_lock L m vol p rd = (ok, m1)" by fastforce
  show ?case
  proof (cases ok)
    case True
    then show ?thesis
      using Cons.IH [OF lock_spec(1) [OF Cons.prems(1) l refl], of "success @ [p]"] l Cons.prems
        lock_holding [OF Cons.prems(1,2)] by simp
  next
    case False
    have "state_of m1 = state_of m" using lock_spec(3) [OF Cons.prems(1) l refl] False by simp
    then have "state_of (fold (\<lambda>p m. nsLockMap_unlock L m vol p rd) success m1) = s0"
      using unlock_all [OF lock_spec(1) [OF Cons.prems(1) l refl]] Cons.prems(2) by simp
    then show ?thesis using Cons.prems(3) l False by auto
  qed
qed simp

end

section \<open>A mutex in memory\<close>

text \<open>The reader count and the writer flag themselves, the concrete mutex of the witnesses.\<close>

definition mem_lrw :: "(nat \<times> bool) lrw_ops" where
  "mem_lrw =
     \<lparr>NewLRWMutex = (0, False),
      lrw_GetLock = (\<lambda>(n, w). if n = 0 \<and> \<not> w then (True, (0, True)) else (False, (n, w))),
      lrw_GetRLock = (\<lambda>(n, w). if \<not> w then (True, (Suc n, False)) else (False, (n, w))),
      lrw_Unlock = (\<lambda>(n, w). (n, False)),
      lrw_RUnlock = (\<lambda>(n, w). (n - 1, w))\<rparr>"

interpretation mem_lrw: lrw_mutex mem_lrw fst snd
  by unfold_locales (auto simp: mem_lrw_def split: if_splits)

text \<open>C19. A write lock over several paths of a bucket is all or nothing: if one of the paths cannot be locked
  within the timeout, every resource is left as it was before; if all are locked, each of them is held by
  this writer alone, and unlocking the instance restores every resource.\<close>

theorem multi_path_lock_all_or_nothing:
  assumes "lrw_mutex L readers writer" "ns_map_ok readers writer m" "li_GetLock L (NewNSLock vol paths) m = (e, m')"
  shows "if e \<noteq> None then ns_state readers writer m' = ns_state readers writer m
         else (\<forall>p \<in> set paths. ns_state readers writer m (pathJoin [vol, p]) = (0, False) \<and>
                 ns_state readers writer m' (pathJoin [vol, p]) = (0, True)) \<and>
              ns_state readers writer (li_Unlock L (NewNSLock vol paths) m') = ns_state readers writer m"
proof -
  let ?rs = "map (\<lambda>p. pathJoin [vol, p]) (sort paths)"
  have h0: "holding False [] (ns_state readers writer m) (ns_state readers writer m)" by (simp add: holding_def)
  have sp: "(e = None \<longrightarrow> ns_map_ok readers writer m' \<and>
        holding False ?rs (ns_state readers writer m) (ns_state readers writer m')) \<and>
      (e \<noteq> None \<longrightarrow> ns_state readers writer m' = ns_state readers writer m)"
    using lrw_mutex.lock_paths_spec [OF assms(1,2), of False vol "[]" _ "sort paths" e m'] h0 assms(3)
    by (simp add: li_GetLock_def NewNSLock_def)
  show ?thesis
  proof (cases e)
    case None
    then have h: "ns_map_ok readers writer m'" "holding False ?rs (ns_state readers writer m) (ns_state readers writer m')"
      using sp by simp_all
    have "ns_state readers writer (li_Unlock L (NewNSLock vol paths) m') = ns_state readers writer m"
      using lrw_mutex.unlock_all [OF assms(1) h] by (simp add: li_Unlock_def NewNSLock_def)
    then show ?thesis using None h(2) by (simp add: holding_def)
  qed (use sp in simp)
qed

theorem multi_path_lock_all_or_nothing_witness:
  "\<exists>m'. li_GetLock mem_lrw (NewNSLock ''b'' [''y'', ''x'']) [] = (None, m') \<and>
     ns_state fst snd m' (pathJoin [''b'', ''x'']) = (0, True) \<and>
     ns_state fst snd (li_Unlock mem_lrw (NewNSLock ''b'' [''y'', ''x'']) m') = (\<lambda>r. (0, False))"
proof -
  have ne: "pathJoin [''b'', ''x''] \<noteq> pathJoin [''b'', ''y'']" by code_simp
  obtain m' where m': "li_GetLock mem_lrw (NewNSLock ''b'' [''y'', ''x'']) [] = (None, m')"
    using ne by (simp add: li_GetLock_def NewNSLock_def nsLockMap_lock_def nsLock_entry_def mem_lrw_def Let_def)
  have "ns_map_ok fst snd []" "ns_state fst snd [] = (\<lambda>r. (0, False))"
    by (simp_all add: ns_map_ok_def ns_state_def fun_eq_iff)
  with multi_path_lock_all_or_nothing [OF mem_lrw.lrw_mutex_axioms _ m'] m' show ?thesis by auto
qed

end
