(* ===== verification/Fs_IOPool.thy ===== *)
theory Fs_IOPool
  imports Object_Names "HOL-Library.AList"
begin

text \<open>
  The pool of read-locked files of \<^verbatim>\<open>cmd/fs-v1-rwpool.go\<close> and \<^verbatim>\<open>pkg/lock/lock.go\<close>, as far as
  \<^verbatim>\<open>GetObjectNInfo\<close> uses it: \<^verbatim>\<open>Open\<close> and \<^verbatim>\<open>Close\<close> with the reference counts of \<^verbatim>\<open>RLockedFile\<close>, and
  \<^verbatim>\<open>checkPathLength\<close> of \<^verbatim>\<open>cmd/posix.go\<close>, on Linux. What the operating system answers to opening a file
  is the parameter \<open>os_open\<close>. Both calls are atomic here: the two critical sections of \<^verbatim>\<open>Open\<close> see the
  same map, because nothing runs between them.

  The lemmas show that opening and closing a path leaves the pool as it was, and that a clean path
  passes \<^verbatim>\<open>checkPathLength\<close> exactly if none of its segments has more than 255 bytes.
\<close>

datatype os_err = ENotExist | EPermission | EIsDir | ENotDir | EOther string

section \<open>The length of path segments\<close>

definition path_Dir :: "string \<Rightarrow> string" where
  "path_Dir p = path_Clean (case strings_LastIndex p CHR ''/'' of None \<Rightarrow> [] | Some i \<Rightarrow> take (Suc i) p)"

definition path_Base :: "string \<Rightarrow> string" where
  "path_Base p =
     (if p = [] then ''.''
      else let p = rev (dropWhile (\<lambda>c. c = CHR ''/'') (rev p));
               p = (case strings_LastIndex p CHR ''/'' of None \<Rightarrow> p | Some i \<Rightarrow> drop (Suc i) p)
           in if p = [] then SlashSeparator else p)"

definition weight :: "string list \<Rightarrow> nat" where
  "weight cs = (\<Sum>c \<leftarrow> cs. Suc (length c))"

lemma weight_simps [simp]: "weight [] = 0" "weight (c # cs) = Suc (length c) + weight cs"
  "weight (xs @ ys) = weight xs + weight ys" "weight (rev xs) = weight xs"
  by (simp_all add: weight_def rev_map [symmetric])

lemma weight_Join: "cs \<noteq> [] \<Longrightarrow> Suc (length (strings_Join cs c)) = weight cs"
  by (induction cs c rule: strings_Join.induct) auto

lemma weight_clean_step: "weight (clean_step r st cs) + length (filter (\<lambda>c. c = []) cs) \<le> weight st + weight cs"
proof (induction r st cs rule: clean_step.induct)
  case (2 r st c cs)
  then show ?case by (cases st) auto
qed simp

lemma length_path_Clean:
  assumes "p \<noteq> []"
  shows "length (path_Clean p) \<le> length p"
    "last p = CHR ''/'' \<Longrightarrow> p \<noteq> ''/'' \<Longrightarrow> length (path_Clean p) < length p"
proof -
  let ?sp = "strings_Split p CHR ''/''" and ?rooted = "hd p = CHR ''/''"
  let ?out = "clean_step ?rooted [] ?sp"
  define J where "J = length (strings_Join ?out CHR ''/'')"
  define F where "F = length (filter (\<lambda>c. c = []) ?sp)"
  have "weight ?sp = Suc (length p)"
    using weight_Join [of ?sp "CHR ''/''"] by (simp add: Join_Split Split_not_Nil)
  then have c: "weight ?out + F \<le> Suc (length p)"
    using weight_clean_step [of ?rooted "[]" ?sp] by (simp add: F_def)
  have j: "J = 0 \<or> Suc J = weight ?out"
    using weight_Join [of ?out "CHR ''/''"] by (cases "?out = []") (auto simp: J_def)
  have out: "length (path_Clean p) = (if ?rooted then Suc J else if J = 0 then 1 else J)"
    using assms by (auto simp: path_Clean_def J_def Let_def)
  have F1: "1 \<le> F" if ?rooted
    using that assms by (cases p) (auto simp: F_def)
  have len: "1 \<le> length p" using assms by (cases p) auto
  show "length (path_Clean p) \<le> length p"
    using c j out F1 len by (cases ?rooted) auto
  assume l: "last p = CHR ''/''" and ne: "p \<noteq> ''/''"
  then obtain q where q: "p = q @ ''/''" "q \<noteq> []"
    using assms by (cases p rule: rev_cases) auto
  then have sp: "?sp = strings_Split q CHR ''/'' @ [[]]" by (simp add: Split_snoc)
  have "2 \<le> length p" using q by (cases q) auto
  moreover have "2 \<le> F" if ?rooted
    using that q by (cases q) (auto simp: F_def Split_snoc)
  moreover have "1 \<le> F" by (simp add: F_def sp)
  ultimately show "length (path_Clean p) < length p"
    using c j out by (cases ?rooted) auto
qed

lemma LastIndex_bound: "strings_LastIndex p c = Some i \<Longrightarrow> i < length p \<and> p ! i = c"
  by (induction p arbitrary: i) (auto split: option.splits if_splits)

definition path_size :: "string \<Rightarrow> nat" where
  "path_size p = (if p = ''.'' then 0 else length p)"

lemma path_Dir_shorter:
  assumes "p \<noteq> []" "p \<noteq> ''.''" "p \<noteq> ''/''"
  shows "path_size (path_Dir p) < path_size p"
proof (cases "strings_LastIndex p CHR ''/''")
  case None
  then show ?thesis using assms by (simp add: path_Dir_def path_Clean_def path_size_def)
next
  case (Some i)
  let ?q = "take (Suc i) p"
  have i: "i < length p" "p ! i = CHR ''/''" using LastIndex_bound [OF Some] by auto
  then have q: "?q \<noteq> []" "last ?q = CHR ''/''" "length ?q \<le> length p"
    by (auto simp: take_Suc_conv_app_nth)
  have "length (path_Clean ?q) < length p"
  proof (cases "?q = ''/''")
    case True
    then have "2 \<le> length p"
      using assms(3) i by (metis Suc_1 Suc_leI append_take_drop_id drop_eq_Nil2 linorder_not_le not_less_eq_eq
          One_nat_def append.right_neutral length_Cons length_take list.size(3) min.absorb2 nle_le)
    then show ?thesis using True by (simp add: path_Clean_def)
  next
    case False
    then show ?thesis using length_path_Clean(2) [OF q(1,2)] q(3) by simp
  qed
  then show ?thesis using Some assms(2) by (auto simp: path_Dir_def path_size_def)
qed

function checkPathLength :: "string \<Rightarrow> error option" where
  "checkPathLength pathName =
     (if length pathName > 0 \<and> pathName \<noteq> ''.'' \<and> pathName \<noteq> SlashSeparator then
        (if length (path_Base pathName) > 255 then Some (Storage errFileNameTooLong)
         else checkPathLength (path_Dir pathName))
      else None)"
  by pat_completeness auto

termination
  by (relation "measure path_size") (auto simp: path_Dir_shorter)

declare checkPathLength.simps [simp del]

text \<open>On a path that cleaning leaves alone the loop visits the segments from the last to the first.\<close>

lemma LastIndex_none: "c \<notin> set t \<Longrightarrow> strings_LastIndex t c = None"
  by (induction t) auto

lemma LastIndex_append: "c \<notin> set t \<Longrightarrow> strings_LastIndex (s @ c # t) c = Some (length s)"
  by (induction s) (auto simp: LastIndex_none)

lemma path_last_segment:
  assumes "plain_component c"
  shows "path_Base c = c" "path_Dir c = ''.''" "path_Base (s @ CHR ''/'' # c) = c"
    "path_Dir (s @ CHR ''/'' # c) = path_Clean (s @ ''/'')"
proof -
  have c: "c \<noteq> []" "CHR ''/'' \<notin> set c" using assms by (auto simp: plain_component_def)
  then have d: "dropWhile (\<lambda>x. x = CHR ''/'') (rev c @ t) = rev c @ t" for t
    by (cases "rev c") auto
  show "path_Base c = c" "path_Dir c = ''.''" "path_Base (s @ CHR ''/'' # c) = c"
    "path_Dir (s @ CHR ''/'' # c) = path_Clean (s @ ''/'')"
    using c d [of "[]"] d [of "CHR ''/'' # rev s"]
    by (simp_all add: path_Base_def path_Dir_def LastIndex_append LastIndex_none path_Clean_def)
qed

lemma path_Clean_trailing:
  assumes "cs \<noteq> []" "\<forall>c \<in> set cs. plain_component c"
  shows "path_Clean (strings_Join cs CHR ''/'' @ ''/'') = strings_Join cs CHR ''/''"
proof -
  have ne: "strings_Join cs CHR ''/'' \<noteq> []" "hd (strings_Join cs CHR ''/'') = hd (hd cs)"
    using assms hd_Join [of cs "CHR ''/''"] by (auto simp: plain_component_def)
  have "hd (hd cs) \<noteq> CHR ''/''"
    using assms by (metis hd_in_set list.set_sel(1) plain_component_def)
  then show ?thesis
    using assms ne
    by (simp add: path_Clean_def Split_snoc Split_Join clean_step_trailing plain_component_def)
qed

lemma checkPathLength_plain:
  assumes "\<forall>c \<in> set cs. plain_component c" "cs \<noteq> []"
  shows "checkPathLength (strings_Join cs CHR ''/'') =
           (if \<exists>c \<in> set cs. length c > 255 then Some (Storage errFileNameTooLong) else None)"
  using assms
proof (induction cs rule: rev_induct)
  case (snoc c cs)
  have c: "plain_component c" using snoc.prems by simp
  have dot: "checkPathLength ''.'' = None" by (simp add: checkPathLength.simps)
  show ?case
  proof (cases "cs = []")
    case True
    have "c \<noteq> []" "c \<noteq> ''.''" "c \<noteq> ''/''" using c by (auto simp: plain_component_def)
    with True show ?thesis
      by (simp add: checkPathLength.simps [of c] path_last_segment [OF c] dot)
  next
    case False
    let ?s = "strings_Join cs CHR ''/''"
    have j: "strings_Join (cs @ [c]) CHR ''/'' = ?s @ CHR ''/'' # c"
      using False by (simp add: Join_append)
    have s: "?s \<noteq> []" using False snoc.prems hd_Join [of cs "CHR ''/''"] by (auto simp: plain_component_def)
    have "path_Dir (?s @ CHR ''/'' # c) = ?s"
      using path_last_segment(4) [OF c] path_Clean_trailing [OF False] snoc.prems by simp
    with s False snoc show ?thesis
      by (auto simp: j checkPathLength.simps [of "?s @ CHR ''/'' # c"] path_last_segment [OF c]
          append_eq_Cons_conv)
  qed
qed simp

section \<open>The pool\<close>

text \<open>\<^verbatim>\<open>readersMap\<close>, with the reference count of each \<^verbatim>\<open>RLockedFile\<close>.\<close>

type_synonym readersMap = "(string \<times> nat) list"

definition lookupToRead :: "string \<Rightarrow> readersMap \<Rightarrow> bool \<times> readersMap" where
  "lookupToRead path m =
     (case map_of m path of
        None \<Rightarrow> (False, m)
      | Some refs \<Rightarrow> if refs = 0 then (False, AList.delete path m)
                     else (True, AList.update path (refs + 1) m))"

definition RLockedFile_Close :: "nat \<Rightarrow> nat" where
  "RLockedFile_Close refs = (if refs = 0 then 0 else refs - 1)"

definition open_error :: "os_err \<Rightarrow> error" where
  "open_error e = (case e of
      ENotExist \<Rightarrow> Storage errFileNotFound
    | EPermission \<Rightarrow> Storage errFileAccessDenied
    | EIsDir \<Rightarrow> Storage errIsNotRegular
    | ENotDir \<Rightarrow> Storage errFileAccessDenied
    | EOther s \<Rightarrow> Lib (ErrOther s))"

definition fsIOPool_Open ::
  "(string \<Rightarrow> os_err option) \<Rightarrow> string \<Rightarrow> readersMap \<Rightarrow> error option \<times> readersMap" where
  "fsIOPool_Open os_open path m =
     (case checkPathLength path of
        Some e \<Rightarrow> (Some e, m)
      | None \<Rightarrow>
          (let (ok, m) = lookupToRead path m in
           if ok then (None, m)
           else (case os_open path of
               Some err \<Rightarrow> (Some (open_error err), m)
             | None \<Rightarrow>
                 (let (ok, m) = lookupToRead path m in
                  (None, if ok then m else AList.update path 1 m)))))"

definition fsIOPool_Close :: "string \<Rightarrow> readersMap \<Rightarrow> error option \<times> readersMap" where
  "fsIOPool_Close path m =
     (case checkPathLength path of
        Some e \<Rightarrow> (Some e, m)
      | None \<Rightarrow>
          (case map_of m path of
             None \<Rightarrow> (None, m)
           | Some refs \<Rightarrow>
               (let refs = RLockedFile_Close refs in
                (None, if refs = 0 then AList.delete path m else AList.update path refs m))))"

lemma update_delete_absent: "map_of m k = None \<Longrightarrow> AList.delete k (AList.update k v m) = m"
  by (induction m) (auto simp: AList.delete_eq split: if_splits)

lemma update_present: "map_of m k = Some v \<Longrightarrow> AList.update k v m = m"
  by (induction m) auto

text \<open>Opening and closing a path is neutral, whether the file is there or not: closing a path that could
  not be opened finds no entry.\<close>

lemma Open_Close:
  assumes "map_of m path \<noteq> Some 0" "fsIOPool_Open os_open path m = (err, m')"
    "err = None \<or> (err = Some (Storage errFileNotFound) \<and> map_of m path = None)"
  shows "snd (fsIOPool_Close path m') = m"
proof (cases "map_of m path")
  case None
  with assms show ?thesis
    by (auto simp: fsIOPool_Open_def fsIOPool_Close_def lookupToRead_def RLockedFile_Close_def
        update_conv' update_delete_absent split: option.splits)
next
  case (Some refs)
  with assms show ?thesis
    by (auto simp: fsIOPool_Open_def fsIOPool_Close_def lookupToRead_def RLockedFile_Close_def
        update_conv' update_present split: option.splits)
qed


section \<open>The walk to the root\<close>

abbreviation walk_end :: "string \<Rightarrow> bool" where
  "walk_end p \<equiv> p = [] \<or> p = ''.'' \<or> p = SlashSeparator"

lemma walk_ends:
  "\<exists>n \<le> path_size p. walk_end ((path_Dir ^^ n) p) \<and> (\<forall>i < n. \<not> walk_end ((path_Dir ^^ i) p)) \<and>
     checkPathLength p =
       (if \<exists>i < n. 255 < length (path_Base ((path_Dir ^^ i) p)) then Some (Storage errFileNameTooLong) else None)"
proof (induction "path_size p" arbitrary: p rule: less_induct)
  case less
  show ?case
  proof (cases "walk_end p")
    case True
    then have "checkPathLength p = None" by (subst checkPathLength.simps) auto
    then show ?thesis using True by (intro exI [of _ 0]) simp
  next
    case False
    let ?q = "path_Dir p"
    have s: "path_size ?q < path_size p" using False by (intro path_Dir_shorter) auto
    from less [OF this] obtain n where n: "n \<le> path_size ?q" "walk_end ((path_Dir ^^ n) ?q)"
      "\<forall>i < n. \<not> walk_end ((path_Dir ^^ i) ?q)"
      "checkPathLength ?q =
         (if \<exists>i < n. 255 < length (path_Base ((path_Dir ^^ i) ?q)) then Some (Storage errFileNameTooLong) else None)"
      by blast
    have step: "(path_Dir ^^ Suc i) p = (path_Dir ^^ i) ?q" for i by (simp add: funpow_swap1)
    have all: "(\<forall>i < Suc n. P ((path_Dir ^^ i) p)) \<longleftrightarrow> P p \<and> (\<forall>i < n. P ((path_Dir ^^ i) ?q))" for P
      unfolding All_less_Suc2 step by simp
    have ex: "(\<exists>i < Suc n. P ((path_Dir ^^ i) p)) \<longleftrightarrow> P p \<or> (\<exists>i < n. P ((path_Dir ^^ i) ?q))" for P
      unfolding Ex_less_Suc2 step by simp
    have "checkPathLength p =
        (if length (path_Base p) > 255 then Some (Storage errFileNameTooLong) else checkPathLength ?q)"
      using False by (subst checkPathLength.simps) auto
    then have "checkPathLength p =
        (if \<exists>i < Suc n. 255 < length (path_Base ((path_Dir ^^ i) p)) then Some (Storage errFileNameTooLong) else None)"
      unfolding n(4) ex [of "\<lambda>q. 255 < length (path_Base q)"] by simp
    moreover have "\<forall>i < Suc n. \<not> walk_end ((path_Dir ^^ i) p)"
      using False n(3) unfolding all [of "\<lambda>q. \<not> walk_end q"] by blast
    moreover have "walk_end ((path_Dir ^^ Suc n) p)" unfolding step by (rule n(2))
    moreover have "Suc n \<le> path_size p" using n(1) s by linarith
    ultimately show ?thesis by blast
  qed
qed

text \<open>C32. The loop of \<^verbatim>\<open>checkPathLength\<close> ends for every path, clean or not: it goes from a path to its parent, and
  reaches one of the paths it stops at after at most as many steps as the path has bytes. Its answer is
  whether one of the paths on the way has a last segment of more than 255 bytes.\<close>

theorem path_length_walk_ends:
  "\<exists>n \<le> length p. walk_end ((path_Dir ^^ n) p) \<and> (\<forall>i < n. \<not> walk_end ((path_Dir ^^ i) p)) \<and>
     checkPathLength p =
       (if \<exists>i < n. 255 < length (path_Base ((path_Dir ^^ i) p)) then Some (Storage errFileNameTooLong) else None)"
proof -
  have longer: "\<exists>n \<le> b. Q n" if "\<exists>n \<le> a. Q n" "a \<le> b" for a b :: nat and Q using that by (meson le_trans)
  have "path_size p \<le> length p" by (simp add: path_size_def)
  then show ?thesis by (rule longer [OF walk_ends])
qed

theorem path_length_walk_ends_witness:
  "\<exists>n \<le> length ''/a//b/../c/''. walk_end ((path_Dir ^^ n) ''/a//b/../c/'') \<and>
     (\<forall>i < n. \<not> walk_end ((path_Dir ^^ i) ''/a//b/../c/'')) \<and>
     checkPathLength ''/a//b/../c/'' =
       (if \<exists>i < n. 255 < length (path_Base ((path_Dir ^^ i) ''/a//b/../c/'')) then Some (Storage errFileNameTooLong)
        else None)"
  by (rule path_length_walk_ends)

end
