(* ===== verification/Kinetic_World.thy ===== *)
theory Kinetic_World
  imports Kinetic_Pool Namespace_Lock Fs_IOPool "HOL-Library.State_Monad"
begin

text \<open>
  The state the Kinetic object layer works on, and its basic steps. An operation of the layer runs
  in one goroutine; it is a value of the state monad over \<open>world\<close>: the drive, the global
  \<^verbatim>\<open>kineticMutex\<close>, the connection pool, the namespace locks, the files open in \<^verbatim>\<open>rwPool\<close>, the counter of active operations, and how
  many readings of the clock, identifiers and random values have been taken.

  \<open>w_blocked\<close> records that the goroutine would never go on: locking the mutex while it is held,
  waiting for a connection when there is none, or a fatal error of the run-time. \<open>env\<close> collects
  the parameters: the drive, the mutex library, the clock, and library functions; \<open>e_cap n\<close> is the
  capacity the run-time gives a slice made of a string of \<open>n\<close> bytes, \<open>e_uninit n\<close> what a buffer of \<open>n\<close>
  bytes holds when it has been allocated, \<open>e_enc\<close> the bytes of an encoded value, \<open>e_open\<close> what the
  operating system answers to opening a file.
\<close>

record ('d, 'm) env =
  e_ops :: "'d drive_ops"
  e_lrw :: "'m lrw_ops"
  e_meta :: meta_env
  e_now :: "nat \<Rightarrow> int"
  e_uuid :: "nat \<Rightarrow> string"
  e_rand :: "nat \<Rightarrow> bytes"
  e_md5 :: "bytes \<Rightarrow> bytes"
  e_sha256 :: "bytes \<Rightarrow> bytes"
  e_json :: "bytes \<Rightarrow> fsMetaV1 \<Rightarrow> fsMetaV1 option"
  e_enc :: "blob \<Rightarrow> bytes"
  e_valid_bucket :: "string \<Rightarrow> bool"
  e_valid_bucket_strict :: "string \<Rightarrow> bool"
  e_regexp :: "string \<Rightarrow> string \<Rightarrow> bool option"
  e_cap :: "nat \<Rightarrow> nat"
  e_uninit :: "nat \<Rightarrow> bytes"
  e_open :: "string \<Rightarrow> os_err option"

record ('d, 'm) world =
  w_drive :: 'd
  w_skinny :: bool
  w_kineticMutex :: bool
  w_pool :: KConnsPool
  w_ns :: "'m lock_map"
  w_readers :: readersMap
  w_activeIO :: int
  w_tick :: nat
  w_blocked :: bool

type_synonym ('d, 'm, 'a) go = "(('d, 'm) world, 'a) state"

section \<open>Basic steps\<close>

definition gets :: "('s \<Rightarrow> 'a) \<Rightarrow> ('s, 'a) state" where
  "gets f = State (\<lambda>s. (f s, s))"

definition modify :: "('s \<Rightarrow> 's) \<Rightarrow> ('s, unit) state" where
  "modify f = State (\<lambda>s. ((), f s))"

definition kineticMutex_Lock :: "('d, 'm, unit) go" where
  "kineticMutex_Lock = modify (\<lambda>w. if w_kineticMutex w then w\<lparr>w_blocked := True\<rparr>
                                   else w\<lparr>w_kineticMutex := True\<rparr>)"

definition kineticMutex_Unlock :: "('d, 'm, unit) go" where
  "kineticMutex_Unlock = modify (\<lambda>w. if w_kineticMutex w then w\<lparr>w_kineticMutex := False\<rparr>
                                     else w\<lparr>w_blocked := True\<rparr>)"

definition getConn :: "('d, 'm, nat) go" where
  "getConn = State (\<lambda>w. case GetKineticConnection (w_pool w) of
                          Some (i, p) \<Rightarrow> (i, w\<lparr>w_pool := p\<rparr>)
                        | None \<Rightarrow> (0, w\<lparr>w_blocked := True\<rparr>))"

definition releaseConn :: "nat \<Rightarrow> ('d, 'm, unit) go" where
  "releaseConn i = modify (\<lambda>w. case ReleaseConnection i (w_pool w) of
                                 Some p \<Rightarrow> w\<lparr>w_pool := p\<rparr>
                               | None \<Rightarrow> w\<lparr>w_blocked := True\<rparr>)"

definition activeIO :: "int \<Rightarrow> ('d, 'm, unit) go" where
  "activeIO n = modify (\<lambda>w. w\<lparr>w_activeIO := w_activeIO w + n\<rparr>)"

definition drive_read :: "('d \<Rightarrow> 'a) \<Rightarrow> ('d, 'm, 'a) go" where
  "drive_read f = gets (\<lambda>w. f (w_drive w))"

definition drive_write :: "('d \<Rightarrow> 'a \<times> 'd) \<Rightarrow> ('d, 'm, 'a) go" where
  "drive_write f = State (\<lambda>w. let (a, d) = f (w_drive w) in (a, w\<lparr>w_drive := d\<rparr>))"

text \<open>The drive calls with the connection's arguments filled in.\<close>

definition kc_CGetMeta :: "('d, 'm) env \<Rightarrow> string \<Rightarrow> Opts \<Rightarrow> ('d, 'm, blob option \<times> error option) go" where
  "kc_CGetMeta E key opts = drive_read (CGetMeta (e_ops E) key opts)"

definition kc_CGet ::
  "('d, 'm) env \<Rightarrow> string \<Rightarrow> int \<Rightarrow> Opts \<Rightarrow> int \<Rightarrow> int \<Rightarrow> ('d, 'm, blob option \<times> error option) go" where
  "kc_CGet E key objSize opts offset requestSize =
     drive_read (CGet (e_ops E) key objSize opts offset requestSize)"

definition kc_CPut :: "('d, 'm) env \<Rightarrow> string \<Rightarrow> blob \<Rightarrow> blob \<Rightarrow> Opts \<Rightarrow> ('d, 'm, error option) go" where
  "kc_CPut E key meta value opts = drive_write (CPut (e_ops E) key meta value opts)"

definition kc_Delete :: "('d, 'm) env \<Rightarrow> string \<Rightarrow> Opts \<Rightarrow> ('d, 'm, error option) go" where
  "kc_Delete E key opts =
     do { sk \<leftarrow> gets w_skinny; drive_write (Client_Delete (e_ops E) sk key opts) }"

definition kc_CGetKeyRange ::
  "('d, 'm) env \<Rightarrow> string \<Rightarrow> string \<Rightarrow> bool \<Rightarrow> bool \<Rightarrow> nat \<Rightarrow> Opts \<Rightarrow> ('d, 'm, string list) go" where
  "kc_CGetKeyRange E s e si ei n opts = drive_read (CGetKeyRange (e_ops E) s e si ei n opts)"

definition time_Now :: "('d, 'm) env \<Rightarrow> ('d, 'm, int) go" where
  "time_Now E = State (\<lambda>w. (e_now E (w_tick w), w\<lparr>w_tick := w_tick w + 1\<rparr>))"

definition mustGetUUID :: "('d, 'm) env \<Rightarrow> ('d, 'm, string) go" where
  "mustGetUUID E = State (\<lambda>w. (e_uuid E (w_tick w), w\<lparr>w_tick := w_tick w + 1\<rparr>))"

text \<open>Namespace locks of one path, the way every caller of the layer takes them.\<close>

definition ns_GetLock :: "('d, 'm) env \<Rightarrow> string \<Rightarrow> string \<Rightarrow> ('d, 'm, error option) go" where
  "ns_GetLock E bucket object =
     State (\<lambda>w. let (err, m) = li_GetLock (e_lrw E) (NewNSLock bucket [object]) (w_ns w)
                in (err, w\<lparr>w_ns := m\<rparr>))"

definition ns_Unlock :: "('d, 'm) env \<Rightarrow> string \<Rightarrow> string \<Rightarrow> ('d, 'm, unit) go" where
  "ns_Unlock E bucket object =
     modify (\<lambda>w. w\<lparr>w_ns := li_Unlock (e_lrw E) (NewNSLock bucket [object]) (w_ns w)\<rparr>)"

definition ns_GetRLock :: "('d, 'm) env \<Rightarrow> string \<Rightarrow> string \<Rightarrow> ('d, 'm, error option) go" where
  "ns_GetRLock E bucket object =
     State (\<lambda>w. let (err, m) = li_GetRLock (e_lrw E) (NewNSLock bucket [object]) (w_ns w)
                in (err, w\<lparr>w_ns := m\<rparr>))"

definition ns_RUnlock :: "('d, 'm) env \<Rightarrow> string \<Rightarrow> string \<Rightarrow> ('d, 'm, unit) go" where
  "ns_RUnlock E bucket object =
     modify (\<lambda>w. w\<lparr>w_ns := li_RUnlock (e_lrw E) (NewNSLock bucket [object]) (w_ns w)\<rparr>)"

text \<open>
  \<^verbatim>\<open>(*[1 << 16]byte)(unsafe.Pointer(cvalue))[:size:size]\<close>: a view of at most 65536 bytes, a run-time
  panic on a longer value. \<open>blob_bytes\<close> are the bytes of a value, \<open>blob_size\<close> is their number.
\<close>

definition blob_bytes :: "('d, 'm) env \<Rightarrow> blob \<Rightarrow> bytes" where
  "blob_bytes E b = (case b of Raw bs \<Rightarrow> bs | _ \<Rightarrow> e_enc E b)"

definition blob_size :: "('d, 'm) env \<Rightarrow> blob \<Rightarrow> nat" where
  "blob_size E b = length (blob_bytes E b)"

lemma blob_bytes_Raw [simp]: "blob_bytes E (Raw bs) = bs" "blob_size E (Raw bs) = length bs"
  by (simp_all add: blob_bytes_def blob_size_def)

definition fits16 :: "('d, 'm) env \<Rightarrow> blob \<Rightarrow> bool" where
  "fits16 E b = (blob_size E b \<le> 65536)"

abbreviation slicePanic :: error where
  "slicePanic \<equiv> GoPanic ''slice bounds out of range''"

text \<open>The option structs the layer passes: \<^verbatim>\<open>SHA1\<close> is 1, \<^verbatim>\<open>WRITEBACK\<close> is 2, \<^verbatim>\<open>NORMAL\<close> is 5 in
  \<^verbatim>\<open>kinetic_proto\<close>.\<close>

definition option :: Opts where
  "option = \<lparr>op_ClusterVersion = 0, op_Timeout = 60000, op_Priority = 5, op_BatchID = 0,
             op_NewVersion = [], op_Force = True, op_DbVersion = [], op_Tag = [],
             op_Algorithm = 1, op_Synchronization = 2, op_MetaDataOnly = False\<rparr>"

section \<open>Running the basic steps\<close>

named_theorems run \<open>the result of running a basic step\<close>

definition slot :: "KConnsPool \<Rightarrow> nat" where
  "slot p = fst (the (GetKineticConnection p))"

definition taken :: "KConnsPool \<Rightarrow> KConnsPool" where
  "taken p = snd (the (GetKineticConnection p))"

definition touch :: "KConnsPool \<Rightarrow> KConnsPool" where
  "touch p = the (ReleaseConnection (slot p) (taken p))"

definition pool_free :: "KConnsPool \<Rightarrow> bool" where
  "pool_free p = (pool_inv p \<and> busy p < maxQueue)"

lemma pool_get: "pool_free p \<Longrightarrow> GetKineticConnection p = Some (slot p, taken p)"
  using GetKineticConnection_None_iff [of p]
  by (cases "GetKineticConnection p") (auto simp: pool_free_def slot_def taken_def)

lemma pool_touch:
  assumes "pool_free p"
  shows "ReleaseConnection (slot p) (taken p) = Some (touch p)" "pool_free (touch p)"
    "kp_inUsed (touch p) = kp_inUsed p"
proof -
  obtain p'' where p'': "ReleaseConnection (slot p) (taken p) = Some p''" "pool_inv p''"
    "kp_inUsed p'' = kp_inUsed p"
    using Get_Release [OF _ pool_get [OF assms]] assms by (auto simp: pool_free_def)
  then show "ReleaseConnection (slot p) (taken p) = Some (touch p)" "pool_free (touch p)"
    "kp_inUsed (touch p) = kp_inUsed p"
    using assms by (auto simp: touch_def pool_free_def busy_def)
qed

lemma touch_explicit:
  assumes "pool_free p"
  shows "first_free (kp_inUsed p) = Some (slot p)"
    "touch p = p\<lparr>kp_kcs := (kp_kcs p)[slot p := (kp_kcs p ! slot p)\<lparr>cl_Idx := slot p\<rparr>],
                 kp_totalInUsedMax := max (kp_totalInUsedMax p) (kp_totalInUsed p + 1)\<rparr>"
proof -
  let ?i = "slot p"
  have g: "GetKineticConnection p = Some (?i, taken p)" by (rule pool_get [OF assms])
  then show ff: "first_free (kp_inUsed p) = Some ?i"
    by (auto simp: GetKineticConnection_def Let_def split: option.splits if_splits)
  have len: "length (kp_inUsed p) = maxQueue" using assms by (simp add: pool_free_def pool_inv_def)
  have i: "?i < maxQueue" "\<not> kp_inUsed p ! ?i" using first_free_Some [OF ff len] by auto
  have t: "taken p = p\<lparr>kp_kcs := (kp_kcs p)[?i := (kp_kcs p ! ?i)\<lparr>cl_Idx := ?i\<rparr>],
       kp_inUsed := (kp_inUsed p)[?i := True], kp_totalInUsed := kp_totalInUsed p + 1,
       kp_totalInUsedMax := max (kp_totalInUsedMax p) (kp_totalInUsed p + 1)\<rparr>"
    using g ff by (auto simp: GetKineticConnection_def Let_def split: if_splits)
  have upd: "(kp_inUsed p)[?i := False] = kp_inUsed p"
    using i len by (simp add: list_update_same_conv)
  have "0 \<le> kp_totalInUsed p" using assms by (simp add: pool_free_def pool_inv_def)
  then have "ReleaseConnection ?i (taken p) =
     Some (p\<lparr>kp_kcs := (kp_kcs p)[?i := (kp_kcs p ! ?i)\<lparr>cl_Idx := ?i\<rparr>],
             kp_totalInUsedMax := max (kp_totalInUsedMax p) (kp_totalInUsed p + 1)\<rparr>)"
    using i len upd by (simp add: ReleaseConnection_def t Let_def)
  then show "touch p = p\<lparr>kp_kcs := (kp_kcs p)[?i := (kp_kcs p ! ?i)\<lparr>cl_Idx := ?i\<rparr>],
                 kp_totalInUsedMax := max (kp_totalInUsedMax p) (kp_totalInUsed p + 1)\<rparr>"
    by (simp add: touch_def)
qed

lemma slot_touch [simp]: "pool_free p \<Longrightarrow> slot (touch p) = slot p"
  using touch_explicit(1) [of p] touch_explicit(1) [of "touch p"] pool_touch [of p] by simp

lemma touch_touch [simp]: "pool_free p \<Longrightarrow> touch (touch p) = touch p"
proof -
  assume p: "pool_free p"
  have "slot p < length (kp_kcs p)"
    using touch_explicit(1) [OF p] first_free_Some p by (auto simp: pool_free_def pool_inv_def)
  then show ?thesis
    by (simp add: touch_explicit(2) [OF pool_touch(2) [OF p]] slot_touch [OF p])
      (simp add: touch_explicit(2) [OF p])
qed

lemma run_gets [run]: "run_state (gets f) w = (f w, w)"
  by (simp add: gets_def)

lemma run_modify [run]: "run_state (modify f) w = ((), f w)"
  by (simp add: modify_def)

lemma run_Lock [run]:
  "\<not> w_kineticMutex w \<Longrightarrow> run_state kineticMutex_Lock w = ((), w\<lparr>w_kineticMutex := True\<rparr>)"
  by (simp add: kineticMutex_Lock_def run)

lemma run_Unlock [run]:
  "w_kineticMutex w \<Longrightarrow> run_state kineticMutex_Unlock w = ((), w\<lparr>w_kineticMutex := False\<rparr>)"
  by (simp add: kineticMutex_Unlock_def run)

lemma mutex_free [run]: "\<not> w_kineticMutex w \<Longrightarrow> w\<lparr>w_kineticMutex := False\<rparr> = w"
  by simp

lemma run_getConn [run]:
  "pool_free (w_pool w) \<Longrightarrow> run_state getConn w = (slot (w_pool w), w\<lparr>w_pool := taken (w_pool w)\<rparr>)"
  by (simp add: getConn_def pool_get)

lemma run_releaseConn [run]:
  "w_pool w = taken p \<Longrightarrow> pool_free p \<Longrightarrow> i = slot p \<Longrightarrow>
   run_state (releaseConn i) w = ((), w\<lparr>w_pool := touch p\<rparr>)"
  by (simp add: releaseConn_def run pool_touch)

lemma run_activeIO [run]: "run_state (activeIO n) w = ((), w\<lparr>w_activeIO := w_activeIO w + n\<rparr>)"
  by (simp add: activeIO_def run)

lemma run_drive_read [run]: "run_state (drive_read f) w = (f (w_drive w), w)"
  by (simp add: drive_read_def run)

lemma run_drive_write [run]:
  "run_state (drive_write f) w = (fst (f (w_drive w)), w\<lparr>w_drive := snd (f (w_drive w))\<rparr>)"
  by (simp add: drive_write_def split: prod.split)

lemma run_now [run]: "run_state (time_Now E) w = (e_now E (w_tick w), w\<lparr>w_tick := w_tick w + 1\<rparr>)"
  by (simp add: time_Now_def)

lemma run_uuid [run]: "run_state (mustGetUUID E) w = (e_uuid E (w_tick w), w\<lparr>w_tick := w_tick w + 1\<rparr>)"
  by (simp add: mustGetUUID_def)

lemmas kc_defs = kc_CGetMeta_def kc_CGet_def kc_CPut_def kc_Delete_def kc_CGetKeyRange_def


section \<open>Worlds between operations\<close>

text \<open>Between operations the mutex is free and a connection is available. Taking a connection and
  returning it leaves its mark in the high-water counter of the pool only (\<open>touched\<close>);
  \<^verbatim>\<open>GetBucketInfo\<close> also leaves the bucket's key in the client (\<open>keyed\<close>).\<close>

definition ready :: "('d, 'm) world \<Rightarrow> bool" where
  "ready w = (\<not> w_blocked w \<and> \<not> w_kineticMutex w \<and> pool_free (w_pool w) \<and> w_skinny w)"

definition touched :: "('d, 'm) world \<Rightarrow> ('d, 'm) world" where
  "touched w = w\<lparr>w_pool := touch (w_pool w)\<rparr>"

definition set_client :: "nat \<Rightarrow> (Client \<Rightarrow> Client) \<Rightarrow> KConnsPool \<Rightarrow> KConnsPool" where
  "set_client i f p = p\<lparr>kp_kcs := (kp_kcs p)[i := f (kp_kcs p ! i)]\<rparr>"

definition keyed :: "string \<Rightarrow> ('d, 'm) world \<Rightarrow> ('d, 'm) world" where
  "keyed k w = w\<lparr>w_pool := set_client (slot (w_pool w)) (\<lambda>c. c\<lparr>cl_Key := k\<rparr>) (touch (w_pool w))\<rparr>"

lemma set_client_inv: "pool_inv (set_client i f p) = pool_inv p" "busy (set_client i f p) = busy p"
  "pool_free (set_client i f p) = pool_free p" "kp_inUsed (set_client i f p) = kp_inUsed p"
  by (simp_all add: set_client_def pool_inv_def pool_free_def busy_def)

lemma Release_set_client:
  "ReleaseConnection i (set_client j f p) = map_option (set_client j f) (ReleaseConnection i p)"
  by (simp add: ReleaseConnection_def set_client_def Let_def)

lemma run_releaseConn_keyed [run]:
  "w_pool w = set_client j f (taken p) \<Longrightarrow> pool_free p \<Longrightarrow> i = slot p \<Longrightarrow>
   run_state (releaseConn i) w = ((), w\<lparr>w_pool := set_client j f (touch p)\<rparr>)"
  by (simp add: releaseConn_def run pool_touch Release_set_client)

lemma ready_touched [simp]: "ready w \<Longrightarrow> ready (touched w)"
  by (simp add: ready_def touched_def pool_touch)

lemma ready_keyed [simp]: "ready w \<Longrightarrow> ready (keyed k w)"
  by (simp add: ready_def keyed_def set_client_inv pool_touch)

lemma ready_upd [simp]:
  "ready (w\<lparr>w_drive := d\<rparr>) = ready w" "ready (w\<lparr>w_tick := t\<rparr>) = ready w"
  "ready (w\<lparr>w_activeIO := n\<rparr>) = ready w" "ready (w\<lparr>w_ns := m\<rparr>) = ready w"
  "ready (w\<lparr>w_readers := r\<rparr>) = ready w"
  by (simp_all add: ready_def)

lemma touched_simps [simp]:
  "w_drive (touched w) = w_drive w" "w_ns (touched w) = w_ns w" "w_readers (touched w) = w_readers w" "w_activeIO (touched w) = w_activeIO w"
  "w_tick (touched w) = w_tick w" "w_skinny (touched w) = w_skinny w"
  "w_kineticMutex (touched w) = w_kineticMutex w" "w_blocked (touched w) = w_blocked w"
  by (simp_all add: touched_def)

lemma keyed_simps [simp]:
  "w_drive (keyed k w) = w_drive w" "w_ns (keyed k w) = w_ns w" "w_readers (keyed k w) = w_readers w" "w_activeIO (keyed k w) = w_activeIO w"
  "w_tick (keyed k w) = w_tick w" "w_skinny (keyed k w) = w_skinny w"
  "w_kineticMutex (keyed k w) = w_kineticMutex w" "w_blocked (keyed k w) = w_blocked w"
  by (simp_all add: keyed_def)

lemma touched_touched [simp]: "ready w \<Longrightarrow> touched (touched w) = touched w"
  by (simp add: ready_def touched_def)

lemmas ready_defs = ready_def touched_def keyed_def

text \<open>What an operation that ran to its end leaves behind besides its effect on the drive: the world is
  ready for the next one, and no namespace lock and no count of active operations is left over.\<close>

definition settled :: "('d, 'm) world \<Rightarrow> ('d, 'm) world \<Rightarrow> bool" where
  "settled w w' = (ready w' \<and> w_ns w' = w_ns w \<and> w_activeIO w' = w_activeIO w)"

lemma settled_trans: "settled w w' \<Longrightarrow> settled w' w'' \<Longrightarrow> settled w w''"
  by (simp add: settled_def)

lemma settled_touched: "ready w \<Longrightarrow> settled w (touched w)"
  by (simp add: settled_def)

lemma settled_keyed: "ready w \<Longrightarrow> settled w (keyed k w)"
  by (simp add: settled_def)

section \<open>Namespace locks\<close>

definition fresh :: "'m lock_map \<Rightarrow> string \<Rightarrow> string \<Rightarrow> bool" where
  "fresh m bucket object = (map_of m (pathJoin [bucket, object]) = None)"

definition locked :: "'m lrw_ops \<Rightarrow> 'm lock_map \<Rightarrow> string \<Rightarrow> string \<Rightarrow> bool \<Rightarrow> 'm lock_map" where
  "locked L m bucket object rd = snd (nsLockMap_lock L m bucket object rd)"

lemma fresh_locked [simp]:
  "pathJoin [b, x] \<noteq> pathJoin [b', x'] \<Longrightarrow> fresh (locked L m b' x' rd) b x = fresh m b x"
  by (auto simp: fresh_def locked_def nsLockMap_lock_def Let_def update_conv' delete_conv'
      split: prod.split)

section \<open>The layer\<close>

text \<open>A drive and a mutex library that keep their promises: the contract every operation of the
  object layer is proved against.\<close>

locale kinetic_layer =
  kinetic_drive "e_ops E" contents + lrw_mutex "e_lrw E" readers writer
  for E :: "('d, 'm) env" and contents :: "'d \<Rightarrow> kstore" and readers :: "'m \<Rightarrow> nat"
    and writer :: "'m \<Rightarrow> bool"
begin

lemma ns_lock_fresh:
  assumes "fresh m b x"
  shows "nsLockMap_lock (e_lrw E) m b x rd = (True, locked (e_lrw E) m b x rd)"
    "nsLockMap_unlock (e_lrw E) (locked (e_lrw E) m b x rd) b x rd = m"
  using lock_fresh [of m b x rd] assms by (auto simp: fresh_def locked_def)

lemma run_ns_GetLock [run]:
  "fresh (w_ns w) b x \<Longrightarrow>
   run_state (ns_GetLock E b x) w = (None, w\<lparr>w_ns := locked (e_lrw E) (w_ns w) b x False\<rparr>)"
  by (simp add: ns_GetLock_def li_GetLock_def NewNSLock_def ns_lock_fresh)

lemma run_ns_GetRLock [run]:
  "fresh (w_ns w) b x \<Longrightarrow>
   run_state (ns_GetRLock E b x) w = (None, w\<lparr>w_ns := locked (e_lrw E) (w_ns w) b x True\<rparr>)"
  by (simp add: ns_GetRLock_def li_GetRLock_def NewNSLock_def ns_lock_fresh)

lemma run_ns_Unlock [run]:
  "w_ns w = locked (e_lrw E) m b x False \<Longrightarrow> fresh m b x \<Longrightarrow>
   run_state (ns_Unlock E b x) w = ((), w\<lparr>w_ns := m\<rparr>)"
  by (simp add: ns_Unlock_def run li_Unlock_def NewNSLock_def ns_lock_fresh)

lemma run_ns_RUnlock [run]:
  "w_ns w = locked (e_lrw E) m b x True \<Longrightarrow> fresh m b x \<Longrightarrow>
   run_state (ns_RUnlock E b x) w = ((), w\<lparr>w_ns := m\<rparr>)"
  by (simp add: ns_RUnlock_def run li_RUnlock_def NewNSLock_def ns_lock_fresh)

end

text \<open>The same with a drive on which writing and deleting succeed.\<close>

locale healthy_layer =
  kinetic_layer E contents readers writer + healthy_drive "e_ops E" contents
  for E :: "('d, 'm) env" and contents :: "'d \<Rightarrow> kstore" and readers :: "'m \<Rightarrow> nat"
    and writer :: "'m \<Rightarrow> bool"

end
