(* ===== verification/Kinetic_Buckets.thy ===== *)
theory Kinetic_Buckets
  imports Kinetic_World
begin

text \<open>
  The bucket operations of \<^verbatim>\<open>cmd/kinetic.go\<close> that do not look at objects: the meta buckets created at
  start, \<^verbatim>\<open>statBucketDir\<close>, \<^verbatim>\<open>MakeBucketWithLocation\<close>, \<^verbatim>\<open>GetBucketInfo\<close>, \<^verbatim>\<open>ListBuckets\<close> and \<^verbatim>\<open>Shutdown\<close>, and
  the argument checks of \<^verbatim>\<open>cmd/object-api-input-checks.go\<close>. Every return path keeps the calls on the
  mutex, the pool and the locks in the order of the source; a deferred call is the last step.
  A result \<open>Inl e\<close> is the error \<open>e\<close>, \<open>Inr x\<close> a result with a \<^verbatim>\<open>nil\<close> error.
\<close>

definition bucket_key :: "string \<Rightarrow> string" where
  "bucket_key bucket = ''bucket.'' @ bucket"

section \<open>Start and shutdown\<close>

text \<open>The block that \<^verbatim>\<open>initKineticMeta\<close> repeats for each of the three meta buckets.\<close>

definition initKineticMeta_one :: "('d, 'm) env \<Rightarrow> string \<Rightarrow> ('d, 'm, error option) go" where
  "initKineticMeta_one E bucket =
     (let bucketKey = bucket_key bucket in
      do {
        exist \<leftarrow> drive_read (DoesObjExist (e_ops E) bucketKey option);
        if \<not> exist then do {
          now \<leftarrow> time_Now E;
          kc_CPut E bucketKey (Gob \<lparr>bi_Name = bucketKey, bi_Created = now\<rparr>) (Raw []) option
        } else State_Monad.return None
      })"

definition initKineticMeta :: "('d, 'm) env \<Rightarrow> ('d, 'm, error option) go" where
  "initKineticMeta E =
     do {
       err \<leftarrow> initKineticMeta_one E minioMetaBucket;
       if err \<noteq> None then State_Monad.return err
       else do {
         err \<leftarrow> initKineticMeta_one E minioMetaTmpBucket;
         if err \<noteq> None then State_Monad.return err
         else initKineticMeta_one E minioMetaMultipartBucket
       }
     }"

text \<open>\<^verbatim>\<open>NewKineticObjectLayer\<close> on the in-process interface: the address starts with
  \<^verbatim>\<open>skinny\<close>, so no connection is opened; the error of \<^verbatim>\<open>initKineticMeta\<close> is dropped.\<close>

definition NewKineticObjectLayer :: "('d, 'm) env \<Rightarrow> ('d, 'm, unit) go" where
  "NewKineticObjectLayer E =
     do {
       modify (\<lambda>w. w\<lparr>w_skinny := True\<rparr>);
       modify (\<lambda>w. w\<lparr>w_pool := new_pool\<rparr>);
       initKineticMeta E;
       modify (\<lambda>w. w\<lparr>w_ns := []\<rparr>)
     }"

definition Shutdown :: "('d, 'm) env \<Rightarrow> ('d, 'm, error option) go" where
  "Shutdown E =
     do {
       kineticMutex_Lock;
       kc \<leftarrow> getConn;
       drive_write (Client_Flush (e_ops E));
       releaseConn kc;
       kineticMutex_Unlock;
       State_Monad.return None
     }"

section \<open>One bucket\<close>

definition getBucketDir :: "string \<Rightarrow> error + string" where
  "getBucketDir bucket =
     (if bucket = [] \<or> bucket = ''.'' \<or> bucket = ''..'' then Inl (Storage errVolumeNotFound)
      else Inr (bucket @ ''.bucket''))"

definition statBucketDir :: "('d, 'm) env \<Rightarrow> string \<Rightarrow> ('d, 'm, error + KVInfo) go" where
  "statBucketDir E bucket =
     do {
       kineticMutex_Lock;
       kc \<leftarrow> getConn;
       (cvalue, err) \<leftarrow> kc_CGetMeta E (bucket_key bucket) option;
       releaseConn kc;
       if err \<noteq> None then do {
         kineticMutex_Unlock;
         State_Monad.return (Inl (Storage errFileNotFound))
       } else (case cvalue of
           Some value \<Rightarrow>
             if \<not> fits16 E value then State_Monad.return (Inl slicePanic)
             else (let bi = gob_Decode value BucketInfo0 in
               do {
                 kineticMutex_Unlock;
                 State_Monad.return (Inr (KVInfo0\<lparr>ki_name := bi_Name bi, ki_size := 0,
                                                  ki_modTime := bi_Created bi\<rparr>))
               })
         | None \<Rightarrow> do { kineticMutex_Unlock; State_Monad.return (Inr KVInfo0) })
     }"

definition MakeBucketWithLocation :: "('d, 'm) env \<Rightarrow> string \<Rightarrow> ('d, 'm, error option) go" where
  "MakeBucketWithLocation E bucket =
     do {
       lerr \<leftarrow> ns_GetLock E bucket [];
       case lerr of Some e \<Rightarrow> State_Monad.return (Some e) | None \<Rightarrow>
       if \<not> e_valid_bucket_strict E bucket then do {
         ns_Unlock E bucket [];
         State_Monad.return (Some (Name (BucketNameInvalid bucket)))
       } else do {
         activeIO 1;
         kineticMutex_Lock;
         kc \<leftarrow> getConn;
         (cvalue, err) \<leftarrow> kc_CGetMeta E (bucket_key bucket) option;
         releaseConn kc;
         if err = None then do {
           kineticMutex_Unlock;
           activeIO (- 1);
           ns_Unlock E bucket [];
           State_Monad.return (toObjectErr (Some (Storage errVolumeExists)) [bucket])
         } else do {
           now \<leftarrow> time_Now E;
           kc \<leftarrow> getConn;
           kc_CPut E (bucket_key bucket) (Gob \<lparr>bi_Name = bucket_key bucket, bi_Created = now\<rparr>)
             (Raw []) option;
           releaseConn kc;
           kineticMutex_Unlock;
           activeIO (- 1);
           ns_Unlock E bucket [];
           State_Monad.return None
         }
       }
     }"

definition GetBucketInfo :: "('d, 'm) env \<Rightarrow> string \<Rightarrow> ('d, 'm, error + BucketInfo) go" where
  "GetBucketInfo E bucket =
     do {
       lerr \<leftarrow> ns_GetRLock E bucket [];
       case lerr of Some e \<Rightarrow> State_Monad.return (Inl e) | None \<Rightarrow> do {
         activeIO 1;
         kineticMutex_Lock;
         kc \<leftarrow> getConn;
         modify (\<lambda>w. w\<lparr>w_pool := set_client kc (\<lambda>c. c\<lparr>cl_Key := bucket_key bucket\<rparr>) (w_pool w)\<rparr>);
         (cvalue, err) \<leftarrow> kc_CGetMeta E (bucket_key bucket) option;
         releaseConn kc;
         r \<leftarrow> (if err \<noteq> None then do {
                 kineticMutex_Unlock;
                 State_Monad.return (Inl (Name (BucketNotFound bucket)))
               } else (case cvalue of
                   Some value \<Rightarrow>
                     if \<not> fits16 E value then State_Monad.return (Inl slicePanic)
                     else do {
                       kineticMutex_Unlock;
                       State_Monad.return (Inr (gob_Decode value BucketInfo0))
                     }
                 | None \<Rightarrow> do { kineticMutex_Unlock; State_Monad.return (Inr BucketInfo0) }));
         activeIO (- 1);
         ns_RUnlock E bucket [];
         State_Monad.return r
       }
     }"

section \<open>Argument checks\<close>

definition checkBucketExist :: "('d, 'm) env \<Rightarrow> string \<Rightarrow> ('d, 'm, error option) go" where
  "checkBucketExist E bucket =
     do {
       r \<leftarrow> GetBucketInfo E bucket;
       State_Monad.return (case r of Inl e \<Rightarrow> Some e | Inr _ \<Rightarrow> None)
     }"

definition checkObjectArgs :: "('d, 'm) env \<Rightarrow> string \<Rightarrow> string \<Rightarrow> ('d, 'm, error option) go" where
  "checkObjectArgs E bucket object =
     do {
       err \<leftarrow> checkBucketExist E bucket;
       State_Monad.return
         (if err \<noteq> None then err
          else (case checkObjectNameForLengthAndSlash bucket object of
                  Some e \<Rightarrow> Some e
                | None \<Rightarrow> if \<not> IsValidObjectName object then Some (Name (ObjectNameInvalid bucket object))
                          else None))
     }"

definition checkPutObjectArgs ::
  "('d, 'm) env \<Rightarrow> string \<Rightarrow> string \<Rightarrow> int \<Rightarrow> ('d, 'm, error option) go" where
  "checkPutObjectArgs E bucket object sz =
     do {
       err \<leftarrow> checkBucketExist E bucket;
       State_Monad.return
         (if err \<noteq> None then err
          else (case checkObjectNameForLengthAndSlash bucket object of
                  Some e \<Rightarrow> Some e
                | None \<Rightarrow>
                    if length object = 0 \<or> (HasSuffix object SlashSeparator \<and> sz \<noteq> 0) \<or>
                       \<not> IsValidObjectPrefix object
                    then Some (Name (ObjectNameInvalid bucket object))
                    else None))
     }"

definition checkListObjsArgs ::
  "('d, 'm) env \<Rightarrow> string \<Rightarrow> string \<Rightarrow> string \<Rightarrow> ('d, 'm, error option) go" where
  "checkListObjsArgs E bucket pre marker =
     do {
       err \<leftarrow> checkBucketExist E bucket;
       State_Monad.return
         (if err \<noteq> None then err
          else if \<not> IsValidObjectPrefix pre then Some (Name (ObjectNameInvalid bucket pre))
          else if marker \<noteq> [] \<and> \<not> HasPrefix marker pre
            then Some (Request (InvalidMarkerPrefixCombination marker pre))
          else None)
     }"

section \<open>All buckets\<close>

text \<open>The body of the loop over one page of keys. The slices \<^verbatim>\<open>key[:7]\<close> and \<^verbatim>\<open>key[:8]\<close> of a shorter key
  reach into the capacity of \<^verbatim>\<open>[]byte(s)\<close>, which is at least 8 and zeroed; they differ from the
  literals then, as \<open>take\<close> does.\<close>

fun ListBuckets_page ::
  "('d, 'm) env \<Rightarrow> string list \<Rightarrow> BucketInfo list \<Rightarrow> ('d, 'm, error + BucketInfo list) go" where
  "ListBuckets_page E [] bucketInfos = State_Monad.return (Inr bucketInfos)"
| "ListBuckets_page E (key # keys) bucketInfos =
     (if take 7 key = ''bucket.'' \<and> take 8 key \<noteq> ''bucket..'' then do {
        (cvalue, err) \<leftarrow> kc_CGetMeta E key option;
        if err \<noteq> None then State_Monad.return (Inl (the err))
        else (case cvalue of
            None \<Rightarrow> ListBuckets_page E keys bucketInfos
          | Some value \<Rightarrow>
              (let bucketInfo = gob_Decode value BucketInfo0 in
               if length (bi_Name bucketInfo) < 7 then State_Monad.return (Inl slicePanic)
               else ListBuckets_page E keys
                      (bucketInfos @ [bucketInfo\<lparr>bi_Name := drop 7 (bi_Name bucketInfo)\<rparr>])))
      } else ListBuckets_page E keys bucketInfos)"

text \<open>The outer loop with fuel; \<open>None\<close> is running out of it. \<^verbatim>\<open>lastKey\<close> is never assigned, so the next
  page starts at the empty key.\<close>

fun ListBuckets_loop ::
  "nat \<Rightarrow> ('d, 'm) env \<Rightarrow> string \<Rightarrow> string \<Rightarrow> BucketInfo list \<Rightarrow> ('d, 'm, (error + BucketInfo list) option) go" where
  "ListBuckets_loop 0 E startKey endKey bucketInfos = State_Monad.return None"
| "ListBuckets_loop (Suc fuel) E startKey endKey bucketInfos =
     do {
       kineticMutex_Lock;
       kc \<leftarrow> getConn;
       keys \<leftarrow> kc_CGetKeyRange E startKey endKey True True 800 option;
       releaseConn kc;
       kineticMutex_Unlock;
       r \<leftarrow> ListBuckets_page E keys bucketInfos;
       case r of
         Inl e \<Rightarrow> State_Monad.return (Some (Inl e))
       | Inr infos \<Rightarrow>
           if length keys < 800 then State_Monad.return (Some (Inr infos))
           else ListBuckets_loop fuel E [] [] infos
     }"

definition ListBuckets :: "nat \<Rightarrow> ('d, 'm) env \<Rightarrow> ('d, 'm, (error + BucketInfo list) option) go" where
  "ListBuckets fuel E =
     do {
       activeIO 1;
       r \<leftarrow> ListBuckets_loop fuel E ''bucket.'' ''bucket/'' [];
       activeIO (- 1);
       State_Monad.return r
     }"

section \<open>Behaviour\<close>

definition nul_free :: "string \<Rightarrow> bool" where
  "nul_free s = (CHR 0x00 \<notin> set s)"

lemma bucket_key_cstring [simp]: "nul_free b \<Longrightarrow> C_CString (bucket_key b) = bucket_key b"
  by (simp add: nul_free_def bucket_key_def)

lemma bucket_key_inj [simp]: "bucket_key a = bucket_key b \<longleftrightarrow> a = b"
  by (simp add: bucket_key_def)

text \<open>The keys \<^verbatim>\<open>ListBuckets\<close> reads, and the information it returns for one of them.\<close>

definition listed :: "string \<Rightarrow> bool" where
  "listed key = (take 7 key = ''bucket.'' \<and> take 8 key \<noteq> ''bucket..'')"

definition bucket_of :: "kstore \<Rightarrow> string \<Rightarrow> BucketInfo" where
  "bucket_of s key =
     (case s key of
        Some (m, v) \<Rightarrow> (let bi = gob_Decode m BucketInfo0 in bi\<lparr>bi_Name := drop 7 (bi_Name bi)\<rparr>)
      | None \<Rightarrow> BucketInfo0)"

definition named :: "kstore \<Rightarrow> string \<Rightarrow> bool" where
  "named s key = (\<exists>m v. s key = Some (m, v) \<and> 7 \<le> length (bi_Name (gob_Decode m BucketInfo0)))"

context kinetic_layer
begin

abbreviation store :: "('d, 'm) world \<Rightarrow> kstore" where
  "store w \<equiv> contents (w_drive w)"

lemma CGetMeta_miss':
  "contents d (C_CString k) = None \<Longrightarrow>
   \<exists>c. CGetMeta (e_ops E) k acmd d = (c, Some (Kinetic errKineticNotFound))"
  using CGetMeta_miss [of d k acmd] by (cases "CGetMeta (e_ops E) k acmd d") simp

lemma run_statBucketDir_hit:
  assumes "ready w" "nul_free b" "store w (bucket_key b) = Some (m, v)" "fits16 E m"
  shows "run_state (statBucketDir E b) w =
           (Inr (KVInfo0\<lparr>ki_name := bi_Name (gob_Decode m BucketInfo0), ki_size := 0,
                         ki_modTime := bi_Created (gob_Decode m BucketInfo0)\<rparr>), touched w)"
  using assms CGetMeta_hit [of "w_drive w" "bucket_key b" m v option]
  by (simp add: statBucketDir_def kc_defs run ready_defs Let_def)

lemma run_statBucketDir_miss:
  assumes "ready w" "nul_free b" "store w (bucket_key b) = None"
  shows "run_state (statBucketDir E b) w = (Inl (Storage errFileNotFound), touched w)"
  using assms CGetMeta_miss' [of "w_drive w" "bucket_key b" option]
  by (auto simp: statBucketDir_def kc_defs run ready_defs)

lemma run_GetBucketInfo_hit:
  assumes "ready w" "nul_free b" "fresh (w_ns w) b []"
    "store w (bucket_key b) = Some (m, v)" "fits16 E m"
  shows "run_state (GetBucketInfo E b) w = (Inr (gob_Decode m BucketInfo0), keyed (bucket_key b) w)"
  using assms CGetMeta_hit [of "w_drive w" "bucket_key b" m v option]
  by (simp add: GetBucketInfo_def kc_defs run ready_defs)

lemma run_GetBucketInfo_miss:
  assumes "ready w" "nul_free b" "fresh (w_ns w) b []" "store w (bucket_key b) = None"
  shows "run_state (GetBucketInfo E b) w = (Inl (Name (BucketNotFound b)), keyed (bucket_key b) w)"
  using assms CGetMeta_miss' [of "w_drive w" "bucket_key b" option]
  by (auto simp: GetBucketInfo_def kc_defs run ready_defs)

lemma run_MakeBucket_exists:
  assumes "ready w" "nul_free b" "fresh (w_ns w) b []" "e_valid_bucket_strict E b"
    "store w (bucket_key b) = Some (m, v)"
  shows "run_state (MakeBucketWithLocation E b) w = (Some (Name (BucketExists b)), touched w)"
  using assms CGetMeta_hit [of "w_drive w" "bucket_key b" m v option]
  by (simp add: MakeBucketWithLocation_def kc_defs run ready_defs toObjectErr_def)

lemma run_MakeBucket_new:
  assumes "ready w" "nul_free b" "fresh (w_ns w) b []" "e_valid_bucket_strict E b"
    "store w (bucket_key b) = None"
  shows "run_state (MakeBucketWithLocation E b) w =
           (None, touched (w\<lparr>w_drive := snd (CPut (e_ops E) (bucket_key b)
              (Gob \<lparr>bi_Name = bucket_key b, bi_Created = e_now E (w_tick w)\<rparr>) (Raw []) option (w_drive w)),
              w_tick := w_tick w + 1\<rparr>))"
  using assms CGetMeta_miss' [of "w_drive w" "bucket_key b" option]
  by (auto simp: MakeBucketWithLocation_def kc_defs run ready_defs pool_touch)

lemma run_ListBuckets_page:
  assumes "\<forall>k \<in> set keys. nul_free k" "\<forall>k \<in> set keys. listed k \<longrightarrow> named (store w) k"
  shows "run_state (ListBuckets_page E keys acc) w =
           (Inr (acc @ map (bucket_of (store w)) (filter listed keys)), w)"
  using assms
proof (induction keys arbitrary: acc)
  case (Cons k keys)
  show ?case
  proof (cases "listed k")
    case True
    with Cons.prems obtain m v where mv: "store w k = Some (m, v)"
      "7 \<le> length (bi_Name (gob_Decode m BucketInfo0))" by (auto simp: named_def)
    have "CGetMeta (e_ops E) k option (w_drive w) = (Some m, None)"
      using mv(1) Cons.prems(1) CGetMeta_hit [of "w_drive w" k m v option] by (simp add: nul_free_def)
    then show ?thesis
      using Cons True mv by (simp add: listed_def kc_defs run Let_def bucket_of_def)
  next
    case False
    then show ?thesis using Cons by (auto simp: listed_def)
  qed
qed simp

text \<open>A page that fits in one answer ends the loop.\<close>

lemma run_ListBuckets:
  assumes "ready w" "\<forall>k \<in> dom (store w). CHR '':'' \<notin> set k \<and> k \<noteq> [] \<and> nul_free k"
    and keys: "keys = key_range ''bucket.'' ''bucket/'' True True (dom (store w))" "length keys < 800"
    and names: "\<forall>k \<in> set keys. listed k \<longrightarrow> named (store w) k"
  shows "run_state (ListBuckets (Suc fuel) E) w =
           (Some (Inr (map (bucket_of (store w)) (filter listed keys))), touched w)"
proof -
  have range: "CGetKeyRange (e_ops E) ''bucket.'' ''bucket/'' True True 800 option (w_drive w) = keys"
    using assms(2) CGetKeyRange_exact [of "w_drive w" "''bucket/''"] keys by simp
  have nul: "\<forall>k \<in> set keys. nul_free k"
    using assms(2) by (auto simp: keys(1) set_key_range [OF finite_contents])
  show ?thesis
    using assms(1) keys(2) nul names
    by (simp add: ListBuckets_def kc_defs run ready_defs range run_ListBuckets_page)
qed

lemma ListBuckets_page_panics:
  assumes "\<forall>k \<in> set keys. nul_free k \<and> store w k \<noteq> None"
    and "\<exists>k \<in> set keys. listed k \<and> \<not> named (store w) k"
  shows "fst (run_state (ListBuckets_page E keys acc) w) = Inl slicePanic"
  using assms
proof (induction keys arbitrary: acc)
  case (Cons k keys)
  show ?case
  proof (cases "listed k")
    case True
    obtain m v where mv: "store w k = Some (m, v)" using Cons.prems(1) by auto
    then have "CGetMeta (e_ops E) k option (w_drive w) = (Some m, None)"
      using Cons.prems(1) CGetMeta_hit [of "w_drive w" k m v option] by (simp add: nul_free_def)
    then show ?thesis
      using Cons True mv by (auto simp: listed_def named_def kc_defs run Let_def)
  next
    case False
    then show ?thesis using Cons by (auto simp: listed_def)
  qed
qed simp

lemma run_MakeBucket_invalid:
  assumes "fresh (w_ns w) b []" "\<not> e_valid_bucket_strict E b"
  shows "run_state (MakeBucketWithLocation E b) w = (Some (Name (BucketNameInvalid b)), w)"
  using assms by (simp add: MakeBucketWithLocation_def run)

end

end
