(* ===== verification/Hash_Reader.thy ===== *)
theory Hash_Reader
  imports Object_Errors Go_Text
begin

text \<open>
  The checked request body of \<^verbatim>\<open>pkg/hash/reader.go\<close> and how the layer reads it (\<^verbatim>\<open>readToBuffer\<close> of
  \<^verbatim>\<open>cmd/fs-v1-helpers.go\<close>, which is \<^verbatim>\<open>io.ReadFull\<close>). The two digest functions are parameters. A source
  is the bytes it has left and whether it reports the end of file together with its last bytes, as
  \<^verbatim>\<open>io.Reader\<close> allows; the digests are compared when the end of file is seen, and only then.
\<close>

section \<open>Hexadecimal\<close>

definition hex_digit :: "nat \<Rightarrow> char" where
  "hex_digit n = (if n < 10 then char_of (48 + n) else char_of (87 + n))"

definition hex_EncodeToString :: "bytes \<Rightarrow> string" where
  "hex_EncodeToString bs = concat (map (\<lambda>c. [hex_digit (byte c div 16), hex_digit (byte c mod 16)]) bs)"

definition hex_val :: "char \<Rightarrow> nat option" where
  "hex_val c =
     (let b = byte c in
      if 48 \<le> b \<and> b \<le> 57 then Some (b - 48)
      else if 97 \<le> b \<and> b \<le> 102 then Some (b - 87)
      else if 65 \<le> b \<and> b \<le> 70 then Some (b - 55)
      else None)"

text \<open>\<^verbatim>\<open>hex.DecodeString\<close>; \<open>None\<close> is an odd length or a character that is no digit.\<close>

fun hex_DecodeString :: "string \<Rightarrow> bytes option" where
  "hex_DecodeString [] = Some []"
| "hex_DecodeString [c] = None"
| "hex_DecodeString (c # d # s) =
     (case (hex_val c, hex_val d, hex_DecodeString s) of
        (Some x, Some y, Some bs) \<Rightarrow> Some (char_of (16 * x + y) # bs)
      | _ \<Rightarrow> None)"

lemma hex_val_digit: "n < 16 \<Longrightarrow> hex_val (hex_digit n) = Some n"
  by (auto simp: hex_val_def hex_digit_def byte_def Let_def)

lemma hex_roundtrip: "hex_DecodeString (hex_EncodeToString bs) = Some bs"
proof (induction bs)
  case (Cons c bs)
  have "byte c < 256" by (simp add: byte_def)
  then have "byte c div 16 < 16" by simp
  moreover have "char_of (16 * (byte c div 16) + byte c mod 16) = c"
    by (simp add: byte_def)
  ultimately show ?case
    using Cons by (simp add: hex_EncodeToString_def hex_val_digit)
qed (simp add: hex_EncodeToString_def)

lemma hex_length: "length (hex_EncodeToString bs) = 2 * length bs"
  by (induction bs) (auto simp: hex_EncodeToString_def)

section \<open>The reader\<close>

text \<open>A hash that was not created (\<^verbatim>\<open>nil\<close>) is \<open>None\<close>, otherwise the bytes written to it so far.\<close>

record Reader =
  r_src :: bytes
  r_eof_with_data :: bool
  r_size :: int
  r_actualSize :: int
  r_md5sum :: bytes
  r_sha256sum :: bytes
  r_md5Hash :: "bytes option"
  r_sha256Hash :: "bytes option"

definition NewReader ::
  "bytes \<Rightarrow> bool \<Rightarrow> int \<Rightarrow> string \<Rightarrow> string \<Rightarrow> int \<Rightarrow> bool \<Rightarrow> error + Reader" where
  "NewReader src eofd sz md5Hex sha256Hex actualSize strictCompat =
     (case hex_DecodeString sha256Hex of
        None \<Rightarrow> Inl (Lib (SHA256Mismatch [] []))
      | Some sha256sum \<Rightarrow>
          (case hex_DecodeString md5Hex of
             None \<Rightarrow> Inl (Lib (BadDigest [] []))
           | Some md5sum \<Rightarrow>
               Inr \<lparr>r_src = (if sz \<ge> 0 then take (nat sz) src else src),
                    r_eof_with_data = (eofd \<and> (sz \<ge> 0 \<longrightarrow> length src \<le> nat sz)),
                    r_size = sz,
                    r_actualSize = actualSize,
                    r_md5sum = md5sum,
                    r_sha256sum = sha256sum,
                    r_md5Hash = (if strictCompat \<or> md5sum \<noteq> [] then Some [] else None),
                    r_sha256Hash = (if sha256sum \<noteq> [] then Some [] else None)\<rparr>))"

definition Reader_Verify :: "(bytes \<Rightarrow> bytes) \<Rightarrow> (bytes \<Rightarrow> bytes) \<Rightarrow> Reader \<Rightarrow> error option" where
  "Reader_Verify md5 sha256 r =
     (let bad_sha256 = (case r_sha256Hash r of None \<Rightarrow> False
                        | Some h \<Rightarrow> length (r_sha256sum r) > 0 \<and> r_sha256sum r \<noteq> sha256 h);
          bad_md5 = (case r_md5Hash r of None \<Rightarrow> False
                     | Some h \<Rightarrow> length (r_md5sum r) > 0 \<and> r_md5sum r \<noteq> md5 h)
      in if bad_sha256 then
           Some (Lib (SHA256Mismatch (hex_EncodeToString (r_sha256sum r))
                        (hex_EncodeToString (sha256 (the (r_sha256Hash r))))))
         else if bad_md5 then
           Some (Lib (BadDigest (hex_EncodeToString (r_md5sum r))
                        (hex_EncodeToString (md5 (the (r_md5Hash r))))))
         else None)"

text \<open>Taking \<open>n\<close> bytes off the source and through the hashes.\<close>

definition Reader_take :: "nat \<Rightarrow> Reader \<Rightarrow> Reader" where
  "Reader_take n r =
     r\<lparr>r_src := drop n (r_src r),
       r_md5Hash := map_option (\<lambda>h. h @ take n (r_src r)) (r_md5Hash r),
       r_sha256Hash := map_option (\<lambda>h. h @ take n (r_src r)) (r_sha256Hash r)\<rparr>"

text \<open>
  \<^verbatim>\<open>io.ReadFull(r, buf)\<close> for a buffer of \<open>n\<close> bytes: the bytes read, the reader afterwards, the error. The
  end of file is seen when the source runs short, or with the last byte if the source reports it there;
  a failed verification then replaces the last read.
\<close>

definition readToBuffer ::
  "(bytes \<Rightarrow> bytes) \<Rightarrow> (bytes \<Rightarrow> bytes) \<Rightarrow> Reader \<Rightarrow> nat \<Rightarrow> bytes \<times> Reader \<times> error option" where
  "readToBuffer md5 sha256 r n =
     (let r' = Reader_take n r; got = take n (r_src r) in
      if n = 0 then ([], r, None)
      else if n \<le> length (r_src r) then
        (if n = length (r_src r) \<and> r_eof_with_data r then (got, r', Reader_Verify md5 sha256 r')
         else (got, r', None))
      else (case Reader_Verify md5 sha256 r' of
              Some e \<Rightarrow> (got, r', Some e)
            | None \<Rightarrow> (got, r', Some (Lib (if got = [] then ErrEOF else ErrUnexpectedEOF)))))"

definition MD5Current :: "(bytes \<Rightarrow> bytes) \<Rightarrow> Reader \<Rightarrow> bytes" where
  "MD5Current md5 r = (case r_md5Hash r of Some h \<Rightarrow> md5 h | None \<Rightarrow> [])"

lemma readToBuffer_full:
  assumes "readToBuffer md5 sha256 r n = (got, r', None)"
  shows "got = take n (r_src r)" "length got = n"
  using assms by (auto simp: readToBuffer_def Let_def split: if_splits option.splits)

lemma readToBuffer_short:
  assumes "length (r_src r) < n"
  shows "\<exists>got r' e. readToBuffer md5 sha256 r n = (got, r', Some e)"
  using assms by (auto simp: readToBuffer_def Let_def split: option.split)

text \<open>When the source does not report the end of file with its last bytes, a body of the announced
  length is accepted whatever its digest is.\<close>

lemma readToBuffer_unverified:
  assumes "n = length (r_src r)" "\<not> r_eof_with_data r"
  shows "readToBuffer md5 sha256 r n = (r_src r, if n = 0 then r else Reader_take n r, None)"
  using assms by (simp add: readToBuffer_def Let_def)

lemma MD5Current_after:
  "r_md5Hash r = Some [] \<Longrightarrow> MD5Current md5 (Reader_take (length (r_src r)) r) = md5 (r_src r)"
  by (simp add: MD5Current_def Reader_take_def)

section \<open>When digests are checked\<close>

lemma NewReader_fields:
  assumes "NewReader src eofd (int (length src)) md5Hex sha256Hex asz strict = Inr r"
  shows "r_src r = src" "r_eof_with_data r = eofd" "r_md5sum r = the (hex_DecodeString md5Hex)"
    "r_sha256sum r = the (hex_DecodeString sha256Hex)"
    "r_md5sum r \<noteq> [] \<Longrightarrow> r_md5Hash r = Some []" "r_sha256sum r \<noteq> [] \<Longrightarrow> r_sha256Hash r = Some []"
  using assms by (auto simp: NewReader_def split: option.splits)

lemma Reader_Verify_iff:
  assumes "r_md5sum r \<noteq> [] \<Longrightarrow> r_md5Hash r = Some m" "r_sha256sum r \<noteq> [] \<Longrightarrow> r_sha256Hash r = Some s"
  shows "Reader_Verify md5 sha256 r = None \<longleftrightarrow>
    (r_md5sum r = [] \<or> r_md5sum r = md5 m) \<and> (r_sha256sum r = [] \<or> r_sha256sum r = sha256 s)"
  using assms
  by (cases "r_md5sum r = []"; cases "r_sha256sum r = []")
    (auto simp: Reader_Verify_def Let_def split: option.splits)

text \<open>C35. Reading a body of the announced size into a buffer succeeds exactly if the digests the client sent
  match the body, provided the source reports the end of the body together with its last bytes; from a source
  that reports it in a read of its own, the body is accepted whatever the digests are.\<close>

theorem digest_checked_only_with_eof:
  assumes "NewReader src eofd (int (length src)) md5Hex sha256Hex asz strict = Inr r" "src \<noteq> []"
  shows "(\<exists>r'. readToBuffer md5 sha256 r (length src) = (src, r', None)) \<longleftrightarrow>
    (eofd \<longrightarrow> the (hex_DecodeString md5Hex) \<in> {[], md5 src} \<and> the (hex_DecodeString sha256Hex) \<in> {[], sha256 src})"
proof -
  note f = NewReader_fields [OF assms(1)]
  have "Reader_Verify md5 sha256 (Reader_take (length src) r) = None \<longleftrightarrow>
      (r_md5sum r = [] \<or> r_md5sum r = md5 src) \<and> (r_sha256sum r = [] \<or> r_sha256sum r = sha256 src)"
    by (subst Reader_Verify_iff [of _ src src]) (simp_all add: Reader_take_def f(1,5,6))
  then show ?thesis using assms(2) f(1-4) by (auto simp: readToBuffer_def Let_def)
qed

theorem digest_checked_only_with_eof_witness:
  "\<exists>r r'. NewReader ''body'' False 4 ''ffff'' [] 4 True = Inr r \<and>
     readToBuffer (\<lambda>b. ''m'') (\<lambda>b. ''s'') r (length ''body'') = (''body'', r', None)"
proof -
  have "hex_DecodeString ''ffff'' = Some [CHR 0xFF, CHR 0xFF]" by code_simp
  then obtain r where r: "NewReader ''body'' False (int (length ''body'')) ''ffff'' [] 4 True = Inr r"
    by (simp add: NewReader_def)
  then show ?thesis using digest_checked_only_with_eof [OF r, of "\<lambda>b. ''m''" "\<lambda>b. ''s''"] by auto
qed

end
