(* ===== verification/Kinetic_Objects.thy ===== *)
theory Kinetic_Objects
  imports Kinetic_Buckets Hash_Reader
begin

text \<open>
  Objects stored in one piece: reading metadata (\<^verbatim>\<open>getObjectInfo\<close>, \<^verbatim>\<open>currentVersion\<close>, \<^verbatim>\<open>koStat\<close>,
  \<^verbatim>\<open>GetObjectInfo\<close>), writing (\<^verbatim>\<open>putObject\<close>, \<^verbatim>\<open>PutObject\<close>), reading (\<^verbatim>\<open>getObject\<close>, \<^verbatim>\<open>GetObject\<close>) and deleting
  (\<^verbatim>\<open>DeleteObject\<close>, \<^verbatim>\<open>DeleteObjects\<close>), from \<^verbatim>\<open>cmd/kinetic.go\<close> and \<^verbatim>\<open>cmd/fs-v1-helpers.go\<close>.

  The request body is a \<open>Reader\<close> (an encrypting reader is not modelled); the response writer of
  \<^verbatim>\<open>GetObject\<close> is the list of bytes written to it.
\<close>

abbreviation blockSizeV1 :: int where "blockSizeV1 \<equiv> 10485760"

record ObjectOptions =
  oo_UserDefined :: "strmap option"

section \<open>Reading metadata\<close>

text \<open>The option struct of the calls that leave \<^verbatim>\<open>Synchronization\<close> out.\<close>

definition option_nosync :: Opts where
  "option_nosync = option\<lparr>op_Synchronization := 0\<rparr>"

definition currentVersion :: "('d, 'm) env \<Rightarrow> string \<Rightarrow> ('d, 'm, string \<times> error option) go" where
  "currentVersion E key =
     do {
       kineticMutex_Lock;
       kc \<leftarrow> getConn;
       (cvalue, err) \<leftarrow> kc_CGetMeta E key option;
       releaseConn kc;
       kineticMutex_Unlock;
       case (err, cvalue) of
         (None, Some value) \<Rightarrow>
           if \<not> fits16 E value then State_Monad.return ([], Some slicePanic)
           else (let (meta, err) = json_Unmarshal (e_json E) value fsMetaV1_0
                 in State_Monad.return (if err = None then mget (fm_Meta meta) ''version'' else [], err))
       | _ \<Rightarrow> State_Monad.return ([], err)
     }"

text \<open>\<^verbatim>\<open>getObjectInfo\<close>. The panic of the slice expression comes while \<^verbatim>\<open>kineticMutex\<close> is held, and no
  deferred call releases it.\<close>

definition kv_of_meta :: "fsMetaV1 \<Rightarrow> KVInfo" where
  "kv_of_meta fsMeta =
     KVInfo0\<lparr>ki_name := ko_Name (fm_KoInfo fsMeta), ki_size := ko_Size (fm_KoInfo fsMeta),
             ki_modTime := ko_CreatedTime (fm_KoInfo fsMeta)\<rparr>"

definition is_hidden :: "strmap \<Rightarrow> bool" where
  "is_hidden meta = (mget meta ''hidden'' \<noteq> [] \<and> mget meta ''hidden'' \<noteq> ''0'')"

definition getObjectInfo :: "('d, 'm) env \<Rightarrow> string \<Rightarrow> string \<Rightarrow> ('d, 'm, error + ObjectInfo) go" where
  "getObjectInfo E bucket object =
     (let key = (if bucket = [] then object else bucket @ ''/'' @ object) in
      do {
        kineticMutex_Lock;
        kc \<leftarrow> getConn;
        (cvalue, err) \<leftarrow> kc_CGetMeta E key option;
        releaseConn kc;
        if err \<noteq> None then do {
          kineticMutex_Unlock;
          State_Monad.return (Inl (Storage errFileNotFound))
        } else (case cvalue of
            Some value \<Rightarrow>
              if \<not> fits16 E value then State_Monad.return (Inl slicePanic)
              else (case json_Unmarshal (e_json E) value fsMetaV1_0 of
                (fsMeta, Some err) \<Rightarrow> do { kineticMutex_Unlock; State_Monad.return (Inl err) }
              | (fsMeta, None) \<Rightarrow>
                  (let fi = (kv_of_meta fsMeta)\<lparr>ki_hidden := is_hidden (fm_Meta fsMeta)\<rparr> in
                   do {
                     kineticMutex_Unlock;
                     State_Monad.return (Inr (KVInfoToObjectInfo (e_meta E) fsMeta bucket object (Some fi)))
                   }))
          | None \<Rightarrow> do {
              kineticMutex_Unlock;
              State_Monad.return
                (Inr (KVInfoToObjectInfo (e_meta E) fsMetaV1_0 bucket object (Some (kv_of_meta fsMetaV1_0))))
            })
      })"

definition koStat :: "('d, 'm) env \<Rightarrow> string \<Rightarrow> ('d, 'm, error + KVInfo) go" where
  "koStat E key =
     do {
       kc \<leftarrow> getConn;
       (cvalue, err) \<leftarrow> kc_CGetMeta E key option;
       releaseConn kc;
       if err \<noteq> None then State_Monad.return (Inl (Storage errFileNotFound))
       else (case cvalue of
           Some value \<Rightarrow>
             if \<not> fits16 E value then State_Monad.return (Inl slicePanic)
             else (case json_Unmarshal (e_json E) value newFSMetaV1 of
               (fsMeta, Some err) \<Rightarrow> State_Monad.return (Inl err)
             | (fsMeta, None) \<Rightarrow> State_Monad.return (Inr (kv_of_meta fsMeta)))
         | None \<Rightarrow> State_Monad.return (Inl (Lib ErrJson)))
     }"

definition getObjectInfoWithLock ::
  "('d, 'm) env \<Rightarrow> string \<Rightarrow> string \<Rightarrow> ('d, 'm, error + ObjectInfo) go" where
  "getObjectInfoWithLock E bucket object =
     do {
       lerr \<leftarrow> ns_GetRLock E bucket object;
       case lerr of Some e \<Rightarrow> State_Monad.return (Inl e) | None \<Rightarrow> do {
         r \<leftarrow> (case checkGetObjArgs (e_valid_bucket E) bucket object of
                 Some e \<Rightarrow> State_Monad.return (Inl e)
               | None \<Rightarrow> do {
                   s \<leftarrow> statBucketDir E bucket;
                   case s of
                     Inl e \<Rightarrow> State_Monad.return (Inl e)
                   | Inr _ \<Rightarrow> getObjectInfo E bucket object
                 });
         ns_RUnlock E bucket object;
         State_Monad.return r
       }
     }"

text \<open>\<^verbatim>\<open>GetObjectInfo\<close>. Its repair branch is taken on \<^verbatim>\<open>errCorruptedFormat\<close> and \<^verbatim>\<open>io.EOF\<close>, which
  \<open>getObjectInfoWithLock\<close> never returns unless the lock or a name check does; the branch rewrites a
  file of the file-system backend and is left out here.\<close>

definition map_err :: "string list \<Rightarrow> error + 'a \<Rightarrow> error + 'a" where
  "map_err params r = (case r of Inl e \<Rightarrow> Inl (the (toObjectErr (Some e) params)) | Inr x \<Rightarrow> Inr x)"

definition GetObjectInfo :: "('d, 'm) env \<Rightarrow> string \<Rightarrow> string \<Rightarrow> ('d, 'm, error + ObjectInfo) go" where
  "GetObjectInfo E bucket object =
     do {
       r \<leftarrow> getObjectInfoWithLock E bucket object;
       State_Monad.return (map_err [bucket, object] r)
     }"

section \<open>Writing\<close>

text \<open>\<^verbatim>\<open>PutObjReader.MD5CurrentHexString\<close> without a sealing function: the digest of what was read so
  far, or 16 random bytes when no digest is kept.\<close>

definition MD5CurrentHexString :: "('d, 'm) env \<Rightarrow> Reader \<Rightarrow> ('d, 'm, string) go" where
  "MD5CurrentHexString E r =
     (let md5sumCurr = MD5Current (e_md5 E) r in
      if length md5sumCurr = 0 then
        State (\<lambda>w. (take 32 (hex_EncodeToString (e_rand E (w_tick w))) @ ''-1'', w\<lparr>w_tick := w_tick w + 1\<rparr>))
      else State_Monad.return (hex_EncodeToString md5sumCurr))"

text \<open>\<^verbatim>\<open>allocateValBuf(n)\<close> makes a slice of \<open>n\<close> bytes, and panics on a negative length.\<close>

definition put_meta :: "strmap \<Rightarrow> string \<Rightarrow> string \<Rightarrow> string \<Rightarrow> int \<Rightarrow> int \<Rightarrow> fsMetaV1" where
  "put_meta user nxtVer etag object sz now =
     newFSMetaV1\<lparr>fm_Meta := mset ''size'' (FormatInt sz) (mset ''etag'' etag
                              (mset ''version'' nxtVer (mcopy user []))),
                 fm_KoInfo := KOInfo0\<lparr>ko_Name := object, ko_Size := sz, ko_CreatedTime := now\<rparr>\<rparr>"

definition putObject ::
  "('d, 'm) env \<Rightarrow> string \<Rightarrow> string \<Rightarrow> Reader \<Rightarrow> ObjectOptions \<Rightarrow> ('d, 'm, error + ObjectInfo) go" where
  "putObject E bucket object r opts =
     do {
       kineticMutex_Lock;
       kc \<leftarrow> getConn;
       (cMeta, err) \<leftarrow> kc_CGetMeta E (bucket_key bucket) option_nosync;
       releaseConn kc;
       kineticMutex_Unlock;
       if err \<noteq> None \<and> err \<noteq> Some (Kinetic errKineticNotFound) then
         State_Monad.return (Inl (the (toObjectErr err [bucket, object])))
       else if r_size r < -1 then State_Monad.return (Inl (Storage errInvalidArgument))
       else if \<not> r_size r \<le> blockSizeV1 then State_Monad.return (Inl (Storage errInvalidArgument))
       else do {
         (objVer, verr) \<leftarrow> currentVersion E (bucket @ ''/'' @ object);
         if verr = Some slicePanic then State_Monad.return (Inl slicePanic)
         else do {
           etag \<leftarrow> MD5CurrentHexString E r;
           now \<leftarrow> time_Now E;
           if r_size r < 0 then State_Monad.return (Inl slicePanic)
           else (case readToBuffer (e_md5 E) (e_sha256 E) r (nat (r_size r)) of
             (goBuf, r', Some err) \<Rightarrow> State_Monad.return (Inl err)
           | (goBuf, r', None) \<Rightarrow> do {
               kc \<leftarrow> getConn;
               err \<leftarrow> kc_CPut E (bucket @ ''/'' @ object)
                        (Json (put_meta (case oo_UserDefined opts of Some m \<Rightarrow> m | None \<Rightarrow> [])
                                 (newVersion objVer) etag object (r_size r) now))
                        (Raw goBuf) option_nosync;
               releaseConn kc;
               case err of
                 Some e \<Rightarrow> State_Monad.return (Inl e)
               | None \<Rightarrow> do {
                   now \<leftarrow> time_Now E;
                   etag \<leftarrow> MD5CurrentHexString E r';
                   State_Monad.return (Inr (ObjectInfo0\<lparr>oi_Bucket := bucket, oi_Name := object,
                     oi_ModTime := now, oi_Size := r_size r, oi_ETag := etag\<rparr>))
                 }
             })
         }
       }
     }"

definition PutObject ::
  "('d, 'm) env \<Rightarrow> string \<Rightarrow> string \<Rightarrow> Reader \<Rightarrow> ObjectOptions \<Rightarrow> ('d, 'm, error + ObjectInfo) go" where
  "PutObject E bucket object r opts =
     do {
       err \<leftarrow> checkPutObjectArgs E bucket object (r_size r);
       case err of Some e \<Rightarrow> State_Monad.return (Inl e) | None \<Rightarrow> do {
         lerr \<leftarrow> ns_GetLock E bucket object;
         case lerr of Some e \<Rightarrow> State_Monad.return (Inl e) | None \<Rightarrow> do {
           activeIO 1;
           res \<leftarrow> putObject E bucket object r opts;
           activeIO (- 1);
           ns_Unlock E bucket object;
           State_Monad.return res
         }
       }
     }"

section \<open>Reading a whole object\<close>

text \<open>\<^verbatim>\<open>getObject\<close>: the bytes written to the writer, or the error.\<close>

definition getObject ::
  "('d, 'm) env \<Rightarrow> string \<Rightarrow> string \<Rightarrow> int \<Rightarrow> int \<Rightarrow> ('d, 'm, error + blob) go" where
  "getObject E bucket object offset len =
     do {
       s \<leftarrow> statBucketDir E bucket;
       case s of
         Inl e \<Rightarrow> State_Monad.return (Inl (the (toObjectErr (Some e) [bucket])))
       | Inr _ \<Rightarrow>
         if offset < 0 then State_Monad.return (Inl (the (toObjectErr (Some (Storage errUnexpected)) [bucket, object])))
         else if HasSuffix object SlashSeparator then State_Monad.return (Inr (Raw []))
         else do {
           kineticMutex_Lock;
           kc \<leftarrow> getConn;
           modify (\<lambda>w. w\<lparr>w_pool := set_client kc (\<lambda>c. c\<lparr>cl_Key := bucket @ ''/'' @ object\<rparr>) (w_pool w)\<rparr>);
           (cvalue, err) \<leftarrow> kc_CGet E (bucket @ ''/'' @ object) (- 1) option_nosync 0 (- 1);
           releaseConn kc;
           if err \<noteq> None then do {
             kineticMutex_Unlock;
             State_Monad.return (Inl (the (toObjectErr (Some (Storage errFileNotFound)) [bucket, object])))
           } else (let sz = (case cvalue of Some v \<Rightarrow> int (blob_size E v) | None \<Rightarrow> 0);
                       len = (if len < 0 then sz - offset else len)
             in if offset > sz \<or> offset + len > sz then do {
                  kineticMutex_Unlock;
                  State_Monad.return (Inl (Request (InvalidRange offset len sz)))
                } else do {
                  kineticMutex_Unlock;
                  State_Monad.return (Inr (case cvalue of Some v \<Rightarrow> v | None \<Rightarrow> Raw []))
                })
         }
     }"

definition GetObject ::
  "('d, 'm) env \<Rightarrow> string \<Rightarrow> string \<Rightarrow> int \<Rightarrow> int \<Rightarrow> ('d, 'm, error + blob) go" where
  "GetObject E bucket object offset len =
     (case checkGetObjArgs (e_valid_bucket E) bucket object of
        Some e \<Rightarrow> State_Monad.return (Inl e)
      | None \<Rightarrow> do {
          lerr \<leftarrow> ns_GetRLock E bucket object;
          case lerr of Some e \<Rightarrow> State_Monad.return (Inl e) | None \<Rightarrow> do {
            activeIO 1;
            r \<leftarrow> getObject E bucket object offset len;
            activeIO (- 1);
            ns_RUnlock E bucket object;
            State_Monad.return r
          }
        })"

section \<open>Deleting\<close>

text \<open>The loop over the parts of a multipart object; the errors of its deletions are ignored.\<close>

fun delete_object_parts ::
  "('d, 'm) env \<Rightarrow> string \<Rightarrow> string \<Rightarrow> string \<Rightarrow> ObjectPartInfo list \<Rightarrow> ('d, 'm, unit) go" where
  "delete_object_parts E bucket object version [] = State_Monad.return ()"
| "delete_object_parts E bucket object version (part # parts) =
     do {
       kc_Delete E (part_key bucket object version (op_Number part) (op_ETag part) (op_ActualSize part)) option;
       delete_object_parts E bucket object version parts
     }"

text \<open>The part of \<^verbatim>\<open>DeleteObject\<close> inside its locks.\<close>

definition DeleteObject_body :: "('d, 'm) env \<Rightarrow> string \<Rightarrow> string \<Rightarrow> ('d, 'm, error option) go" where
  "DeleteObject_body E bucket object =
     (let key = bucket @ SlashSeparator @ object in
      do {
        kineticMutex_Lock;
        kc \<leftarrow> getConn;
        (cvalue, err) \<leftarrow> kc_CGetMeta E key option;
        if err \<noteq> None then do {
          releaseConn kc;
          kineticMutex_Unlock;
          State_Monad.return (Some (Storage errFileNotFound))
        } else if (case cvalue of Some value \<Rightarrow> \<not> fits16 E value | None \<Rightarrow> False) then
          State_Monad.return (Some slicePanic)
        else (let fsMeta = (case cvalue of
                   Some value \<Rightarrow> fst (json_Unmarshal (e_json E) value fsMetaV1_0)
                 | None \<Rightarrow> fsMetaV1_0) in
          if length (fm_Parts fsMeta) = 0 then do {
            err \<leftarrow> kc_Delete E key option;
            if err \<noteq> None then do {
              releaseConn kc;
              kineticMutex_Unlock;
              State_Monad.return err
            } else do {
              err \<leftarrow> kc_Delete E key option;
              if err \<noteq> None then do {
                releaseConn kc;
                kineticMutex_Unlock;
                State_Monad.return err
              } else do {
                releaseConn kc;
                kineticMutex_Unlock;
                State_Monad.return None
              }
            }
          } else do {
            delete_object_parts E bucket object (mget (fm_Meta fsMeta) ''version'') (fm_Parts fsMeta);
            err \<leftarrow> kc_Delete E key option;
            releaseConn kc;
            kineticMutex_Unlock;
            State_Monad.return err
          })
      })"

definition DeleteObject :: "('d, 'm) env \<Rightarrow> string \<Rightarrow> string \<Rightarrow> ('d, 'm, error option) go" where
  "DeleteObject E bucket object =
     do {
       lerr \<leftarrow> ns_GetLock E bucket object;
       case lerr of Some e \<Rightarrow> State_Monad.return (Some e) | None \<Rightarrow> do {
         activeIO 1;
         r \<leftarrow> (case checkDelObjArgs (e_valid_bucket E) bucket object of
                 Some e \<Rightarrow> State_Monad.return (Some e)
               | None \<Rightarrow> DeleteObject_body E bucket object);
         activeIO (- 1);
         ns_Unlock E bucket object;
         State_Monad.return r
       }
     }"

fun DeleteObjects :: "('d, 'm) env \<Rightarrow> string \<Rightarrow> string list \<Rightarrow> ('d, 'm, error option list) go" where
  "DeleteObjects E bucket [] = State_Monad.return []"
| "DeleteObjects E bucket (object # objects) =
     do {
       err \<leftarrow> DeleteObject E bucket object;
       errs \<leftarrow> DeleteObjects E bucket objects;
       State_Monad.return (err # errs)
     }"

section \<open>Behaviour\<close>

lemma makeKey_eq: "bucket @ ''/'' @ object = makeKey bucket object"
  "bucket @ CHR ''/'' # object = makeKey bucket object"
  by (simp_all add: makeKey_def)

lemma makeKey_cstring [simp]: "nul_free b \<Longrightarrow> nul_free x \<Longrightarrow> C_CString (makeKey b x) = makeKey b x"
  by (simp add: nul_free_def makeKey_def)

lemma run_MD5Current [run]:
  "r_md5Hash r = Some h \<Longrightarrow> e_md5 E h \<noteq> [] \<Longrightarrow>
   run_state (MD5CurrentHexString E r) w = (hex_EncodeToString (e_md5 E h), w)"
  by (simp add: MD5CurrentHexString_def MD5Current_def)

text \<open>The stored metadata of an object the layer wrote: what \<^verbatim>\<open>Unmarshal\<close> gives back.\<close>

definition decoded :: "fsMetaV1 \<Rightarrow> fsMetaV1" where
  "decoded m = json_merge m fsMetaV1_0"

text \<open>What \<^verbatim>\<open>getObjectInfo\<close> makes of it.\<close>

definition object_info :: "('d, 'm) env \<Rightarrow> string \<Rightarrow> string \<Rightarrow> fsMetaV1 \<Rightarrow> ObjectInfo" where
  "object_info E b x m =
     KVInfoToObjectInfo (e_meta E) (decoded m) b x
       (Some ((kv_of_meta (decoded m))\<lparr>ki_hidden := is_hidden (fm_Meta (decoded m))\<rparr>))"

lemma decoded_simps [simp]:
  "fm_KoInfo (decoded m) = fm_KoInfo m" "fm_Parts (decoded m) = fm_Parts m"
  "fm_Version (decoded m) = fm_Version m"
  by (auto simp: decoded_def json_merge_def fsMetaV1_0_def)

lemma decoded_mget: "distinct (map fst (fm_Meta m)) \<Longrightarrow> mget (fm_Meta (decoded m)) k = mget (fm_Meta m) k"
  by (simp add: decoded_def json_merge_def fsMetaV1_0_def mget_mcopy mget_def [of "fm_Meta m"] split: option.split)

lemma distinct_mset: "distinct (map fst m) \<Longrightarrow> distinct (map fst (mset k v m))"
  by (rule distinct_update)

lemma distinct_fold_mset: "distinct (map fst dst) \<Longrightarrow> distinct (map fst (fold (\<lambda>(k, v). mset k v) src dst))"
  by (induction src arbitrary: dst) (auto simp: distinct_update split: prod.split)

lemma distinct_mcopy: "distinct (map fst dst) \<Longrightarrow> distinct (map fst (mcopy src dst))"
  unfolding mcopy_def by (rule distinct_fold_mset)

lemma put_meta_simps [simp]:
  "mget (fm_Meta (put_meta u v e x sz t)) ''version'' = v"
  "mget (fm_Meta (put_meta u v e x sz t)) ''etag'' = e"
  "mget (fm_Meta (put_meta u v e x sz t)) ''size'' = FormatInt sz"
  "fm_Parts (put_meta u v e x sz t) = []"
  "distinct (map fst (fm_Meta (put_meta u v e x sz t)))"
  by (simp_all add: put_meta_def newFSMetaV1_def fsMetaV1_0_def distinct_mcopy distinct_update)

text \<open>The version an object has, the empty string when there is none; and that nothing at a key
  makes \<^verbatim>\<open>currentVersion\<close> panic.\<close>

definition version_at :: "kstore \<Rightarrow> string \<Rightarrow> string" where
  "version_at s k = (case s k of Some (Json m, v) \<Rightarrow> mget (fm_Meta (decoded m)) ''version'' | _ \<Rightarrow> [])"

definition readable :: "('d, 'm) env \<Rightarrow> kstore \<Rightarrow> string \<Rightarrow> bool" where
  "readable E s k = (case s k of None \<Rightarrow> True | Some (m, v) \<Rightarrow> (\<exists>fm. m = Json fm) \<and> fits16 E m)"

text \<open>The metadata \<^verbatim>\<open>putObject\<close> writes, for a body whose MD5 is computed while it is read.\<close>

definition written_meta :: "('d, 'm) env \<Rightarrow> string \<Rightarrow> nat \<Rightarrow> string \<Rightarrow> Reader \<Rightarrow> ObjectOptions \<Rightarrow> fsMetaV1" where
  "written_meta E ver tick x r opts =
     put_meta (case oo_UserDefined opts of Some m \<Rightarrow> m | None \<Rightarrow> [])
       (newVersion ver) (hex_EncodeToString (e_md5 E [])) x (r_size r) (e_now E tick)"

text \<open>A body of its announced size, whose source reports the end of file in a read of its own.\<close>

definition plain_body :: "Reader \<Rightarrow> bool" where
  "plain_body r = (r_size r = int (length (r_src r)) \<and> r_size r \<le> blockSizeV1 \<and>
                   r_md5Hash r = Some [] \<and> \<not> r_eof_with_data r)"

definition bucket_at :: "('d, 'm) env \<Rightarrow> kstore \<Rightarrow> string \<Rightarrow> bool" where
  "bucket_at E s b = (\<exists>m v. s (bucket_key b) = Some (m, v) \<and> fits16 E m)"

text \<open>The names and sizes \<^verbatim>\<open>checkPutObjectArgs\<close> lets pass.\<close>

definition putable :: "string \<Rightarrow> string \<Rightarrow> int \<Rightarrow> bool" where
  "putable b x sz = (checkObjectNameForLengthAndSlash b x = None \<and> x \<noteq> [] \<and>
     \<not> (HasSuffix x SlashSeparator \<and> sz \<noteq> 0) \<and> IsValidObjectPrefix x)"

text \<open>The keys of the parts an object's metadata lists.\<close>

definition part_keys :: "string \<Rightarrow> string \<Rightarrow> string \<Rightarrow> ObjectPartInfo list \<Rightarrow> string set" where
  "part_keys b x ver ps = (\<lambda>p. C_CString (part_key b x ver (op_Number p) (op_ETag p) (op_ActualSize p))) ` set ps"

lemma plain_body_read:
  assumes "plain_body r"
  shows "\<exists>r'. readToBuffer md5 sha256 r (nat (r_size r)) = (r_src r, r', None) \<and> r_md5Hash r' = Some (r_src r)"
proof -
  have "readToBuffer md5 sha256 r (length (r_src r)) =
      (r_src r, if length (r_src r) = 0 then r else Reader_take (length (r_src r)) r, None)"
    using assms by (intro readToBuffer_unverified) (auto simp: plain_body_def)
  then show ?thesis using assms by (auto simp: plain_body_def Reader_take_def)
qed

lemma stored_etag:
  assumes "\<not> HasSuffix x SlashSeparator" "''md5Sum'' \<notin> fst ` set um"
  shows "oi_ETag (object_info E b x (put_meta um v e x' sz t)) = e"
proof -
  let ?m = "put_meta um v e x' sz t"
  have "''md5Sum'' \<notin> fst ` set (fm_Meta ?m)" using assms(2) by (simp add: put_meta_def keys_mset keys_mcopy)
  then have "''md5Sum'' \<notin> fst ` set (fm_Meta (decoded ?m))"
    by (simp add: decoded_def json_merge_def keys_mcopy fsMetaV1_0_def)
  then have "map_of (guess_meta (e_meta E) x (fm_Meta (decoded ?m))) ''md5Sum'' = None"
    using assms(1) by (simp add: guess_meta_def Let_def map_of_eq_None_iff keys_mset)
  moreover have "mget (guess_meta (e_meta E) x (fm_Meta (decoded ?m))) ''etag'' = e"
    using assms(1) by (simp add: guess_meta_def Let_def decoded_mget)
  ultimately show ?thesis
    by (simp add: object_info_def KVInfoToObjectInfo_def extractETag_def Let_def)
qed

context kinetic_layer
begin

lemma run_currentVersion_miss:
  assumes "ready w" "store w (C_CString k) = None"
  shows "run_state (currentVersion E k) w = (([], Some (Kinetic errKineticNotFound)), touched w)"
  using assms CGetMeta_miss' [of "w_drive w" k option]
  by (auto simp: currentVersion_def kc_defs run ready_defs)

lemma run_currentVersion_hit:
  assumes "ready w" "store w (C_CString k) = Some (Json m, v)" "fits16 E (Json m)"
  shows "run_state (currentVersion E k) w = ((mget (fm_Meta (decoded m)) ''version'', None), touched w)"
  using assms CGetMeta_hit [of "w_drive w" k "Json m" v option]
  by (simp add: currentVersion_def kc_defs run ready_defs json_Unmarshal_def decoded_def)

lemma run_getObjectInfo_hit:
  assumes "ready w" "b \<noteq> []" "store w (C_CString (makeKey b x)) = Some (Json m, v)" "fits16 E (Json m)"
  shows "run_state (getObjectInfo E b x) w =
           (Inr (object_info E b x m), touched w)"
  using assms CGetMeta_hit [of "w_drive w" "makeKey b x" "Json m" v option]
  by (simp add: getObjectInfo_def makeKey_eq kc_defs run ready_defs json_Unmarshal_def decoded_def Let_def
      object_info_def)

lemma run_getObjectInfo_miss:
  assumes "ready w" "b \<noteq> []" "store w (C_CString (makeKey b x)) = None"
  shows "run_state (getObjectInfo E b x) w = (Inl (Storage errFileNotFound), touched w)"
  using assms CGetMeta_miss' [of "w_drive w" "makeKey b x" option]
  by (auto simp: getObjectInfo_def makeKey_eq kc_defs run ready_defs)

text \<open>Metadata of more than 64 KiB: the panic leaves the global mutex locked.\<close>

lemma run_getObjectInfo_panic:
  assumes "ready w" "b \<noteq> []" "store w (C_CString (makeKey b x)) = Some (m, v)" "\<not> fits16 E m"
  shows "run_state (getObjectInfo E b x) w = (Inl slicePanic, (touched w)\<lparr>w_kineticMutex := True\<rparr>)"
  using assms CGetMeta_hit [of "w_drive w" "makeKey b x" m v option]
  by (simp add: getObjectInfo_def makeKey_eq kc_defs run ready_defs Let_def)

lemma run_currentVersion:
  assumes "ready w" "readable E (store w) (C_CString k)"
  shows "\<exists>e. run_state (currentVersion E k) w = ((version_at (store w) (C_CString k), e), touched w) \<and> e \<noteq> Some slicePanic"
proof (cases "store w (C_CString k)")
  case None
  then show ?thesis using run_currentVersion_miss [OF assms(1)] by (simp add: version_at_def)
next
  case (Some mv)
  then obtain fm v where "store w (C_CString k) = Some (Json fm, v)" "fits16 E (Json fm)"
    using assms(2) by (cases mv) (auto simp: readable_def)
  then show ?thesis using run_currentVersion_hit [OF assms(1)] by (simp add: version_at_def)
qed

lemma CGetMeta_codes:
  "\<exists>c e. CGetMeta (e_ops E) k acmd d = (c, e) \<and> (e = None \<or> e = Some (Kinetic errKineticNotFound))"
  by (auto simp: CGetMeta_def CGet_def Let_def split: prod.split)

lemma run_putObject:
  assumes "ready w" "readable E (store w) (C_CString (makeKey b x))" "plain_body r"
    and md5: "\<forall>h. e_md5 E h \<noteq> []"
    and put: "CPut (e_ops E) (makeKey b x)
        (Json (written_meta E (version_at (store w) (C_CString (makeKey b x))) (w_tick w) x r opts))
        (Raw (r_src r)) option_nosync (w_drive w) = (e, d')"
  shows "run_state (putObject E b x r opts) w =
     (case e of
        Some err \<Rightarrow> (Inl err, touched (w\<lparr>w_drive := d', w_tick := w_tick w + 1\<rparr>))
      | None \<Rightarrow> (Inr (ObjectInfo0\<lparr>oi_Bucket := b, oi_Name := x, oi_ModTime := e_now E (w_tick w + 1),
                   oi_Size := r_size r, oi_ETag := hex_EncodeToString (e_md5 E (r_src r))\<rparr>),
                 touched (w\<lparr>w_drive := d', w_tick := w_tick w + 2\<rparr>)))"
proof -
  have tw: "ready (touched w)" "w_pool (touched w) = touch (w_pool w)" "pool_free (w_pool w)"
    "pool_free (touch (w_pool w))"
    using assms(1) by (simp_all add: ready_defs pool_touch)
  obtain ve where cv: "run_state (currentVersion E (makeKey b x)) (touched w) =
      ((version_at (store w) (C_CString (makeKey b x)), ve), touched w)" "ve \<noteq> Some slicePanic"
    using run_currentVersion [of "touched w" "makeKey b x"] assms(1,2) by auto
  have r: "\<not> r_size r < - 1" "\<not> r_size r < 0" "r_size r \<le> blockSizeV1" "r_md5Hash r = Some []"
    using assms(3) by (auto simp: plain_body_def)
  obtain r' where rd: "readToBuffer (e_md5 E) (e_sha256 E) r (nat (r_size r)) = (r_src r, r', None)"
    "r_md5Hash r' = Some (r_src r)"
    using plain_body_read [OF assms(3)] by blast
  obtain c ce where ce: "CGetMeta (e_ops E) (bucket_key b) option_nosync (w_drive w) = (c, ce)"
    "ce = None \<or> ce = Some (Kinetic errKineticNotFound)" using CGetMeta_codes by blast
  note put' = put [unfolded written_meta_def]
  show ?thesis
    using ce(2) md5 r cv(2) put' assms(1)
    by (cases e; elim disjE)
      (simp_all add: putObject_def makeKey_eq cv(1) [unfolded touched_def] rd tw kc_defs run ready_def
        ce(1) touched_def)
qed

text \<open>A bucket is there when its key is, with metadata the layer can look at.\<close>

lemma run_checkBucketExist:
  assumes "ready w" "nul_free b" "fresh (w_ns w) b []" "bucket_at E (store w) b"
  shows "run_state (checkBucketExist E b) w = (None, keyed (bucket_key b) w)"
  using assms run_GetBucketInfo_hit [of w b] by (auto simp: checkBucketExist_def bucket_at_def)

lemma run_checkBucketExist_miss:
  assumes "ready w" "nul_free b" "fresh (w_ns w) b []" "store w (bucket_key b) = None"
  shows "run_state (checkBucketExist E b) w = (Some (Name (BucketNotFound b)), keyed (bucket_key b) w)"
  using assms run_GetBucketInfo_miss [of w b] by (simp add: checkBucketExist_def)

lemma run_checkPutObjectArgs:
  assumes "ready w" "nul_free b" "fresh (w_ns w) b []" "bucket_at E (store w) b" "putable b x sz"
  shows "run_state (checkPutObjectArgs E b x sz) w = (None, keyed (bucket_key b) w)"
  using assms run_checkBucketExist [of w b] by (simp add: checkPutObjectArgs_def putable_def)

text \<open>Whatever the state, a name that may not be written is refused, and nothing reaches the drive.\<close>

lemma run_PutObject_refused:
  assumes "ready w" "nul_free b" "fresh (w_ns w) b []"
    "\<not> (bucket_at E (store w) b \<and> putable b x (r_size r))" "bucket_at E (store w) b \<or> store w (bucket_key b) = None"
  shows "\<exists>e. run_state (PutObject E b x r opts) w = (Inl e, keyed (bucket_key b) w)"
  using assms run_checkBucketExist [of w b] run_checkBucketExist_miss [of w b]
  by (auto simp: PutObject_def checkPutObjectArgs_def putable_def split: option.splits)

lemma run_PutObject:
  assumes "ready w" "nul_free b" "fresh (w_ns w) b []" "fresh (w_ns w) b x"
    "bucket_at E (store w) b" "putable b x (r_size r)"
    "readable E (store w) (C_CString (makeKey b x))" "plain_body r" "\<forall>h. e_md5 E h \<noteq> []"
    and put: "CPut (e_ops E) (makeKey b x)
        (Json (written_meta E (version_at (store w) (C_CString (makeKey b x))) (w_tick w) x r opts))
        (Raw (r_src r)) option_nosync (w_drive w) = (e, d')"
  shows "\<exists>w'. run_state (PutObject E b x r opts) w =
     (case e of
        Some err \<Rightarrow> Inl err
      | None \<Rightarrow> Inr (ObjectInfo0\<lparr>oi_Bucket := b, oi_Name := x, oi_ModTime := e_now E (w_tick w + 1),
                   oi_Size := r_size r, oi_ETag := hex_EncodeToString (e_md5 E (r_src r))\<rparr>), w')
     \<and> settled w w' \<and> w_drive w' = d'"
proof -
  let ?w = "(keyed (bucket_key b) w)\<lparr>w_ns := locked (e_lrw E) (w_ns w) b x False, w_activeIO := w_activeIO w + 1\<rparr>"
  have "ready ?w" using assms(1) by simp
  note facts = this assms(7-9) put
  show ?thesis
    using run_putObject [of ?w b x r opts e d'] facts assms(1-6)
    by (auto simp: PutObject_def run_checkPutObjectArgs run run_ns_GetLock run_ns_Unlock settled_def split: option.split)
qed

lemma run_getObjectInfoWithLock:
  assumes "ready w" "fresh (w_ns w) b x" "checkGetObjArgs (e_valid_bucket E) b x = None"
    "nul_free b" "b \<noteq> []" "bucket_at E (store w) b"
    and m: "store w (C_CString (makeKey b x)) = Some (Json m, v)" "fits16 E (Json m)"
  shows "run_state (getObjectInfoWithLock E b x) w =
           (Inr (object_info E b x m), touched w)"
proof -
  let ?w = "w\<lparr>w_ns := locked (e_lrw E) (w_ns w) b x True\<rparr>"
  obtain bm bv where b: "store w (bucket_key b) = Some (bm, bv)" "fits16 E bm"
    using assms(6) by (auto simp: bucket_at_def)
  show ?thesis
    using run_statBucketDir_hit [of ?w b bm bv] run_getObjectInfo_hit [of "touched ?w" b x m v] b assms
    by (simp add: getObjectInfoWithLock_def run run_ns_GetRLock run_ns_RUnlock) (simp add: touched_def)
qed

lemma run_getObjectInfoWithLock_miss:
  assumes "ready w" "fresh (w_ns w) b x" "checkGetObjArgs (e_valid_bucket E) b x = None"
    "nul_free b" "b \<noteq> []" "bucket_at E (store w) b" "store w (C_CString (makeKey b x)) = None"
  shows "run_state (getObjectInfoWithLock E b x) w = (Inl (Storage errFileNotFound), touched w)"
proof -
  let ?w = "w\<lparr>w_ns := locked (e_lrw E) (w_ns w) b x True\<rparr>"
  obtain bm bv where b: "store w (bucket_key b) = Some (bm, bv)" "fits16 E bm"
    using assms(6) by (auto simp: bucket_at_def)
  show ?thesis
    using run_statBucketDir_hit [of ?w b bm bv] run_getObjectInfo_miss [of "touched ?w" b x] b assms
    by (simp add: getObjectInfoWithLock_def run run_ns_GetRLock run_ns_RUnlock) (simp add: touched_def)
qed

lemma run_GetObjectInfo:
  assumes "ready w" "fresh (w_ns w) b x" "checkGetObjArgs (e_valid_bucket E) b x = None"
    "nul_free b" "b \<noteq> []" "bucket_at E (store w) b"
  shows "store w (C_CString (makeKey b x)) = Some (Json m, v) \<Longrightarrow> fits16 E (Json m) \<Longrightarrow>
     run_state (GetObjectInfo E b x) w =
           (Inr (object_info E b x m), touched w)"
    and "store w (C_CString (makeKey b x)) = None \<Longrightarrow>
     run_state (GetObjectInfo E b x) w = (Inl (Name (ObjectNotFound b x)), touched w)"
  using run_getObjectInfoWithLock [OF assms] run_getObjectInfoWithLock_miss [OF assms]
  by (simp_all add: GetObjectInfo_def map_err_def toObjectErr_def)

text \<open>Reading an object back: any range inside the object is answered with the whole of it.\<close>

lemma run_getObject:
  assumes "ready w" "nul_free b" "bucket_at E (store w) b" "\<not> HasSuffix x SlashSeparator" "0 \<le> off"
    and v: "store w (C_CString (makeKey b x)) = Some (m, v)" "v \<noteq> Raw []"
  shows "\<exists>w'. run_state (getObject E b x off len) w =
     (let sz = int (blob_size E v); n = (if len < 0 then sz - off else len) in
      if off > sz \<or> off + n > sz then Inl (Request (InvalidRange off n sz)) else Inr v, w')
     \<and> settled w w' \<and> w_drive w' = w_drive w"
proof -
  obtain bm bv where b: "store w (bucket_key b) = Some (bm, bv)" "fits16 E bm"
    using assms(3) by (auto simp: bucket_at_def)
  have get: "CGet (e_ops E) (makeKey b x) (- 1) option_nosync 0 (- 1) (w_drive w) = (Some v, None)"
    by (rule CGet_whole [OF v(1)]) (simp_all add: v(2) option_nosync_def option_def)
  have p: "pool_free (w_pool w)" using assms(1) by (simp add: ready_def)
  show ?thesis
    using run_statBucketDir_hit [OF assms(1,2) b] assms get pool_touch [OF p] set_client_inv
    by (auto simp: getObject_def makeKey_eq kc_defs run ready_def touched_def settled_def Let_def)
qed

lemma run_getObject_miss:
  assumes "ready w" "nul_free b" "bucket_at E (store w) b" "\<not> HasSuffix x SlashSeparator" "0 \<le> off"
    and "store w (C_CString (makeKey b x)) = None"
  shows "\<exists>w'. run_state (getObject E b x off len) w = (Inl (Name (ObjectNotFound b x)), w')
     \<and> settled w w' \<and> w_drive w' = w_drive w"
proof -
  obtain bm bv where b: "store w (bucket_key b) = Some (bm, bv)" "fits16 E bm"
    using assms(3) by (auto simp: bucket_at_def)
  obtain c where get: "CGet (e_ops E) (makeKey b x) (- 1) option_nosync 0 (- 1) (w_drive w) =
      (c, Some (Kinetic errKineticNotFound))"
    using CGet_miss [OF assms(6), of option_nosync "- 1" "- 1"]
    by (cases "CGet (e_ops E) (makeKey b x) (- 1) option_nosync 0 (- 1) (w_drive w)")
      (auto simp: option_nosync_def option_def)
  have p: "pool_free (w_pool w)" using assms(1) by (simp add: ready_def)
  show ?thesis
    using run_statBucketDir_hit [OF assms(1,2) b] assms get pool_touch [OF p] set_client_inv
    by (auto simp: getObject_def makeKey_eq kc_defs run ready_def touched_def settled_def Let_def toObjectErr_def)
qed

lemma run_GetObject_wrap:
  assumes "ready w" "fresh (w_ns w) b x" "checkGetObjArgs (e_valid_bucket E) b x = None"
    and "\<And>w. ready w \<Longrightarrow> w_drive w = d \<Longrightarrow> \<exists>w'. run_state (getObject E b x off len) w = (r, w')
           \<and> settled w w' \<and> w_drive w' = w_drive w" "w_drive w = d"
  shows "\<exists>w'. run_state (GetObject E b x off len) w = (r, w') \<and> settled w w' \<and> w_drive w' = w_drive w"
proof -
  let ?w = "w\<lparr>w_ns := locked (e_lrw E) (w_ns w) b x True, w_activeIO := w_activeIO w + 1\<rparr>"
  obtain w' where "run_state (getObject E b x off len) ?w = (r, w')" "settled ?w w'" "w_drive w' = w_drive w"
    using assms(4) [of ?w] assms(1,5) by auto
  then show ?thesis
    using assms(1-3) by (auto simp: GetObject_def run run_ns_GetRLock run_ns_RUnlock settled_def)
qed

lemma run_GetObject:
  assumes "ready w" "fresh (w_ns w) b x" "checkGetObjArgs (e_valid_bucket E) b x = None"
    "nul_free b" "bucket_at E (store w) b" "\<not> HasSuffix x SlashSeparator" "0 \<le> off"
    and v: "store w (C_CString (makeKey b x)) = Some (m, v)" "v \<noteq> Raw []"
  shows "\<exists>w'. run_state (GetObject E b x off len) w =
     (let sz = int (blob_size E v); n = (if len < 0 then sz - off else len) in
      if off > sz \<or> off + n > sz then Inl (Request (InvalidRange off n sz)) else Inr v, w')
     \<and> settled w w' \<and> w_drive w' = w_drive w"
  using assms by (intro run_GetObject_wrap [OF assms(1-3) _ refl] run_getObject) auto

lemma run_GetObject_miss:
  assumes "ready w" "fresh (w_ns w) b x" "checkGetObjArgs (e_valid_bucket E) b x = None"
    "nul_free b" "bucket_at E (store w) b" "\<not> HasSuffix x SlashSeparator" "0 \<le> off"
    and "store w (C_CString (makeKey b x)) = None"
  shows "\<exists>w'. run_state (GetObject E b x off len) w = (Inl (Name (ObjectNotFound b x)), w')
     \<and> settled w w' \<and> w_drive w' = w_drive w"
  using assms by (intro run_GetObject_wrap [OF assms(1-3) _ refl] run_getObject_miss) auto

text \<open>Deleting. A deletion the drive refuses leaves the key, one it reports done removes it.\<close>

lemma run_kc_Delete:
  assumes "w_skinny w" "cDelete (e_ops E) k opts (w_drive w) = (e, d')"
  shows "run_state (kc_Delete E k opts) w = (e, w\<lparr>w_drive := d'\<rparr>)"
  using assms by (simp add: kc_Delete_def run Client_Delete_def)

lemma run_delete_object_parts:
  assumes "w_skinny w"
  shows "\<exists>d'. run_state (delete_object_parts E b x ver ps) w = ((), w\<lparr>w_drive := d'\<rparr>) \<and>
     (\<forall>k. contents d' k = store w k \<or> (k \<in> part_keys b x ver ps \<and> contents d' k = None))"
  using assms
proof (induction ps arbitrary: w)
  case Nil
  show ?case by (rule exI [of _ "w_drive w"]) simp
next
  case (Cons p ps)
  let ?k = "part_key b x ver (op_Number p) (op_ETag p) (op_ActualSize p)"
  obtain e d1 where d1: "cDelete (e_ops E) ?k option (w_drive w) = (e, d1)" by fastforce
  obtain d' where "run_state (delete_object_parts E b x ver ps) (w\<lparr>w_drive := d1\<rparr>) = ((), w\<lparr>w_drive := d'\<rparr>)"
    "\<forall>k. contents d' k = contents d1 k \<or> (k \<in> part_keys b x ver ps \<and> contents d' k = None)"
    using Cons.IH [of "w\<lparr>w_drive := d1\<rparr>"] Cons.prems by auto
  note ih = this
  have "contents d' k = store w k \<or> (k \<in> part_keys b x ver (p # ps) \<and> contents d' k = None)" for k
    using ih(2) [THEN spec, of k] cDelete_contents [OF d1]
    by (cases "k = C_CString ?k"; cases e) (auto simp: part_keys_def)
  then show ?case
    using run_kc_Delete [OF Cons.prems d1] ih(1) by (intro exI [of _ d']) simp
qed

lemma run_DeleteObject_body_miss:
  assumes "ready w" "store w (C_CString (makeKey b x)) = None"
  shows "run_state (DeleteObject_body E b x) w = (Some (Storage errFileNotFound), touched w)"
  using assms CGetMeta_miss' [of "w_drive w" "makeKey b x" option]
  by (auto simp: DeleteObject_body_def makeKey_eq Let_def kc_defs run ready_defs)

lemma run_DeleteObject_body_plain:
  assumes "ready w" "store w (C_CString (makeKey b x)) = Some (Json m, v)" "fits16 E (Json m)" "fm_Parts m = []"
  shows "\<exists>e w'. run_state (DeleteObject_body E b x) w = (e, w') \<and> settled w w' \<and>
     (e = None \<longrightarrow> store w' = (store w)(C_CString (makeKey b x) := None)) \<and>
     (store w' = store w \<or> store w' = (store w)(C_CString (makeKey b x) := None))"
proof -
  obtain e1 d1 e2 d2 where d: "cDelete (e_ops E) (makeKey b x) option (w_drive w) = (e1, d1)"
    "cDelete (e_ops E) (makeKey b x) option d1 = (e2, d2)" by fastforce
  note c = cDelete_contents [OF d(1)] cDelete_contents [OF d(2)]
  show ?thesis
    using assms d c CGetMeta_hit [OF assms(2), of option] pool_touch
    by (cases e1; cases e2)
      (simp_all add: DeleteObject_body_def makeKey_eq Let_def kc_defs Client_Delete_def run ready_def
        settled_def json_Unmarshal_def decoded_def [symmetric])
qed

lemma run_DeleteObject_body_parts:
  assumes "ready w" "store w (C_CString (makeKey b x)) = Some (Json m, v)" "fits16 E (Json m)" "fm_Parts m \<noteq> []"
  shows "\<exists>e w'. run_state (DeleteObject_body E b x) w = (e, w') \<and> settled w w' \<and>
     (e = None \<longrightarrow> store w' (C_CString (makeKey b x)) = None) \<and>
     (\<forall>k. store w' k = store w k \<or>
        (k \<in> insert (C_CString (makeKey b x)) (part_keys b x (mget (fm_Meta (decoded m)) ''version'') (fm_Parts m)) \<and>
         store w' k = None))"
proof -
  let ?ver = "mget (fm_Meta (decoded m)) ''version''"
  let ?w = "w\<lparr>w_kineticMutex := True, w_pool := taken (w_pool w)\<rparr>"
  obtain d1 where d1: "run_state (delete_object_parts E b x ?ver (fm_Parts m)) ?w = ((), ?w\<lparr>w_drive := d1\<rparr>)"
    "\<And>k. contents d1 k = store w k \<or> (k \<in> part_keys b x ?ver (fm_Parts m) \<and> contents d1 k = None)"
    using run_delete_object_parts [of ?w b x ?ver "fm_Parts m"] assms(1) by (auto simp: ready_def)
  obtain e d2 where d2: "cDelete (e_ops E) (makeKey b x) option d1 = (e, d2)" by fastforce
  have body: "run_state (DeleteObject_body E b x) w = (e, touched (w\<lparr>w_drive := d2\<rparr>))"
    using assms d1(1) d2 CGetMeta_hit [OF assms(2), of option]
    by (simp add: DeleteObject_body_def makeKey_eq Let_def kc_defs Client_Delete_def run ready_def
        touched_def json_Unmarshal_def decoded_def [symmetric])
  have "contents d2 k = store w k \<or>
      (k \<in> insert (C_CString (makeKey b x)) (part_keys b x ?ver (fm_Parts m)) \<and> contents d2 k = None)" for k
    using d1(2) [of k] cDelete_contents [OF d2] by (cases "k = C_CString (makeKey b x)"; cases e) auto
  then show ?thesis
    using body assms(1) cDelete_contents [OF d2] by (simp add: settled_def)
qed

lemma run_DeleteObject:
  assumes "ready w" "fresh (w_ns w) b x" "checkDelObjArgs (e_valid_bucket E) b x = None"
    and "\<And>w1. ready w1 \<Longrightarrow> w_drive w1 = w_drive w \<Longrightarrow>
      \<exists>e w'. run_state (DeleteObject_body E b x) w1 = (e, w') \<and> settled w1 w' \<and> P e (store w')"
  shows "\<exists>e w'. run_state (DeleteObject E b x) w = (e, w') \<and> settled w w' \<and> P e (store w')"
proof -
  let ?w = "w\<lparr>w_ns := locked (e_lrw E) (w_ns w) b x False, w_activeIO := w_activeIO w + 1\<rparr>"
  obtain e w' where "run_state (DeleteObject_body E b x) ?w = (e, w')" "settled ?w w'" "P e (store w')"
    using assms(4) [of ?w] assms(1) by auto
  then show ?thesis
    using assms(1-3) by (auto simp: DeleteObject_def run run_ns_GetLock run_ns_Unlock settled_def)
qed

lemma run_DeleteObject_miss:
  assumes "ready w" "fresh (w_ns w) b x" "checkDelObjArgs (e_valid_bucket E) b x = None"
    "store w (C_CString (makeKey b x)) = None"
  shows "\<exists>w'. run_state (DeleteObject E b x) w = (Some (Storage errFileNotFound), w') \<and> settled w w' \<and>
     store w' = store w"
  using run_DeleteObject [OF assms(1-3), of "\<lambda>e s. e = Some (Storage errFileNotFound) \<and> s = store w"]
    run_DeleteObject_body_miss assms(4) settled_touched by fastforce

lemma run_DeleteObject_plain:
  assumes "ready w" "fresh (w_ns w) b x" "checkDelObjArgs (e_valid_bucket E) b x = None"
    "store w (C_CString (makeKey b x)) = Some (Json m, v)" "fits16 E (Json m)" "fm_Parts m = []"
  shows "\<exists>e w'. run_state (DeleteObject E b x) w = (e, w') \<and> settled w w' \<and>
     (e = None \<longrightarrow> store w' = (store w)(C_CString (makeKey b x) := None)) \<and>
     (store w' = store w \<or> store w' = (store w)(C_CString (makeKey b x) := None))"
proof (rule run_DeleteObject [OF assms(1-3), where P = "\<lambda>e s. (e = None \<longrightarrow> s = (store w)(C_CString (makeKey b x) := None)) \<and>
     (s = store w \<or> s = (store w)(C_CString (makeKey b x) := None))"], goal_cases)
  case (1 w1)
  then show ?case using run_DeleteObject_body_plain [OF 1(1), of b x m v] assms(4-6) by simp
qed

lemma run_DeleteObject_parts:
  assumes "ready w" "fresh (w_ns w) b x" "checkDelObjArgs (e_valid_bucket E) b x = None"
    "store w (C_CString (makeKey b x)) = Some (Json m, v)" "fits16 E (Json m)" "fm_Parts m \<noteq> []"
  shows "\<exists>e w'. run_state (DeleteObject E b x) w = (e, w') \<and> settled w w' \<and>
     (e = None \<longrightarrow> store w' (C_CString (makeKey b x)) = None) \<and>
     (\<forall>k. store w' k = store w k \<or>
        (k \<in> insert (C_CString (makeKey b x)) (part_keys b x (mget (fm_Meta (decoded m)) ''version'') (fm_Parts m)) \<and>
         store w' k = None))"
proof (rule run_DeleteObject [OF assms(1-3), where P = "\<lambda>e s. (e = None \<longrightarrow> s (C_CString (makeKey b x)) = None) \<and>
     (\<forall>k. s k = store w k \<or>
        (k \<in> insert (C_CString (makeKey b x)) (part_keys b x (mget (fm_Meta (decoded m)) ''version'') (fm_Parts m)) \<and>
         s k = None))"], goal_cases)
  case (1 w1)
  then show ?case using run_DeleteObject_body_parts [OF 1(1), of b x m v] assms(4-6) by simp
qed

end

context healthy_layer
begin

lemma run_delete_object_parts_all:
  assumes "w_skinny w"
  shows "\<exists>d'. run_state (delete_object_parts E b x ver ps) w = ((), w\<lparr>w_drive := d'\<rparr>) \<and>
     contents d' = store w |` (- part_keys b x ver ps)"
  using assms
proof (induction ps arbitrary: w)
  case Nil
  show ?case by (rule exI [of _ "w_drive w"]) (simp add: part_keys_def)
next
  case (Cons p ps)
  let ?k = "part_key b x ver (op_Number p) (op_ETag p) (op_ActualSize p)"
  obtain d1 where d1: "cDelete (e_ops E) ?k option (w_drive w) = (None, d1)"
    "contents d1 = (store w)(C_CString ?k := None)" using cDelete_total by blast
  obtain d' where "run_state (delete_object_parts E b x ver ps) (w\<lparr>w_drive := d1\<rparr>) = ((), w\<lparr>w_drive := d'\<rparr>)"
    "contents d' = contents d1 |` (- part_keys b x ver ps)"
    using Cons.IH [of "w\<lparr>w_drive := d1\<rparr>"] Cons.prems by auto
  then show ?case
    using run_kc_Delete [OF Cons.prems d1(1)] d1(2)
    by (intro exI [of _ d']) (auto simp: part_keys_def restrict_map_def fun_eq_iff)
qed

lemma run_DeleteObject_body_all:
  assumes "ready w" "store w (C_CString (makeKey b x)) = Some (Json m, v)" "fits16 E (Json m)"
  shows "\<exists>w'. run_state (DeleteObject_body E b x) w = (None, w') \<and> settled w w' \<and>
     store w' = store w |` (- insert (C_CString (makeKey b x))
                             (part_keys b x (mget (fm_Meta (decoded m)) ''version'') (fm_Parts m)))"
proof -
  let ?ver = "mget (fm_Meta (decoded m)) ''version''" and ?k = "C_CString (makeKey b x)"
  let ?w = "w\<lparr>w_kineticMutex := True, w_pool := taken (w_pool w)\<rparr>"
  obtain d1 where d1: "run_state (delete_object_parts E b x ?ver (fm_Parts m)) ?w = ((), ?w\<lparr>w_drive := d1\<rparr>)"
    "contents d1 = store w |` (- part_keys b x ?ver (fm_Parts m))"
    using run_delete_object_parts_all [of ?w b x ?ver "fm_Parts m"] assms(1) by (auto simp: ready_def)
  obtain d2 where d2: "cDelete (e_ops E) (makeKey b x) option d1 = (None, d2)" "contents d2 = (contents d1)(?k := None)"
    using cDelete_total by blast
  obtain d3 where d3: "cDelete (e_ops E) (makeKey b x) option (w_drive w) = (None, d3)"
    "contents d3 = (store w)(?k := None)" using cDelete_total by blast
  obtain d4 where d4: "cDelete (e_ops E) (makeKey b x) option d3 = (None, d4)" "contents d4 = (contents d3)(?k := None)"
    using cDelete_total by blast
  have "run_state (DeleteObject_body E b x) w =
      (None, touched (w\<lparr>w_drive := (if fm_Parts m = [] then d4 else d2)\<rparr>))"
    using assms d1(1) d2(1) d3(1) d4(1) CGetMeta_hit [OF assms(2), of option]
    by (simp add: DeleteObject_body_def makeKey_eq Let_def kc_defs Client_Delete_def run ready_def
        touched_def json_Unmarshal_def decoded_def [symmetric])
  then show ?thesis
    using assms(1) d1(2) d2(2) d3(2) d4(2)
    by (auto simp: settled_def restrict_map_def fun_eq_iff part_keys_def)
qed

lemma run_DeleteObject_all:
  assumes "ready w" "fresh (w_ns w) b x" "checkDelObjArgs (e_valid_bucket E) b x = None"
    "store w (C_CString (makeKey b x)) = Some (Json m, v)" "fits16 E (Json m)"
  shows "\<exists>w'. run_state (DeleteObject E b x) w = (None, w') \<and> settled w w' \<and>
     store w' = store w |` (- insert (C_CString (makeKey b x))
                             (part_keys b x (mget (fm_Meta (decoded m)) ''version'') (fm_Parts m)))"
proof -
  let ?K = "insert (C_CString (makeKey b x)) (part_keys b x (mget (fm_Meta (decoded m)) ''version'') (fm_Parts m))"
  have "\<exists>e w'. run_state (DeleteObject_body E b x) w1 = (e, w') \<and> settled w1 w' \<and> e = None \<and> store w' = store w |` (- ?K)"
    if "ready w1" "w_drive w1 = w_drive w" for w1
    using run_DeleteObject_body_all [OF that(1), of b x m v] that(2) assms(4,5) by simp
  then show ?thesis
    using run_DeleteObject [OF assms(1-3), where P = "\<lambda>e s. e = None \<and> s = store w |` (- ?K)"] by simp
qed

end

end
