(* ===== verification/Reference_Drive.thy ===== *)
theory Reference_Drive
  imports Kinetic_Drive
begin

text \<open>
  Two drives in memory that satisfy the laws the code relies on: an association list without a
  limit, which is a healthy drive, and the same list with a bound on the number of keys, whose
  writes fail with the status \<^verbatim>\<open>StoreOperationStatus_NO_SPACE\<close> once it is full. They show that the
  laws can hold, and give the concrete inputs of the witnesses.
\<close>

type_synonym mem_drive = "(string \<times> (blob \<times> blob)) list"

definition mem_range ::
  "string \<Rightarrow> string \<Rightarrow> bool \<Rightarrow> bool \<Rightarrow> nat \<Rightarrow> bool \<Rightarrow> mem_drive \<Rightarrow> string" where
  "mem_range s e si ei n reverse d =
     join_keys (take n (sort (remdups (filter (in_key_range s e si ei) (map fst d)))))"

definition mem_read :: "(blob \<times> blob \<Rightarrow> blob) \<Rightarrow> string \<Rightarrow> CPrimaryStoreValue \<Rightarrow> mem_drive \<Rightarrow> blob option \<times> int" where
  "mem_read sel k psv d =
     (case map_of d k of Some e \<Rightarrow> (Some (sel e), 0) | None \<Rightarrow> (None, 1))"

definition mem_partial ::
  "string \<Rightarrow> CPrimaryStoreValue \<Rightarrow> int \<Rightarrow> int \<Rightarrow> mem_drive \<Rightarrow> blob option \<times> int" where
  "mem_partial k psv off n d =
     (case map_of d k of
        Some (m, Raw bs) \<Rightarrow> (Some (Raw (take (nat n) (drop (nat off) bs))), 0)
      | Some (m, v) \<Rightarrow> (Some v, 0)
      | None \<Rightarrow> (None, 1))"

definition mem_ops :: "mem_drive drive_ops" where
  "mem_ops =
     \<lparr>C_GetMeta = mem_read fst,
      C_Get = mem_read snd,
      C_PartialGet = mem_partial,
      C_Put = (\<lambda>k ver psv m v d. (0, AList.update k (m, v) d)),
      C_Delete = (\<lambda>k ver d. (0, AList.delete k d)),
      C_GetKeyRange = mem_range,
      C_Flush = (\<lambda>d. (0, d)),
      net_Delete = (\<lambda>k opts d. (None, AList.delete k d))\<rparr>"

definition quota_ops :: "nat \<Rightarrow> mem_drive drive_ops" where
  "quota_ops n = mem_ops
     \<lparr>C_Put := (\<lambda>k ver psv m v d.
        if map_of d k = None \<and> n \<le> length d then (4, d) else (0, AList.update k (m, v) d))\<rparr>"

lemma mem_range_key_range:
  "mem_range s e si ei n r d = join_keys (take n (key_range s e si ei (dom (map_of d))))"
proof -
  have "{k \<in> dom (map_of d). in_key_range s e si ei k} = set (filter (in_key_range s e si ei) (map fst d))"
    by (auto simp: dom_map_of_conv_image_fst)
  then show ?thesis
    by (simp add: mem_range_def key_range_def sorted_list_of_set_sort_remdups del: set_filter)
qed

interpretation mem: healthy_drive mem_ops map_of
  by unfold_locales
    (auto simp: mem_ops_def mem_read_def mem_partial_def update_conv' delete_conv'
      mem_range_key_range finite_dom_map_of split: option.splits)

interpretation quota: kinetic_drive "quota_ops n" map_of for n
  by unfold_locales
    (auto simp: quota_ops_def mem_ops_def mem_read_def mem_partial_def update_conv' delete_conv'
      mem_range_key_range finite_dom_map_of split: option.splits if_splits)

theorem colon_keys_unlisted_witness:
  "map_of [(''bkt/a:b'', (Raw [], Raw ''x''))] ''bkt/a:b'' \<noteq> None \<and>
   (\<forall>acmd. ''bkt/a:b'' \<notin> set (CGetKeyRange mem_ops ''bkt/'' ''bkt0'' True True 10 acmd [(''bkt/a:b'', (Raw [], Raw ''x''))]))"
  by (intro conjI allI colon_keys_unlisted) simp_all

end
