(* ===== verification/Reference_Layer.thy ===== *)
theory Reference_Layer
  imports Kinetic_World Reference_Drive
begin

text \<open>
  The layer on the in-memory drives: whatever the other parameters are, the contract
  \<open>kinetic_layer\<close> holds of an environment whose drive is one of \<open>Reference_Drive\<close> and whose mutex
  library is the one of \<open>Namespace_Lock\<close>. \<open>mem_env\<close> and \<open>mem_world\<close> are one such environment and the
  world after the layer has started, the concrete inputs of the witnesses.
\<close>

definition on_memory :: "(mem_drive, nat \<times> bool) env \<Rightarrow> (mem_drive, nat \<times> bool) env" where
  "on_memory E = E\<lparr>e_ops := mem_ops, e_lrw := mem_lrw\<rparr>"

definition on_quota :: "nat \<Rightarrow> (mem_drive, nat \<times> bool) env \<Rightarrow> (mem_drive, nat \<times> bool) env" where
  "on_quota n E = E\<lparr>e_ops := quota_ops n, e_lrw := mem_lrw\<rparr>"

lemma on_memory_ops [simp]: "e_ops (on_memory E) = mem_ops" "e_lrw (on_memory E) = mem_lrw"
  by (simp_all add: on_memory_def)

lemma on_quota_ops [simp]: "e_ops (on_quota n E) = quota_ops n" "e_lrw (on_quota n E) = mem_lrw"
  by (simp_all add: on_quota_def)

interpretation mem_layer: healthy_layer "on_memory E" map_of fst snd for E
proof -
  have d: "healthy_drive (e_ops (on_memory E)) map_of" by simp unfold_locales
  have l: "lrw_mutex (e_lrw (on_memory E)) fst snd" by simp unfold_locales
  show "healthy_layer (on_memory E) map_of fst snd"
    using d l by (simp add: healthy_layer_def kinetic_layer_def healthy_drive_def)
qed

interpretation quota_layer: kinetic_layer "on_quota n E" map_of fst snd for n E
proof -
  have d: "kinetic_drive (e_ops (on_quota n E)) map_of" by simp unfold_locales
  have l: "lrw_mutex (e_lrw (on_quota n E)) fst snd" by simp unfold_locales
  show "kinetic_layer (on_quota n E) map_of fst snd"
    using d l by (simp add: kinetic_layer_def)
qed

section \<open>A concrete environment and world\<close>

definition base_env :: "(mem_drive, nat \<times> bool) env" where
  "base_env =
     \<lparr>e_ops = mem_ops, e_lrw = mem_lrw,
      e_meta = \<lparr>TypeByExtension = (\<lambda>ext. ''application/octet-stream''), parse_http_time = (\<lambda>s. None)\<rparr>,
      e_now = int, e_uuid = (\<lambda>n. ''u'' @ show_nat n), e_rand = (\<lambda>n. ''r''),
      e_md5 = (\<lambda>bs. ''m'' @ bs), e_sha256 = (\<lambda>bs. ''s'' @ bs), e_json = (\<lambda>bs m. None),
      e_enc = (\<lambda>b. replicate 100 CHR ''j''), e_valid_bucket = (\<lambda>b. 3 \<le> length b), e_valid_bucket_strict = (\<lambda>b. 3 \<le> length b),
      e_regexp = (\<lambda>p s. Some False), e_cap = id, e_uninit = (\<lambda>n. []),
      e_open = (\<lambda>path. Some ENotExist)\<rparr>"

abbreviation mem_env :: "(mem_drive, nat \<times> bool) env" where
  "mem_env \<equiv> on_memory base_env"

definition mem_world :: "mem_drive \<Rightarrow> (mem_drive, nat \<times> bool) world" where
  "mem_world d =
     \<lparr>w_drive = d, w_skinny = True, w_kineticMutex = False, w_pool = new_pool, w_ns = [], w_readers = [],
      w_activeIO = 0, w_tick = 0, w_blocked = False\<rparr>"

lemma mem_world_simps [simp]: "w_drive (mem_world d) = d" "w_ns (mem_world d) = []"
  "w_readers (mem_world d) = []" "w_activeIO (mem_world d) = 0" "w_tick (mem_world d) = 0" "w_pool (mem_world d) = new_pool"
  "w_skinny (mem_world d)" "\<not> w_kineticMutex (mem_world d)" "\<not> w_blocked (mem_world d)"
  by (simp_all add: mem_world_def)

lemma on_memory_env [simp]:
  "e_meta (on_memory E) = e_meta E" "e_now (on_memory E) = e_now E" "e_uuid (on_memory E) = e_uuid E"
  "e_md5 (on_memory E) = e_md5 E" "e_valid_bucket (on_memory E) = e_valid_bucket E"
  "e_valid_bucket_strict (on_memory E) = e_valid_bucket_strict E" "e_open (on_memory E) = e_open E" "fits16 (on_memory E) = fits16 E"
  "blob_size (on_memory E) = blob_size E"
  by (simp_all add: on_memory_def fits16_def blob_size_def blob_bytes_def fun_eq_iff split: blob.split)

lemma on_quota_env [simp]:
  "e_meta (on_quota n E) = e_meta E" "e_now (on_quota n E) = e_now E" "e_uuid (on_quota n E) = e_uuid E"
  "e_md5 (on_quota n E) = e_md5 E" "e_valid_bucket (on_quota n E) = e_valid_bucket E"
  "e_valid_bucket_strict (on_quota n E) = e_valid_bucket_strict E" "fits16 (on_quota n E) = fits16 E"
  "blob_size (on_quota n E) = blob_size E"
  by (simp_all add: on_quota_def fits16_def blob_size_def blob_bytes_def fun_eq_iff split: blob.split)

lemma base_env_simps [simp]:
  "e_md5 base_env = (\<lambda>bs. ''m'' @ bs)" "e_valid_bucket base_env = (\<lambda>b. 3 \<le> length b)"
  "e_valid_bucket_strict base_env = (\<lambda>b. 3 \<le> length b)" "e_now base_env = int"
  "e_uuid base_env = (\<lambda>n. ''u'' @ show_nat n)" "fits16 base_env (Json m)" "fits16 base_env (Gob g)"
  "e_open base_env = (\<lambda>path. Some ENotExist)"
  by (simp_all add: base_env_def fits16_def blob_size_def blob_bytes_def)

lemma ready_mem_world [simp]: "ready (mem_world d)"
  using new_pool_inv by (simp add: ready_def pool_free_def busy_def new_pool_def)

lemma fresh_empty [simp]: "fresh [] b x"
  by (simp add: fresh_def)

end
