(* ===== verification/Object_Store.thy ===== *)
theory Object_Store
  imports Kinetic_Objects Reference_Layer
begin

text \<open>
  What a client of the object layer sees of it: a set of buckets and a map from bucket and object
  names to bodies. \<open>spec_serve\<close> is this abstract store, \<open>serve\<close> the operations of
  \<^verbatim>\<open>cmd/kinetic.go\<close> on the key-value drive, \<open>represents\<close> the way the drive's keys stand for the store.
  Every sequence of requests gets from the layer the answers the abstract store gives.
\<close>

record s3 =
  s3_buckets :: "string set"
  s3_objects :: "string \<times> string \<rightharpoonup> bytes"

datatype request =
    ReqMake string
  | ReqPut string string Reader ObjectOptions
  | ReqGet string string
  | ReqStat string string
  | ReqDelete string string

datatype response = Done | Body blob | Size int | Err error

definition outcome :: "error option \<Rightarrow> response" where
  "outcome e = (case e of None \<Rightarrow> Done | Some e \<Rightarrow> Err e)"

fun serve :: "('d, 'm) env \<Rightarrow> request \<Rightarrow> ('d, 'm, response) go" where
  "serve E (ReqMake b) = do { e \<leftarrow> MakeBucketWithLocation E b; State_Monad.return (outcome e) }"
| "serve E (ReqPut b x r opts) =
     do { res \<leftarrow> PutObject E b x r opts; State_Monad.return (case res of Inr oi \<Rightarrow> Done | Inl e \<Rightarrow> Err e) }"
| "serve E (ReqGet b x) =
     do { res \<leftarrow> GetObject E b x 0 (- 1); State_Monad.return (case res of Inr v \<Rightarrow> Body v | Inl e \<Rightarrow> Err e) }"
| "serve E (ReqStat b x) =
     do { res \<leftarrow> GetObjectInfo E b x; State_Monad.return (case res of Inr oi \<Rightarrow> Size (oi_Size oi) | Inl e \<Rightarrow> Err e) }"
| "serve E (ReqDelete b x) = do { e \<leftarrow> DeleteObject E b x; State_Monad.return (outcome e) }"

fun serve_all :: "('d, 'm) env \<Rightarrow> request list \<Rightarrow> ('d, 'm, response list) go" where
  "serve_all E [] = State_Monad.return []"
| "serve_all E (rq # rqs) = do { r \<leftarrow> serve E rq; rs \<leftarrow> serve_all E rqs; State_Monad.return (r # rs) }"

section \<open>The abstract store\<close>

text \<open>The errors are those the layer reports: a read in a bucket that does not exist is answered as a
  missing file or object, not as a missing bucket.\<close>

fun spec_serve :: "s3 \<Rightarrow> request \<Rightarrow> response \<times> s3" where
  "spec_serve S (ReqMake b) =
     (if b \<in> s3_buckets S then (Err (Name (BucketExists b)), S)
      else (Done, S\<lparr>s3_buckets := insert b (s3_buckets S)\<rparr>))"
| "spec_serve S (ReqPut b x r opts) =
     (if b \<in> s3_buckets S then (Done, S\<lparr>s3_objects := (s3_objects S)((b, x) \<mapsto> r_src r)\<rparr>)
      else (Err (Name (BucketNotFound b)), S))"
| "spec_serve S (ReqGet b x) =
     (if b \<in> s3_buckets S then
        (case s3_objects S (b, x) of Some v \<Rightarrow> Body (Raw v) | None \<Rightarrow> Err (Name (ObjectNotFound b x)))
      else Err (Storage errFileNotFound), S)"
| "spec_serve S (ReqStat b x) =
     (if b \<in> s3_buckets S then
        (case s3_objects S (b, x) of Some v \<Rightarrow> Size (int (length v)) | None \<Rightarrow> Err (Name (ObjectNotFound b x)))
      else Err (Name (ObjectNotFound b x)), S)"
| "spec_serve S (ReqDelete b x) =
     (case s3_objects S (b, x) of
        Some v \<Rightarrow> (Done, S\<lparr>s3_objects := (s3_objects S)((b, x) := None)\<rparr>)
      | None \<Rightarrow> (Err (Storage errFileNotFound), S))"

fun spec_all :: "s3 \<Rightarrow> request list \<Rightarrow> response list \<times> s3" where
  "spec_all S [] = ([], S)"
| "spec_all S (rq # rqs) =
     (let (r, S1) = spec_serve S rq; (rs, S2) = spec_all S1 rqs in (r # rs, S2))"

section \<open>Representation\<close>

abbreviation noslash :: "string \<Rightarrow> bool" where
  "noslash b \<equiv> CHR ''/'' \<notin> set b"

definition stored_as :: "('d, 'm) env \<Rightarrow> (blob \<times> blob) option \<Rightarrow> bytes option \<Rightarrow> bool" where
  "stored_as E e v = (case v of
     None \<Rightarrow> e = None
   | Some body \<Rightarrow> body \<noteq> [] \<and> (\<exists>m. e = Some (Json m, Raw body) \<and> fits16 E (Json m) \<and> fm_Parts m = [] \<and>
                                  fst (ParseInt (mget (fm_Meta (decoded m)) ''size'')) = int (length body)))"

definition represents :: "('d, 'm) env \<Rightarrow> kstore \<Rightarrow> s3 \<Rightarrow> bool" where
  "represents E s S =
     ((\<forall>b. noslash b \<longrightarrow> (if b \<in> s3_buckets S then bucket_at E s b else s (bucket_key b) = None)) \<and>
      (\<forall>b x. noslash b \<longrightarrow> stored_as E (s (makeKey b x)) (s3_objects S (b, x))))"

definition simulates :: "('d, 'm) env \<Rightarrow> ('d \<Rightarrow> kstore) \<Rightarrow> ('d, 'm) world \<Rightarrow> s3 \<Rightarrow> bool" where
  "simulates E contents w S = (ready w \<and> w_ns w = [] \<and> represents E (contents (w_drive w)) S)"

text \<open>The requests considered: names the input checks accept, non-empty bodies of their announced size, and
  metadata small enough for the 64 KiB view the readers use.\<close>

definition wf_names :: "string \<Rightarrow> string \<Rightarrow> bool" where
  "wf_names b x = (nul_free b \<and> nul_free x \<and> noslash b \<and> b \<noteq> [])"

fun wf_request :: "('d, 'm) env \<Rightarrow> request \<Rightarrow> bool" where
  "wf_request E (ReqMake b) = (wf_names b [] \<and> e_valid_bucket_strict E b \<and>
     (\<forall>t. fits16 E (Gob \<lparr>bi_Name = bucket_key b, bi_Created = t\<rparr>)))"
| "wf_request E (ReqPut b x r opts) = (wf_names b x \<and> putable b x (r_size r) \<and> plain_body r \<and> r_src r \<noteq> [] \<and>
     (\<forall>v t. fits16 E (Json (written_meta E v t x r opts))))"
| "wf_request E (ReqGet b x) = (wf_names b x \<and> checkGetObjArgs (e_valid_bucket E) b x = None \<and>
     \<not> HasSuffix x SlashSeparator)"
| "wf_request E (ReqStat b x) = (wf_names b x \<and> checkGetObjArgs (e_valid_bucket E) b x = None)"
| "wf_request E (ReqDelete b x) = (wf_names b x \<and> checkDelObjArgs (e_valid_bucket E) b x = None)"

lemma slash_keys: "CHR ''/'' \<in> set (makeKey c x)" "CHR ''/'' \<in> set (bucket_key b) \<longleftrightarrow> \<not> noslash b"
  by (simp_all add: bucket_key_def makeKey_def)

lemma bucket_key_object [simp]: "noslash b \<Longrightarrow> bucket_key b \<noteq> makeKey c x" "noslash b \<Longrightarrow> makeKey c x \<noteq> bucket_key b"
proof -
  assume b: "noslash b"
  show "bucket_key b \<noteq> makeKey c x"
  proof
    assume "bucket_key b = makeKey c x"
    then have "CHR ''/'' \<in> set (bucket_key b)" using slash_keys(1) by simp
    then show False using b slash_keys(2) by simp
  qed
  then show "makeKey c x \<noteq> bucket_key b" by simp
qed

lemma makeKey_eq_iff: "noslash b \<Longrightarrow> noslash c \<Longrightarrow> makeKey b x = makeKey c y \<longleftrightarrow> b = c \<and> x = y"
  using makeKey_inj [of b x c y] by blast

lemma bucket_at_update [simp]:
  "bucket_at E (s(bucket_key b \<mapsto> (m, v))) c = (if c = b then fits16 E m else bucket_at E s c)"
  "noslash c \<Longrightarrow> bucket_at E (s(makeKey b x := e)) c = bucket_at E s c"
  by (simp_all add: bucket_at_def)

lemma represents_make:
  assumes "represents E s S" "noslash b" "fits16 E m"
  shows "represents E (s(bucket_key b \<mapsto> (m, v))) (S\<lparr>s3_buckets := insert b (s3_buckets S)\<rparr>)"
  using assms by (simp add: represents_def)

lemma represents_put:
  assumes "represents E s S" "noslash b" "stored_as E e v"
  shows "represents E (s(makeKey b x := e)) (S\<lparr>s3_objects := (s3_objects S)((b, x) := v)\<rparr>)"
  using assms by (simp add: represents_def makeKey_eq_iff)

lemma represents_at:
  assumes "represents E s S" "noslash b"
  shows "b \<in> s3_buckets S \<Longrightarrow> bucket_at E s b" "b \<notin> s3_buckets S \<Longrightarrow> s (bucket_key b) = None"
    "stored_as E (s (makeKey b x)) (s3_objects S (b, x))"
proof -
  have "if b \<in> s3_buckets S then bucket_at E s b else s (bucket_key b) = None"
    using assms by (simp add: represents_def)
  then show "b \<in> s3_buckets S \<Longrightarrow> bucket_at E s b" "b \<notin> s3_buckets S \<Longrightarrow> s (bucket_key b) = None"
    by simp_all
  show "stored_as E (s (makeKey b x)) (s3_objects S (b, x))"
    using assms by (simp add: represents_def)
qed

lemma stored_readable: "stored_as E (s k) v \<Longrightarrow> readable E s k"
  by (cases v) (auto simp: stored_as_def readable_def)

lemma object_info_size: "oi_Size (object_info E b x m) = fst (ParseInt (mget (fm_Meta (decoded m)) ''size''))"
  by (simp add: object_info_def KVInfoToObjectInfo_def kv_of_meta_def guess_meta_def Let_def)

lemma stored_put:
  assumes "plain_body r" "r_src r \<noteq> []" "fits16 E (Json (written_meta E v t x r opts))"
  shows "stored_as E (Some (Json (written_meta E v t x r opts), Raw (r_src r))) (Some (r_src r))"
proof -
  have "fst (ParseInt (FormatInt (r_size r))) = int (length (r_src r))"
    using assms(1) by (simp add: plain_body_def ParseInt_FormatInt)
  then show ?thesis
    using assms(2,3) by (simp add: stored_as_def written_meta_def decoded_mget)
qed

section \<open>Simulation\<close>

context kinetic_layer
begin

lemma run_GetObject_nobucket:
  assumes "ready w" "fresh (w_ns w) b x" "checkGetObjArgs (e_valid_bucket E) b x = None" "nul_free b"
    "store w (bucket_key b) = None"
  shows "\<exists>w'. run_state (GetObject E b x off len) w = (Inl (Storage errFileNotFound), w') \<and> settled w w' \<and>
     w_drive w' = w_drive w"
proof (rule run_GetObject_wrap [OF assms(1-3)])
  show "\<exists>w'. run_state (getObject E b x off len) w1 = (Inl (Storage errFileNotFound), w') \<and> settled w1 w' \<and>
     w_drive w' = w_drive w1" if "ready w1" "w_drive w1 = w_drive w" for w1
    using run_statBucketDir_miss [OF that(1) assms(4)] that assms(5)
    by (simp add: getObject_def toObjectErr_def settled_touched)
qed simp

lemma run_GetObjectInfo_nobucket:
  assumes "ready w" "fresh (w_ns w) b x" "checkGetObjArgs (e_valid_bucket E) b x = None" "nul_free b"
    "store w (bucket_key b) = None"
  shows "\<exists>w'. run_state (GetObjectInfo E b x) w = (Inl (Name (ObjectNotFound b x)), w') \<and> settled w w' \<and>
     w_drive w' = w_drive w"
proof -
  let ?w = "w\<lparr>w_ns := locked (e_lrw E) (w_ns w) b x True\<rparr>"
  have s: "run_state (statBucketDir E b) ?w = (Inl (Storage errFileNotFound), touched ?w)"
    using run_statBucketDir_miss [of ?w b] assms(1,4,5) by simp
  have t: "touched ?w = (touched w)\<lparr>w_ns := locked (e_lrw E) (w_ns w) b x True\<rparr>"
    by (simp add: touched_def)
  have "run_state (getObjectInfoWithLock E b x) w = (Inl (Storage errFileNotFound), touched w)"
    using assms(1-3) s [unfolded t] by (simp add: getObjectInfoWithLock_def run)
  then show ?thesis
    using assms(1) by (simp add: GetObjectInfo_def map_err_def toObjectErr_def settled_touched)
qed

end

context healthy_layer
begin

lemma simulates_next:
  "simulates E contents w S \<Longrightarrow> settled w w' \<Longrightarrow> represents E (store w') S' \<Longrightarrow> simulates E contents w' S'"
  by (simp add: simulates_def settled_def)

lemma serve_make:
  assumes "simulates E contents w S" "wf_request E (ReqMake b)" "spec_serve S (ReqMake b) = (resp, S')"
  shows "\<exists>w'. run_state (serve E (ReqMake b)) w = (resp, w') \<and> simulates E contents w' S'"
proof -
  have w: "ready w" "fresh (w_ns w) b []" and rep: "represents E (store w) S"
    using assms(1) by (auto simp: simulates_def)
  have b: "nul_free b" "noslash b" "e_valid_bucket_strict E b" using assms(2) by (auto simp: wf_names_def)
  show ?thesis
  proof (cases "b \<in> s3_buckets S")
    case True
    then obtain m v where "store w (bucket_key b) = Some (m, v)"
      using represents_at(1) [OF rep b(2)] by (auto simp: bucket_at_def)
    from run_MakeBucket_exists [OF w(1) b(1) w(2) b(3) this] show ?thesis
      using True assms(1,3) by (auto simp: outcome_def simulates_def)
  next
    case False
    let ?m = "Gob \<lparr>bi_Name = bucket_key b, bi_Created = e_now E (w_tick w)\<rparr>"
    obtain d' where d': "CPut (e_ops E) (bucket_key b) ?m (Raw []) option (w_drive w) = (None, d')"
      "contents d' = (store w)(bucket_key b \<mapsto> (?m, Raw []))"
      using CPut_total [of "bucket_key b" ?m "Raw []" option "w_drive w"] b(1) by auto
    have "represents E (contents d') (S\<lparr>s3_buckets := insert b (s3_buckets S)\<rparr>)"
      using represents_make [OF rep b(2)] assms(2) d'(2) by simp
    then show ?thesis
      using run_MakeBucket_new [OF w(1) b(1) w(2) b(3) represents_at(2) [OF rep b(2) False]] d'(1)
        False assms(1,3) by (auto simp: outcome_def simulates_def)
  qed
qed

lemma serve_put:
  assumes "simulates E contents w S" "wf_request E (ReqPut b x r opts)" "\<forall>h. e_md5 E h \<noteq> []"
    "spec_serve S (ReqPut b x r opts) = (resp, S')"
  shows "\<exists>w'. run_state (serve E (ReqPut b x r opts)) w = (resp, w') \<and> simulates E contents w' S'"
proof -
  have w: "ready w" "fresh (w_ns w) b []" "fresh (w_ns w) b x" and rep: "represents E (store w) S"
    using assms(1) by (auto simp: simulates_def)
  have b: "nul_free b" "noslash b" "nul_free x" "putable b x (r_size r)" "plain_body r" "r_src r \<noteq> []"
    using assms(2) by (auto simp: wf_names_def)
  show ?thesis
  proof (cases "b \<in> s3_buckets S")
    case False
    then show ?thesis
      using run_checkBucketExist_miss [OF w(1) b(1) w(2) represents_at(2) [OF rep b(2) False]] assms(1,4) w(1)
      by (auto simp: PutObject_def checkPutObjectArgs_def simulates_def)
  next
    case True
    let ?m = "Json (written_meta E (version_at (store w) (makeKey b x)) (w_tick w) x r opts)"
    obtain d' where d': "CPut (e_ops E) (makeKey b x) ?m (Raw (r_src r)) option_nosync (w_drive w) = (None, d')"
      "contents d' = (store w)(makeKey b x \<mapsto> (?m, Raw (r_src r)))"
      using CPut_total [of "makeKey b x" ?m "Raw (r_src r)" option_nosync "w_drive w"] b(1,3) by auto
    have "stored_as E (Some (?m, Raw (r_src r))) (Some (r_src r))"
      using assms(2) by (intro stored_put) auto
    from represents_put [OF rep b(2) this, of x]
    have "represents E (contents d') (S\<lparr>s3_objects := (s3_objects S)((b, x) \<mapsto> r_src r)\<rparr>)"
      by (simp add: d'(2))
    moreover have "readable E (store w) (makeKey b x)"
      using stored_readable represents_at(3) [OF rep b(2)] by blast
    ultimately show ?thesis
      using run_PutObject [OF w(1) b(1) w(2,3) represents_at(1) [OF rep b(2) True] b(4) _ b(5) assms(3),
          of opts None d'] d'(1) b(1,3) True assms(1,4)
      by (auto intro: simulates_next)
  qed
qed

lemma serve_get:
  assumes "simulates E contents w S" "wf_request E (ReqGet b x)" "spec_serve S (ReqGet b x) = (resp, S')"
  shows "\<exists>w'. run_state (serve E (ReqGet b x)) w = (resp, w') \<and> simulates E contents w' S'"
proof -
  have w: "ready w" "fresh (w_ns w) b x" and rep: "represents E (store w) S"
    using assms(1) by (auto simp: simulates_def)
  have b: "checkGetObjArgs (e_valid_bucket E) b x = None" "nul_free b" "noslash b" "nul_free x"
    "\<not> HasSuffix x SlashSeparator"
    using assms(2) by (auto simp: wf_names_def)
  have key: "C_CString (makeKey b x) = makeKey b x" using b by simp
  have next_w: "simulates E contents w' S" if "settled w w'" "w_drive w' = w_drive w" for w'
    using simulates_next [OF assms(1) that(1)] rep that(2) by simp
  show ?thesis
  proof (cases "b \<in> s3_buckets S")
    case False
    then show ?thesis
      using run_GetObject_nobucket [OF w b(1,2) represents_at(2) [OF rep b(3) False], of 0 "- 1"] assms(3) next_w
      by auto
  next
    case True
    note at = represents_at(1) [OF rep b(3) True]
    show ?thesis
    proof (cases "s3_objects S (b, x)")
      case None
      then have "store w (C_CString (makeKey b x)) = None"
        using represents_at(3) [OF rep b(3), of x] key by (simp add: stored_as_def)
      from run_GetObject_miss [OF w b(1,2) at b(5) _ this, of 0 "- 1"] show ?thesis
        using True None assms(3) next_w by auto
    next
      case (Some body)
      then obtain m where "store w (C_CString (makeKey b x)) = Some (Json m, Raw body)" "body \<noteq> []"
        using represents_at(3) [OF rep b(3), of x] key by (auto simp: stored_as_def)
      with run_GetObject [OF w b(1,2) at b(5) _ this(1), of 0 "- 1"] show ?thesis
        using True Some assms(3) next_w by (auto simp: Let_def)
    qed
  qed
qed

lemma serve_stat:
  assumes "simulates E contents w S" "wf_request E (ReqStat b x)" "spec_serve S (ReqStat b x) = (resp, S')"
  shows "\<exists>w'. run_state (serve E (ReqStat b x)) w = (resp, w') \<and> simulates E contents w' S'"
proof -
  have w: "ready w" "fresh (w_ns w) b x" and rep: "represents E (store w) S"
    using assms(1) by (auto simp: simulates_def)
  have b: "checkGetObjArgs (e_valid_bucket E) b x = None" "nul_free b" "noslash b" "nul_free x" "b \<noteq> []"
    using assms(2) by (auto simp: wf_names_def)
  have key: "C_CString (makeKey b x) = makeKey b x" using b by simp
  have next_w: "simulates E contents w' S" if "settled w w'" "w_drive w' = w_drive w" for w'
    using simulates_next [OF assms(1) that(1)] rep that(2) by simp
  note touched_w = next_w [OF settled_touched [OF w(1)]]
  show ?thesis
  proof (cases "b \<in> s3_buckets S")
    case False
    then show ?thesis
      using run_GetObjectInfo_nobucket [OF w b(1,2) represents_at(2) [OF rep b(3) False]] assms(3) next_w
      by auto
  next
    case True
    note info = run_GetObjectInfo [OF w b(1,2,5) represents_at(1) [OF rep b(3) True]]
    show ?thesis
    proof (cases "s3_objects S (b, x)")
      case None
      then have "store w (C_CString (makeKey b x)) = None"
        using represents_at(3) [OF rep b(3), of x] key by (simp add: stored_as_def)
      from info(2) [OF this] show ?thesis
        using True None assms(3) touched_w by simp
    next
      case (Some body)
      then obtain m where m: "store w (C_CString (makeKey b x)) = Some (Json m, Raw body)" "fits16 E (Json m)"
        "fst (ParseInt (mget (fm_Meta (decoded m)) ''size'')) = int (length body)"
        using represents_at(3) [OF rep b(3), of x] key by (auto simp: stored_as_def)
      then show ?thesis
        using info(1) [OF m(1,2)] True Some assms(3) touched_w
        by (simp add: object_info_size)
    qed
  qed
qed

lemma serve_delete:
  assumes "simulates E contents w S" "wf_request E (ReqDelete b x)" "spec_serve S (ReqDelete b x) = (resp, S')"
  shows "\<exists>w'. run_state (serve E (ReqDelete b x)) w = (resp, w') \<and> simulates E contents w' S'"
proof -
  have w: "ready w" "fresh (w_ns w) b x" and rep: "represents E (store w) S"
    using assms(1) by (auto simp: simulates_def)
  have b: "checkDelObjArgs (e_valid_bucket E) b x = None" "nul_free b" "noslash b" "nul_free x"
    using assms(2) by (auto simp: wf_names_def)
  have key: "C_CString (makeKey b x) = makeKey b x" using b by simp
  show ?thesis
  proof (cases "s3_objects S (b, x)")
    case None
    then have "store w (C_CString (makeKey b x)) = None"
      using represents_at(3) [OF rep b(3), of x] key by (simp add: stored_as_def)
    then obtain w' where "run_state (DeleteObject E b x) w = (Some (Storage errFileNotFound), w')"
      "settled w w'" "store w' = store w"
      using run_DeleteObject_miss [OF w b(1)] by blast
    then show ?thesis
      using simulates_next [OF assms(1)] rep None assms(3) by (auto simp: outcome_def)
  next
    case (Some body)
    then obtain m where m: "store w (C_CString (makeKey b x)) = Some (Json m, Raw body)" "fits16 E (Json m)"
      "fm_Parts m = []"
      using represents_at(3) [OF rep b(3), of x] key by (auto simp: stored_as_def)
    obtain w' where w': "run_state (DeleteObject E b x) w = (None, w')" "settled w w'"
      "store w' = store w |` (- {makeKey b x})"
      using run_DeleteObject_all [OF w b(1) m(1,2)] m(3) key by (auto simp: part_keys_def)
    have "store w' = (store w)(makeKey b x := None)"
      by (simp add: w'(3) fun_eq_iff restrict_map_def)
    moreover have "represents E ((store w)(makeKey b x := None)) (S\<lparr>s3_objects := (s3_objects S)((b, x) := None)\<rparr>)"
      by (rule represents_put [OF rep b(3)]) (simp add: stored_as_def)
    ultimately show ?thesis
      using simulates_next [OF assms(1) w'(2)] w'(1) Some assms(3) by (auto simp: outcome_def)
  qed
qed

lemma serve_step:
  assumes "simulates E contents w S" "wf_request E rq" "\<forall>h. e_md5 E h \<noteq> []" "spec_serve S rq = (resp, S')"
  shows "\<exists>w'. run_state (serve E rq) w = (resp, w') \<and> simulates E contents w' S'"
proof (cases rq)
  case (ReqMake b)
  then show ?thesis using serve_make assms by blast
next
  case (ReqPut b x r opts)
  then show ?thesis using serve_put assms by blast
next
  case (ReqGet b x)
  then show ?thesis using serve_get assms by blast
next
  case (ReqStat b x)
  then show ?thesis using serve_stat assms by blast
next
  case (ReqDelete b x)
  then show ?thesis using serve_delete assms by blast
qed

lemma serve_all_refines:
  assumes "\<forall>h. e_md5 E h \<noteq> []"
  shows "simulates E contents w S \<Longrightarrow> \<forall>rq \<in> set rqs. wf_request E rq \<Longrightarrow>
    \<exists>w'. run_state (serve_all E rqs) w = (fst (spec_all S rqs), w') \<and>
         simulates E contents w' (snd (spec_all S rqs))"
proof (induction rqs arbitrary: w S)
  case (Cons rq rqs)
  obtain r S1 where sp: "spec_serve S rq = (r, S1)" by fastforce
  obtain w1 where w1: "run_state (serve E rq) w = (r, w1)" "simulates E contents w1 S1"
    using serve_step [OF Cons.prems(1) _ assms sp] Cons.prems(2) by auto
  obtain rs S2 where sp2: "spec_all S1 rqs = (rs, S2)" by fastforce
  obtain w2 where "run_state (serve_all E rqs) w1 = (rs, w2)" "simulates E contents w2 S2"
    using Cons.IH [OF w1(2)] Cons.prems(2) sp2 by auto
  then show ?case using sp sp2 w1(1) by simp
qed simp

end

section \<open>The layer implements the store\<close>

lemma simulates_new:
  assumes "kinetic_layer E contents readers writer" "contents (w_drive w) = (\<lambda>k. None)" "ready w" "w_ns w = []"
  shows "simulates E contents w \<lparr>s3_buckets = {}, s3_objects = (\<lambda>k. None)\<rparr>"
  using assms(2-4) by (simp add: simulates_def represents_def stored_as_def)


definition example_body :: Reader where
  "example_body = \<lparr>r_src = ''hello'', r_eof_with_data = False, r_size = 5, r_actualSize = 5,
     r_md5sum = [], r_sha256sum = [], r_md5Hash = Some [], r_sha256Hash = None\<rparr>"

definition example_opts :: ObjectOptions where
  "example_opts = \<lparr>oo_UserDefined = Some []\<rparr>"

definition example_requests :: "request list" where
  "example_requests = [ReqMake ''bkt'', ReqPut ''bkt'' ''a'' example_body example_opts, ReqGet ''bkt'' ''a'',
     ReqStat ''bkt'' ''a'', ReqDelete ''bkt'' ''a'', ReqGet ''bkt'' ''a'', ReqStat ''none'' ''a'']"

lemmas names_eval = putable_def checkObjectNameForLengthAndSlash_def IsValidObjectPrefix_graph IsValidObjectName_def
  strings_HasPrefix_def strings_HasSuffix_def graph_char_def byte_def
  HasSuffix_def HasPrefix_def checkGetObjArgs_def checkDelObjArgs_def checkBucketAndObjectNames_def 

lemma example_names:
  "putable ''bkt'' ''a'' 5" "checkGetObjArgs (\<lambda>b. 3 \<le> length b) ''bkt'' ''a'' = None"
  "checkDelObjArgs (\<lambda>b. 3 \<le> length b) ''bkt'' ''a'' = None"
  "checkGetObjArgs (\<lambda>b. 3 \<le> length b) ''none'' ''a'' = None" "\<not> HasSuffix ''a'' SlashSeparator"
  by (simp_all add: names_eval)

lemma example_wf: "\<forall>rq \<in> set example_requests. wf_request mem_env rq"
  using example_names
  by (simp add: example_requests_def wf_names_def example_body_def plain_body_def nul_free_def)

lemma example_spec:
  "fst (spec_all \<lparr>s3_buckets = {}, s3_objects = (\<lambda>k. None)\<rparr> example_requests) =
     [Done, Done, Body (Raw ''hello''), Size 5, Done, Err (Name (ObjectNotFound ''bkt'' ''a'')),
      Err (Name (ObjectNotFound ''none'' ''a''))]"
  by (simp add: example_requests_def example_body_def)


end
