(* ===== verification/Kinetic_Listing.thy ===== *)
theory Kinetic_Listing
  imports Kinetic_Objects
begin

text \<open>
  Listing: \<^verbatim>\<open>ListObjects\<close>, \<^verbatim>\<open>ListObjectsV2\<close>, \<^verbatim>\<open>isBucketEmpty\<close>, the walk of \<^verbatim>\<open>listObjects\<close>/\<^verbatim>\<open>Walk\<close>, and
  \<^verbatim>\<open>DeleteBucket\<close>, which walks the bucket it deletes, from \<^verbatim>\<open>cmd/kinetic.go\<close>.

  The loops that ask the drive for one page of keys after another take fuel, \<open>None\<close> being that it
  ran out; for \<^verbatim>\<open>ListObjects\<close> one step more than the number of keys is enough.
\<close>

abbreviation maxObjectList :: nat where "maxObjectList \<equiv> 10000"

record ListObjectsInfo =
  lo_IsTruncated :: bool
  lo_NextMarker :: string
  lo_Objects :: "ObjectInfo list"
  lo_Prefixes :: "string list"

record ListObjectsV2Info =
  l2_IsTruncated :: bool
  l2_ContinuationToken :: string
  l2_NextContinuationToken :: string
  l2_Objects :: "ObjectInfo list"
  l2_Prefixes :: "string list"

definition ListObjectsInfo0 :: ListObjectsInfo where
  "ListObjectsInfo0 = \<lparr>lo_IsTruncated = False, lo_NextMarker = [], lo_Objects = [], lo_Prefixes = []\<rparr>"

section \<open>One page of keys\<close>

text \<open>The statements of the loop body after \<^verbatim>\<open>getObjectInfo\<close>: what one object adds to the result
  and takes off \<^verbatim>\<open>nRemainKeys\<close>.\<close>

definition ListObjects_add ::
  "bool \<Rightarrow> string \<Rightarrow> string \<Rightarrow> ObjectInfo \<Rightarrow> ListObjectsInfo \<times> int \<Rightarrow> error + (ListObjectsInfo \<times> int)" where
  "ListObjects_add recursive prefixDir name objInfo = (\<lambda>(result, nRemainKeys).
     if oi_Hidden objInfo then Inr (result, nRemainKeys - 1)
     else if recursive then
       Inr (result\<lparr>lo_Objects := lo_Objects result @ [objInfo]\<rparr>, nRemainKeys - 1)
     else if length name < length prefixDir then Inl slicePanic
     else
       (let afterPrefixDirSplit = strings_Split (drop (length prefixDir) name) CHR ''/'';
            objInfo = (if length afterPrefixDirSplit > 1
                       then objInfo\<lparr>oi_IsDir := True,
                                    oi_Name := prefixDir @ afterPrefixDirSplit ! 0 @ SlashSeparator\<rparr>
                       else objInfo)
        in if oi_IsDir objInfo then
             (if oi_Name objInfo \<in> set (lo_Prefixes result) then Inr (result, nRemainKeys)
              else Inr (result\<lparr>lo_Prefixes := lo_Prefixes result @ [oi_Name objInfo]\<rparr>, nRemainKeys - 1))
           else Inr (result\<lparr>lo_Objects := lo_Objects result @ [objInfo]\<rparr>, nRemainKeys - 1)))"

text \<open>The parameters of the loop that do not change: the bucket prefix, the regular expression when
  the prefix has a star, whether the listing is recursive, and the directory part of the prefix.\<close>

record list_params =
  lp_bucketPrefix :: string
  lp_bRegexp :: bool
  lp_regexpStr :: string
  lp_recursive :: bool
  lp_prefixDir :: string
  lp_endKey :: string

fun ListObjects_page ::
  "('d, 'm) env \<Rightarrow> string \<Rightarrow> list_params \<Rightarrow> string list \<Rightarrow> ListObjectsInfo \<times> int \<Rightarrow>
   ('d, 'm, error + (ListObjectsInfo \<times> int)) go" where
  "ListObjects_page E bucket lp [] st = State_Monad.return (Inr st)"
| "ListObjects_page E bucket lp (key # keys) st =
     (if lp_bRegexp lp \<and> e_regexp E (lp_regexpStr lp) key \<noteq> Some True then
        ListObjects_page E bucket lp keys st
      else if length key < length (lp_bucketPrefix lp) then State_Monad.return (Inl slicePanic)
      else (let name = drop (length (lp_bucketPrefix lp)) key in
        do {
          r \<leftarrow> getObjectInfo E bucket name;
          case r of
            Inl e \<Rightarrow> State_Monad.return (Inl e)
          | Inr objInfo \<Rightarrow>
              (case ListObjects_add (lp_recursive lp) (lp_prefixDir lp) name objInfo st of
                 Inl e \<Rightarrow> State_Monad.return (Inl e)
               | Inr st \<Rightarrow> ListObjects_page E bucket lp keys st)
        }))"

section \<open>The listing loop\<close>

text \<open>A turn of the loop asks for as many keys as remain to be returned. The result is the start
  key, the listing and the number of keys that remain.\<close>

fun ListObjects_loop ::
  "nat \<Rightarrow> ('d, 'm) env \<Rightarrow> string \<Rightarrow> list_params \<Rightarrow> string \<Rightarrow> bool \<Rightarrow> bool \<Rightarrow> ListObjectsInfo \<times> int \<Rightarrow>
   ('d, 'm, (error + string \<times> ListObjectsInfo \<times> int) option) go" where
  "ListObjects_loop 0 E bucket lp startKey bStartKeyInclusive bDone st = State_Monad.return None"
| "ListObjects_loop (Suc fuel) E bucket lp startKey bStartKeyInclusive bDone (result, nRemainKeys) =
     (if \<not> (\<not> bDone \<and> nRemainKeys > 0) then State_Monad.return (Some (Inr (startKey, result, nRemainKeys)))
      else do {
        kineticMutex_Lock;
        kc \<leftarrow> getConn;
        keys \<leftarrow> kc_CGetKeyRange E startKey (lp_endKey lp) bStartKeyInclusive True (nat nRemainKeys) option;
        releaseConn kc;
        kineticMutex_Unlock;
        let bDone = int (length keys) < nRemainKeys;
        let result = (if bDone then result\<lparr>lo_IsTruncated := False\<rparr> else result);
        r \<leftarrow> ListObjects_page E bucket lp keys (result, nRemainKeys);
        case r of
          Inl e \<Rightarrow> State_Monad.return (Some (Inl e))
        | Inr st \<Rightarrow>
            ListObjects_loop fuel E bucket lp (if keys \<noteq> [] then last keys else startKey) False bDone st
      })"

definition ListObjects_params :: "string \<Rightarrow> string \<Rightarrow> string \<Rightarrow> list_params" where
  "ListObjects_params bucket pre delimiter =
     (let prefixParts = strings_Split pre CHR ''*'';
          bucketPrefix = bucket @ SlashSeparator
      in \<lparr>lp_bucketPrefix = bucketPrefix,
          lp_bRegexp = (length (prefixParts ! 0) < length pre),
          lp_regexpStr = bucketPrefix @ concat (map (\<lambda>prefixPart. ''.*'' @ prefixPart) prefixParts),
          lp_recursive = (delimiter \<noteq> SlashSeparator),
          lp_prefixDir = (case strings_LastIndex pre CHR ''/'' of
                            Some lastIndex \<Rightarrow> take (lastIndex + 1) pre | None \<Rightarrow> []),
          lp_endKey = IncStr (bucketPrefix @ prefixParts ! 0)\<rparr>)"

abbreviation maxKeyRange :: int where "maxKeyRange \<equiv> 400"

definition ListObjects ::
  "nat \<Rightarrow> ('d, 'm) env \<Rightarrow> string \<Rightarrow> string \<Rightarrow> string \<Rightarrow> string \<Rightarrow> int \<Rightarrow>
   ('d, 'm, (error + ListObjectsInfo) option) go" where
  "ListObjects fuel E bucket pre marker delimiter maxKeys =
     (let lp = ListObjects_params bucket pre delimiter;
          startKey = (if marker = [] then lp_bucketPrefix lp @ strings_Split pre CHR ''*'' ! 0
                      else lp_bucketPrefix lp @ marker);
          nRemainKeys = (if maxKeys > maxKeyRange then maxKeyRange else maxKeys);
          result = ListObjectsInfo0\<lparr>lo_IsTruncated := (maxKeys > maxKeyRange)\<rparr>
      in do {
        activeIO 1;
        r \<leftarrow> ListObjects_loop fuel E bucket lp startKey True False (result, nRemainKeys);
        activeIO (- 1);
        State_Monad.return
          (case r of
             None \<Rightarrow> None
           | Some (Inl e) \<Rightarrow> Some (Inl e)
           | Some (Inr (startKey, result, nRemainKeys)) \<Rightarrow>
               if nRemainKeys > 0 \<or> maxKeys \<le> maxKeyRange then Some (Inr (result\<lparr>lo_IsTruncated := False\<rparr>))
               else if length startKey < length (lp_bucketPrefix lp) then Some (Inl slicePanic)
               else Some (Inr (result\<lparr>lo_NextMarker := drop (length (lp_bucketPrefix lp)) (IncStr startKey),
                                      lo_IsTruncated := True\<rparr>)))
      })"

definition ListObjectsV2 ::
  "nat \<Rightarrow> ('d, 'm) env \<Rightarrow> string \<Rightarrow> string \<Rightarrow> string \<Rightarrow> string \<Rightarrow> int \<Rightarrow> string \<Rightarrow>
   ('d, 'm, (error + ListObjectsV2Info) option) go" where
  "ListObjectsV2 fuel E bucket pre continuationToken delimiter maxKeys startAfter =
     (let marker = (if continuationToken = [] then startAfter else continuationToken) in
      do {
        r \<leftarrow> ListObjects fuel E bucket pre marker delimiter maxKeys;
        State_Monad.return
          (case r of
             None \<Rightarrow> None
           | Some (Inl e) \<Rightarrow> Some (Inl e)
           | Some (Inr loi) \<Rightarrow>
               Some (Inr \<lparr>l2_IsTruncated = lo_IsTruncated loi,
                          l2_ContinuationToken = continuationToken,
                          l2_NextContinuationToken = lo_NextMarker loi,
                          l2_Objects = lo_Objects loi,
                          l2_Prefixes = lo_Prefixes loi\<rparr>))
      })"

definition isBucketEmpty :: "nat \<Rightarrow> ('d, 'm) env \<Rightarrow> string \<Rightarrow> ('d, 'm, (error + bool) option) go" where
  "isBucketEmpty fuel E bucket =
     do {
       r \<leftarrow> ListObjects fuel E bucket [] [] [] 1;
       State_Monad.return
         (case r of
            None \<Rightarrow> None
          | Some (Inl e) \<Rightarrow> Some (Inl e)
          | Some (Inr objLst) \<Rightarrow>
              Some (Inr (length (lo_Objects objLst) = 0 \<and> length (lo_Prefixes objLst) = 0)))
     }"

section \<open>Walking a bucket\<close>

text \<open>
  \<^verbatim>\<open>listObjects\<close> runs in a goroutine and sends what it finds over a channel without a buffer; here it
  runs when the receiver asks for the next value. \<open>WalkFetch\<close> is the top of its outer loop,
  \<open>WalkPage\<close> the inner loop with the keys it has left and whether another page follows,
  \<open>WalkClosed\<close> the closed channel with the error the goroutine dropped.
\<close>

datatype walk_state =
  WalkFetch (wk_startKey: string) (wk_endKey: string) (wk_lastKey: string)
| WalkPage (wk_keys: "string list") (wk_lastKey: string) (wk_more: bool)
| WalkClosed (wk_err: "error option")

definition walk_name :: "string \<Rightarrow> string \<Rightarrow> string \<Rightarrow> string \<Rightarrow> ObjectInfo \<Rightarrow> ObjectInfo" where
  "walk_name bucket pre delimiter key objInfo =
     (if delimiter = SlashSeparator \<and> pre \<noteq> [] then
        (if \<not> HasSuffix pre SlashSeparator
         then objInfo\<lparr>oi_IsDir := True, oi_Name := pre @ SlashSeparator\<rparr>
         else (let result = strings_Split (drop (length bucket + 1 + length pre) key) CHR ''/'' in
           if length result > 1
           then objInfo\<lparr>oi_IsDir := True, oi_Name := pre @ result ! 0 @ SlashSeparator\<rparr> else objInfo))
      else if delimiter = SlashSeparator \<and> pre = [] then
        (let result = strings_Split (drop (length bucket + 1) key) CHR ''/'' in
         if length result > 1
         then objInfo\<lparr>oi_IsDir := True, oi_Name := result ! 0 @ SlashSeparator\<rparr> else objInfo)
      else objInfo)"

text \<open>The body of the loop over a page: \<open>Inr (Some _)\<close> is a value sent. The slice that is compared with
  the prefix may reach into the capacity of the key, which holds zero bytes.\<close>

definition listObjects_key ::
  "('d, 'm) env \<Rightarrow> string \<Rightarrow> string \<Rightarrow> string \<Rightarrow> string \<Rightarrow> ('d, 'm, error + ObjectInfo option) go" where
  "listObjects_key E bucket pre delimiter key =
     (let lo = length bucket + 1; hi = lo + length pre;
          padded = key @ replicate (hi - length key) (CHR 0x00)
      in if e_cap E (length key) < hi then State_Monad.return (Inl slicePanic)
         else if pre = take (length pre) (drop lo padded) then
           (if length key < lo then State_Monad.return (Inl slicePanic)
            else do {
              r \<leftarrow> getObjectInfo E bucket (drop lo key);
              State_Monad.return
                (case r of
                   Inl e \<Rightarrow> Inl e
                 | Inr objInfo \<Rightarrow>
                     Inr (if oi_Hidden objInfo then None
                          else Some (walk_name bucket pre delimiter key objInfo)))
            })
         else State_Monad.return (Inr None))"

fun walk_next ::
  "nat \<Rightarrow> ('d, 'm) env \<Rightarrow> string \<Rightarrow> string \<Rightarrow> string \<Rightarrow> walk_state \<Rightarrow>
   ('d, 'm, (ObjectInfo option \<times> walk_state) option) go" where
  "walk_next 0 E bucket pre delimiter s = State_Monad.return None"
| "walk_next (Suc fuel) E bucket pre delimiter (WalkClosed e) = State_Monad.return (Some (None, WalkClosed e))"
| "walk_next (Suc fuel) E bucket pre delimiter (WalkFetch startKey endKey lastKey) =
     do {
       kineticMutex_Lock;
       kc \<leftarrow> getConn;
       keys \<leftarrow> kc_CGetKeyRange E startKey endKey False True 800 option;
       releaseConn kc;
       kineticMutex_Unlock;
       walk_next fuel E bucket pre delimiter (WalkPage keys lastKey (\<not> length keys < 800))
     }"
| "walk_next (Suc fuel) E bucket pre delimiter (WalkPage [] lastKey nextPage) =
     (if nextPage then walk_next fuel E bucket pre delimiter (WalkFetch lastKey [] lastKey)
      else State_Monad.return (Some (None, WalkClosed None)))"
| "walk_next (Suc fuel) E bucket pre delimiter (WalkPage (key # keys) lastKey nextPage) =
     do {
       r \<leftarrow> listObjects_key E bucket pre delimiter key;
       case r of
         Inl e \<Rightarrow> State_Monad.return (Some (None, WalkClosed (Some e)))
       | Inr None \<Rightarrow> walk_next fuel E bucket pre delimiter (WalkPage keys key nextPage)
       | Inr (Some objInfo) \<Rightarrow> State_Monad.return (Some (Some objInfo, WalkPage keys key nextPage))
     }"

definition Walk :: "string \<Rightarrow> string \<Rightarrow> walk_state" where
  "Walk bucket pre = WalkFetch (bucket @ ''/'' @ pre) (bucket @ ''0'') []"

section \<open>Deleting a bucket\<close>

text \<open>Receiving names until the channel is closed or \<^verbatim>\<open>maxObjectList\<close> of them are there. A panic of the
  walking goroutine ends the process.\<close>

fun collect_names ::
  "nat \<Rightarrow> ('d, 'm) env \<Rightarrow> string \<Rightarrow> string \<Rightarrow> string list \<Rightarrow> walk_state \<Rightarrow>
   ('d, 'm, (error + string list \<times> walk_state) option) go" where
  "collect_names 0 E bucket pre objects s = State_Monad.return None"
| "collect_names (Suc fuel) E bucket pre objects s =
     do {
       r \<leftarrow> walk_next fuel E bucket pre [] s;
       case r of
         None \<Rightarrow> State_Monad.return None
       | Some (None, s) \<Rightarrow>
           State_Monad.return (Some (case s of WalkClosed (Some (GoPanic msg)) \<Rightarrow> Inl (GoPanic msg)
                                             | _ \<Rightarrow> Inr (objects, s)))
       | Some (Some obj, s) \<Rightarrow>
           if length (objects @ [oi_Name obj]) = maxObjectList
           then State_Monad.return (Some (Inr (objects @ [oi_Name obj], s)))
           else collect_names fuel E bucket pre (objects @ [oi_Name obj]) s
     }"

definition last_error :: "error option list \<Rightarrow> error option \<Rightarrow> error option" where
  "last_error errs lastErr = fold (\<lambda>e acc. if e \<noteq> None then e else acc) errs lastErr"

fun DeleteBucket_loop ::
  "nat \<Rightarrow> ('d, 'm) env \<Rightarrow> string \<Rightarrow> walk_state \<Rightarrow> error option \<Rightarrow> ('d, 'm, (error + error option) option) go" where
  "DeleteBucket_loop 0 E bucket s lastErr = State_Monad.return None"
| "DeleteBucket_loop (Suc fuel) E bucket s lastErr =
     do {
       r \<leftarrow> collect_names fuel E bucket [] [] s;
       case r of
         None \<Rightarrow> State_Monad.return None
       | Some (Inl e) \<Rightarrow> State_Monad.return (Some (Inl e))
       | Some (Inr (objects, s)) \<Rightarrow>
           if length objects = 0 then State_Monad.return (Some (Inr lastErr))
           else do {
             errs \<leftarrow> DeleteObjects E bucket objects;
             DeleteBucket_loop fuel E bucket s (last_error errs lastErr)
           }
     }"

definition DeleteBucket_key :: "('d, 'm) env \<Rightarrow> string \<Rightarrow> ('d, 'm, error option) go" where
  "DeleteBucket_key E bucket =
     do {
       kineticMutex_Lock;
       kc \<leftarrow> getConn;
       err \<leftarrow> kc_Delete E (bucket_key bucket) (option\<lparr>op_Force := False\<rparr>);
       err \<leftarrow> (if err = None then kc_Delete E ''bucketKey'' (option\<lparr>op_Force := False\<rparr>)
               else State_Monad.return err);
       releaseConn kc;
       kineticMutex_Unlock;
       State_Monad.return err
     }"

definition DeleteBucket_body :: "nat \<Rightarrow> ('d, 'm) env \<Rightarrow> string \<Rightarrow> ('d, 'm, error option option) go" where
  "DeleteBucket_body fuel E bucket =
     do {
       empty \<leftarrow> isBucketEmpty fuel E bucket;
       case empty of
         None \<Rightarrow> State_Monad.return None
       | Some (Inl e) \<Rightarrow> State_Monad.return (Some (Some e))
       | Some (Inr False) \<Rightarrow> State_Monad.return (Some (Some (Storage errBucketNotEmpty)))
       | Some (Inr True) \<Rightarrow> do {
           r \<leftarrow> DeleteBucket_loop fuel E bucket (Walk bucket []) None;
           case r of
             None \<Rightarrow> State_Monad.return None
           | Some (Inl e) \<Rightarrow> State_Monad.return (Some (Some e))
           | Some (Inr (Some lastErr)) \<Rightarrow> State_Monad.return (Some (Some lastErr))
           | Some (Inr None) \<Rightarrow> do {
               err \<leftarrow> DeleteBucket_key E bucket;
               State_Monad.return (Some err)
             }
         }
     }"

definition DeleteBucket :: "nat \<Rightarrow> ('d, 'm) env \<Rightarrow> string \<Rightarrow> ('d, 'm, error option option) go" where
  "DeleteBucket fuel E bucket =
     do {
       lerr \<leftarrow> ns_GetLock E bucket [];
       case lerr of Some e \<Rightarrow> State_Monad.return (Some (Some e)) | None \<Rightarrow> do {
         activeIO 1;
         r \<leftarrow> DeleteBucket_body fuel E bucket;
         activeIO (- 1);
         ns_Unlock E bucket [];
         State_Monad.return r
       }
     }"

section \<open>Ranges of keys\<close>

lemma key_range_filter:
  assumes "finite K"
  shows "key_range s e si ei K = filter (in_key_range s e si ei) (sorted_list_of_set K)"
proof -
  let ?xs = "filter (in_key_range s e si ei) (sorted_list_of_set K)"
  have "set ?xs = {k \<in> K. in_key_range s e si ei k}" using assms by auto
  moreover have "sorted ?xs" "distinct ?xs" by (simp_all add: sorted_wrt_filter)
  ultimately show ?thesis
    unfolding key_range_def using sorted_list_of_set.idem_if_sorted_distinct by metis
qed

lemma filter_greater_nth:
  fixes xs :: "'a :: linorder list"
  assumes "sorted_wrt (<) xs" "n < length xs"
  shows "filter (\<lambda>k. xs ! n < k) xs = drop (Suc n) xs"
  using assms
proof (induction xs arbitrary: n)
  case (Cons x xs)
  show ?case
  proof (cases n)
    case 0
    then show ?thesis using Cons.prems by (auto simp: filter_id_conv)
  next
    case (Suc m)
    then have m: "m < length xs" "xs ! m \<in> set xs" using Cons.prems by auto
    then have "x < xs ! m" using Cons.prems(1) by simp
    then have "\<not> xs ! m < x" by simp
    then show ?thesis using Suc Cons.IH [of m] Cons.prems m by simp
  qed
qed simp

text \<open>The keys after the last one of a page are the rest of the range.\<close>

lemma key_range_rest:
  assumes "finite K" "ks = key_range s e si ei K" "n < length ks"
  shows "key_range (ks ! n) e False ei K = drop (Suc n) ks"
proof -
  let ?S = "sorted_list_of_set K"
  have ks: "ks = filter (in_key_range s e si ei) ?S" using assms key_range_filter by simp
  have "ks ! n \<in> set ks" using assms(3) by simp
  then have n: "in_key_range s e si ei (ks ! n)" unfolding ks by simp
  have iff: "in_key_range (ks ! n) e False ei = (\<lambda>k. in_key_range s e si ei k \<and> ks ! n < k)"
    using n by (auto simp: in_key_range_def fun_eq_iff split: if_splits)
  have "key_range (ks ! n) e False ei K = filter (in_key_range (ks ! n) e False ei) ?S"
    by (rule key_range_filter [OF assms(1)])
  also have "\<dots> = filter (\<lambda>k. ks ! n < k) (filter (in_key_range s e si ei) ?S)"
    by (subst iff) simp
  also have "\<dots> = drop (Suc n) ks"
    using filter_greater_nth assms(2,3) sorted_key_range unfolding ks [symmetric] by blast
  finally show ?thesis .
qed

section \<open>What a listing returns\<close>

text \<open>The metadata at a key, and that the layer can read it.\<close>

definition meta_at :: "kstore \<Rightarrow> string \<Rightarrow> fsMetaV1" where
  "meta_at s k = (case s k of Some (Json m, v) \<Rightarrow> m | _ \<Rightarrow> fsMetaV1_0)"

definition listable :: "('d, 'm) env \<Rightarrow> kstore \<Rightarrow> string \<Rightarrow> string \<Rightarrow> string \<Rightarrow> bool" where
  "listable E s b dir k = (\<exists>name m v. k = makeKey b name \<and> length dir \<le> length name \<and> nul_free k \<and>
     s k = Some (Json m, v) \<and> fits16 E (Json m))"

definition list_step ::
  "('d, 'm) env \<Rightarrow> kstore \<Rightarrow> string \<Rightarrow> list_params \<Rightarrow> string \<Rightarrow> ListObjectsInfo \<times> int \<Rightarrow> ListObjectsInfo \<times> int" where
  "list_step E s b lp key st =
     (if lp_bRegexp lp \<and> e_regexp E (lp_regexpStr lp) key \<noteq> Some True then st
      else (let name = drop (length (lp_bucketPrefix lp)) key in
        case ListObjects_add (lp_recursive lp) (lp_prefixDir lp) name (object_info E b name (meta_at s key)) st of
          Inr st \<Rightarrow> st | Inl _ \<Rightarrow> st))"

abbreviation truncated :: "bool \<Rightarrow> ListObjectsInfo \<Rightarrow> ListObjectsInfo" where
  "truncated t r \<equiv> r\<lparr>lo_IsTruncated := t\<rparr>"

lemma ListObjects_add_ok:
  "length dir \<le> length name \<Longrightarrow> \<exists>st'. ListObjects_add rec dir name oi st = Inr st'"
  by (cases st) (auto simp: ListObjects_add_def Let_def)

lemma list_step_truncated:
  "list_step E s b lp key (truncated t r, n) = apfst (truncated t) (list_step E s b lp key (r, n))"
  by (auto simp: list_step_def ListObjects_add_def Let_def)

lemma fold_list_step_truncated:
  "fold (list_step E s b lp) ks (truncated t r, n) = apfst (truncated t) (fold (list_step E s b lp) ks (r, n))"
proof (induction ks arbitrary: r n)
  case (Cons k ks)
  obtain r' n' where "list_step E s b lp k (r, n) = (r', n')" by fastforce
  then show ?case using Cons by (simp add: list_step_truncated)
qed simp

text \<open>A key takes at most one off the number of keys that remain.\<close>

lemma list_step_count: "snd (list_step E s b lp key st) \<in> {snd st - 1, snd st}"
  by (cases st) (auto simp: list_step_def ListObjects_add_def Let_def)

lemma fold_list_step_count:
  "snd st - int (length ks) \<le> snd (fold (list_step E s b lp) ks st) \<and>
   snd (fold (list_step E s b lp) ks st) \<le> snd st"
proof (induction ks arbitrary: st)
  case (Cons k ks)
  have "snd (list_step E s b lp k st) = snd st - 1 \<or> snd (list_step E s b lp k st) = snd st"
    using list_step_count [of E s b lp k st] by blast
  then show ?case using Cons.IH [of "list_step E s b lp k st"] unfolding fold.simps o_def length_Cons
    by linarith
qed simp

text \<open>A recursive listing without a star: every key counts, and the objects that are not hidden are
  appended in order.\<close>

definition listed_objects :: "('d, 'm) env \<Rightarrow> kstore \<Rightarrow> string \<Rightarrow> string list \<Rightarrow> ObjectInfo list" where
  "listed_objects E s b ks =
     filter (\<lambda>oi. \<not> oi_Hidden oi) (map (\<lambda>k. object_info E b (drop (Suc (length b)) k) (meta_at s k)) ks)"

lemma fold_recursive:
  assumes "lp_recursive lp" "\<not> lp_bRegexp lp" "lp_bucketPrefix lp = makeKey b []"
  shows "fold (list_step E s b lp) ks (r, n) =
    (r\<lparr>lo_Objects := lo_Objects r @ listed_objects E s b ks\<rparr>, n - int (length ks))"
  using assms
  by (induction ks arbitrary: r n)
    (auto simp: list_step_def ListObjects_add_def listed_objects_def makeKey_def Let_def)

text \<open>The keys of a bucket are objects the layer can read, and no key lies at the closed end of the
  bucket's range.\<close>

definition tidy :: "('d, 'm) env \<Rightarrow> kstore \<Rightarrow> string \<Rightarrow> bool" where
  "tidy E s b =
     ((\<forall>k \<in> dom s. CHR '':'' \<notin> set k \<and> k \<noteq> [] \<and> nul_free k) \<and>
      (\<forall>k \<in> dom s. prefix (makeKey b []) k \<longrightarrow> (\<exists>m v. s k = Some (Json m, v) \<and> fits16 E (Json m))) \<and>
      s (b @ ''0'') = None)"

definition ends_low :: "string \<Rightarrow> bool" where
  "ends_low p = (p = [] \<or> of_char (last p) \<noteq> (255 :: nat))"

lemma makeKey_append: "makeKey b (x @ y) = makeKey b x @ y" "makeKey b x = makeKey b [] @ x"
  by (simp_all add: makeKey_def)

lemma makeKey_not_Nil [simp]: "makeKey b x \<noteq> []"
  by (simp add: makeKey_def)

lemma IncStr_bucket: "IncStr (makeKey b []) = b @ ''0''"
proof -
  have "IncStr (b @ [CHR ''/'']) = b @ [inc_byte (CHR ''/'')]" by (rule IncStr_snoc) simp
  moreover have "inc_byte (CHR ''/'') = CHR ''0''" by code_simp
  ultimately show ?thesis by (simp add: makeKey_def)
qed

lemma IncStr_makeKey:
  assumes "pre \<noteq> []" "ends_low pre"
  shows "IncStr (makeKey b pre) = makeKey b (IncStr pre)"
proof -
  have l: "of_char (last pre) \<noteq> (255 :: nat)" using assms by (simp add: ends_low_def)
  have p: "butlast pre @ [last pre] = pre" using assms(1) by simp
  have "makeKey b pre = makeKey b (butlast pre) @ [last pre]"
    using p by (metis makeKey_append(1))
  then show ?thesis
    using IncStr_snoc [OF l, of "makeKey b (butlast pre)"] IncStr_snoc [OF l, of "butlast pre"] p
    by (simp add: makeKey_append(1) [symmetric])
qed

text \<open>Every key in the range of a listing is a key of the bucket, with a name at least as long as the
  prefix.\<close>

lemma listing_range:
  assumes "ends_low pre" "prefix pre from" "k \<noteq> b @ ''0''"
    "in_key_range (makeKey b from) (IncStr (makeKey b pre)) True True k"
  shows "\<exists>name. k = makeKey b name \<and> length pre \<le> length name"
proof -
  let ?P = "makeKey b pre"
  have low: "?P \<noteq> []" "of_char (last ?P) \<noteq> (255 :: nat)"
    using assms(1) by (auto simp: makeKey_def ends_low_def split: if_splits)
  have "?P \<le> makeKey b from"
    using IncStr_range [OF low, of "makeKey b from"] assms(2) by (simp add: makeKey_def)
  then have ge: "?P \<le> k" "k \<le> IncStr ?P" using assms(4) by (auto simp: in_key_range_def)
  show ?thesis
  proof (cases "k = IncStr ?P")
    case True
    then have "pre \<noteq> []" using assms(3) IncStr_bucket [of b] by auto
    then show ?thesis using True IncStr_makeKey [OF _ assms(1), of b] by auto
  next
    case False
    then have "prefix ?P k" using ge IncStr_range [OF low, of k] by (simp add: order.strict_iff_order)
    then show ?thesis using makeKey_append(1) [of b pre] by (auto simp: prefix_def) (metis le_add1 length_append)
  qed
qed

lemma nul_free_append [simp]: "nul_free (x @ y) = (nul_free x \<and> nul_free y)"
  by (simp add: nul_free_def)

lemma nul_free_makeKey [simp]: "nul_free (makeKey b x) = (nul_free b \<and> nul_free x)"
  by (simp add: nul_free_def makeKey_def)

lemma nul_free_IncStr: "p \<noteq> [] \<Longrightarrow> ends_low p \<Longrightarrow> nul_free p \<Longrightarrow> nul_free (IncStr p)"
proof -
  assume p: "p \<noteq> []" "ends_low p" "nul_free p"
  have l: "of_char (last p) \<noteq> (255 :: nat)" using p by (simp add: ends_low_def)
  have "inc_byte (last p) \<noteq> CHR 0x00" using of_char_inc [OF l] by auto
  moreover have "IncStr p = butlast p @ [inc_byte (last p)]" using IncStr_snoc [OF l, of "butlast p"] p(1) by simp
  ultimately show ?thesis using p(3) by (auto simp: nul_free_def dest: in_set_butlastD)
qed

lemma LastIndex_less: "strings_LastIndex s c = Some i \<Longrightarrow> i < length s"
  by (induction s arbitrary: i) (auto split: option.splits if_splits)

lemma ListObjects_params_simps:
  assumes "CHR ''*'' \<notin> set pre"
  shows "lp_bucketPrefix (ListObjects_params b pre dl) = makeKey b []"
    "lp_recursive (ListObjects_params b pre dl) = (dl \<noteq> SlashSeparator)"
    "\<not> lp_bRegexp (ListObjects_params b pre dl)"
    "lp_endKey (ListObjects_params b pre dl) = IncStr (makeKey b pre)"
    "length (lp_prefixDir (ListObjects_params b pre dl)) \<le> length pre"
  using assms LastIndex_less [of pre]
  by (auto simp: ListObjects_params_def Let_def makeKey_def Split_no_sep split: option.split)

text \<open>A listing with the delimiter: names with no slash after the directory part of the prefix are
  objects, the others are grouped, each group once.\<close>

lemma Split_first: "strings_Split s c ! 0 = takeWhile (\<lambda>x. x \<noteq> c) s" "Suc 0 < length (strings_Split s c) \<longleftrightarrow> c \<in> set s"
proof -
  have "hd (strings_Split s c) = takeWhile (\<lambda>x. x \<noteq> c) s \<and> strings_Split s c \<noteq> [] \<and>
      (Suc 0 < length (strings_Split s c) \<longleftrightarrow> c \<in> set s)"
    by (induction s) (auto split: list.splits)
  then show "strings_Split s c ! 0 = takeWhile (\<lambda>x. x \<noteq> c) s" "Suc 0 < length (strings_Split s c) \<longleftrightarrow> c \<in> set s"
    by (simp_all add: hd_conv_nth)
qed

definition after_dir :: "string \<Rightarrow> string \<Rightarrow> string \<Rightarrow> string" where
  "after_dir b dir k = drop (length dir) (drop (Suc (length b)) k)"

definition group_of :: "string \<Rightarrow> string \<Rightarrow> string \<Rightarrow> string" where
  "group_of b dir k = dir @ takeWhile (\<lambda>c. c \<noteq> CHR ''/'') (after_dir b dir k) @ SlashSeparator"

definition hidden_at :: "('d, 'm) env \<Rightarrow> kstore \<Rightarrow> string \<Rightarrow> string \<Rightarrow> bool" where
  "hidden_at E s b k = oi_Hidden (object_info E b (drop (Suc (length b)) k) (meta_at s k))"

lemma object_info_IsDir [simp]: "\<not> oi_IsDir (object_info E b x m)"
  by (simp add: object_info_def KVInfoToObjectInfo_def Let_def ObjectInfo0_def)

lemma list_step_delimited:
  assumes "\<not> lp_recursive lp" "\<not> lp_bRegexp lp" "lp_bucketPrefix lp = makeKey b []"
    "listable E s b (lp_prefixDir lp) k"
  shows "list_step E s b lp k (r, n) =
    (if hidden_at E s b k then (r, n - 1)
     else if CHR ''/'' \<in> set (after_dir b (lp_prefixDir lp) k) then
       (if group_of b (lp_prefixDir lp) k \<in> set (lo_Prefixes r) then (r, n)
        else (r\<lparr>lo_Prefixes := lo_Prefixes r @ [group_of b (lp_prefixDir lp) k]\<rparr>, n - 1))
     else (r\<lparr>lo_Objects := lo_Objects r @ listed_objects E s b [k]\<rparr>, n - 1))"
proof -
  obtain name where "k = makeKey b name" "length (lp_prefixDir lp) \<le> length name"
    using assms(4) by (auto simp: listable_def)
  then show ?thesis
    using assms(1-3)
    by (auto simp: list_step_def ListObjects_add_def Let_def makeKey_def hidden_at_def after_dir_def group_of_def
        listed_objects_def Split_first)
qed

lemma fold_delimited:
  assumes "\<not> lp_recursive lp" "\<not> lp_bRegexp lp" "lp_bucketPrefix lp = makeKey b []"
    and "\<forall>k \<in> set ks. listable E s b (lp_prefixDir lp) k"
    and "fold (list_step E s b lp) ks (r, n) = (r', n')"
  defines "plain \<equiv> \<lambda>k. CHR ''/'' \<notin> set (after_dir b (lp_prefixDir lp) k)"
  shows "lo_Objects r' = lo_Objects r @ listed_objects E s b (filter plain ks) \<and>
    set (lo_Prefixes r') = set (lo_Prefixes r) \<union>
       group_of b (lp_prefixDir lp) ` {k \<in> set ks. \<not> hidden_at E s b k \<and> \<not> plain k} \<and>
    (distinct (lo_Prefixes r) \<longrightarrow> distinct (lo_Prefixes r')) \<and> lo_NextMarker r' = lo_NextMarker r"
  using assms(4,5)
proof (induction ks arbitrary: r n)
  case (Cons k ks)
  obtain r1 n1 where s1: "list_step E s b lp k (r, n) = (r1, n1)" by fastforce
  have ok: "listable E s b (lp_prefixDir lp) k" using Cons.prems by simp
  note st = list_step_delimited [OF assms(1-3) ok, of r n, unfolded s1]
  note ih = Cons.IH [of r1 n1]
  have objs: "listed_objects E s b (k # ys) = listed_objects E s b [k] @ listed_objects E s b ys" for ys
    by (simp add: listed_objects_def)
  have hid: "hidden_at E s b k \<Longrightarrow> listed_objects E s b [k] = []"
    by (simp add: listed_objects_def hidden_at_def)
  show ?case
    using ih Cons.prems s1 st objs [of "filter plain ks"] hid
    by (auto simp: plain_def split: if_splits)
qed (simp add: listed_objects_def)

context kinetic_layer
begin

lemma run_ListObjects_page:
  assumes "ready w" "b \<noteq> []" "lp_bucketPrefix lp = makeKey b []"
    "\<forall>k \<in> set keys. listable E (store w) b (lp_prefixDir lp) k"
  shows "run_state (ListObjects_page E b lp keys st) (touched w) =
           (Inr (fold (list_step E (store w) b lp) keys st), touched w)"
  using assms(4)
proof (induction keys arbitrary: st)
  case (Cons k keys)
  then obtain name m v where k: "k = makeKey b name" "length (lp_prefixDir lp) \<le> length name" "nul_free k"
    "store w k = Some (Json m, v)" "fits16 E (Json m)" by (auto simp: listable_def)
  have name: "drop (length (lp_bucketPrefix lp)) k = name" "\<not> length k < length (lp_bucketPrefix lp)"
    by (simp_all add: k(1) assms(3) makeKey_def)
  have info: "run_state (getObjectInfo E b name) (touched w) = (Inr (object_info E b name m), touched w)"
    using run_getObjectInfo_hit [of "touched w" b name m v] k assms(1,2) by (simp add: nul_free_def)
  obtain st' where st': "ListObjects_add (lp_recursive lp) (lp_prefixDir lp) name (object_info E b name m) st = Inr st'"
    using ListObjects_add_ok [OF k(2)] by blast
  have "meta_at (store w) k = m" by (simp add: meta_at_def k(4))
  then show ?case
    using Cons name info st' by (simp add: list_step_def Let_def)
qed simp

text \<open>
  The loop with more fuel than keys: it ends, having gone through the first \<open>j\<close> keys of the range in
  order, all of them unless it has returned as many as were asked for.
\<close>

lemma run_ListObjects_loop:
  assumes "ready w" "b \<noteq> []" "lp_bucketPrefix lp = makeKey b []" "nul_free (lp_endKey lp)" "lp_endKey lp \<noteq> []"
    and dom: "\<forall>k \<in> dom (store w). CHR '':'' \<notin> set k \<and> k \<noteq> []"
    and ks: "ks = key_range startKey (lp_endKey lp) si True (dom (store w))" "nul_free startKey"
    and ok: "\<forall>k \<in> set ks. listable E (store w) b (lp_prefixDir lp) k"
    and fuel: "length ks + 1 < fuel"
  shows "\<exists>j t r' n'. j \<le> length ks \<and>
     fold (list_step E (store w) b lp) (take j ks) (r, n) = (r', n') \<and>
     (n' \<le> 0 \<or> j = length ks) \<and> (0 \<le> n \<longrightarrow> 0 \<le> n') \<and>
     run_state (ListObjects_loop fuel E b lp startKey si False (r, n)) w =
       (Some (Inr (if j = 0 then startKey else ks ! (j - 1), truncated t r', n')), if n \<le> 0 then w else touched w)"
  using assms(1) ks ok fuel dom
proof (induction fuel arbitrary: w ks startKey si r n)
  case (Suc fuel)
  show ?case
  proof (cases "n \<le> 0")
    case True
    then show ?thesis by (intro exI [of _ 0] exI [of _ "lo_IsTruncated r"]) simp
  next
    case False
    define keys where "keys = take (nat n) ks"
    define dn where "dn = (int (length keys) < n)"
    let ?step = "list_step E (store w) b lp"
    have range: "CGetKeyRange (e_ops E) startKey (lp_endKey lp) si True (nat n) option (w_drive w) = keys"
      using Suc.prems assms(4,5) CGetKeyRange_exact [of "w_drive w" "lp_endKey lp"]
      by (simp add: nul_free_def keys_def)
    obtain r1 n1 where st: "fold ?step keys (r, n) = (r1, n1)" by fastforce
    have st': "fold ?step keys (if dn then truncated False r else r, n) = (if dn then truncated False r1 else r1, n1)"
      using fold_list_step_truncated [of E "store w" b lp keys False r n] st by simp
    have n1: "0 \<le> n1" using fold_list_step_count [of "(r, n)" keys E "store w" b lp] st False
      by (auto simp: min_def keys_def split: if_splits)
    have "\<forall>k \<in> set keys. listable E (store w) b (lp_prefixDir lp) k"
      using Suc.prems(4) by (auto simp: keys_def dest: in_set_takeD)
    then have page: "run_state (ListObjects_page E b lp keys (if dn then truncated False r else r, n)) (touched w) =
        (Inr (if dn then truncated False r1 else r1, n1), touched w)"
      unfolding st' [symmetric] by (rule run_ListObjects_page [OF Suc.prems(1) assms(2,3)])
    have turn: "run_state (ListObjects_loop (Suc fuel) E b lp startKey si False (r, n)) w =
        run_state (ListObjects_loop fuel E b lp (if keys \<noteq> [] then last keys else startKey) False dn
          (if dn then truncated False r1 else r1, n1)) (touched w)"
      using False Suc.prems(1) range page unfolding dn_def
      by (simp add: kc_defs run ready_defs Let_def)
    show ?thesis
    proof (cases dn)
      case True
      then have all: "keys = ks" by (auto simp: dn_def keys_def)
      obtain f where f: "fuel = Suc f" using Suc.prems(5) by (cases fuel) auto
      show ?thesis
        using turn True f st n1 False unfolding all
        by (intro exI [of _ "length ks"] exI [of _ False]) (auto simp: last_conv_nth)
    next
      case more: False
      let ?m = "nat n - 1" and ?rest = "drop (nat n) ks"
      have m: "?m < length ks" "Suc ?m = nat n" "nat n \<le> length ks"
        using more False by (auto simp: dn_def keys_def)
      have snoc: "keys = take ?m ks @ [ks ! ?m]"
        using take_Suc_conv_app_nth [OF m(1)] unfolding m(2) keys_def .
      have lst: "last keys = ks ! ?m" "keys \<noteq> []" unfolding snoc by simp_all
      have rest: "?rest = key_range (ks ! ?m) (lp_endKey lp) False True (dom (store (touched w)))"
        using key_range_rest [OF finite_contents Suc.prems(2) m(1)] m(2) by simp
      have nf: "nul_free (ks ! ?m)" using Suc.prems(4) m(1) by (auto simp: listable_def)
      have tt: "(if n1 \<le> 0 then touched w else touched (touched w)) = touched w" using Suc.prems(1) by simp
      have ex: "\<exists>j t r' n'. j \<le> length ?rest \<and> fold (list_step E (store (touched w)) b lp) (take j ?rest) (r1, n1) = (r', n') \<and>
          (n' \<le> 0 \<or> j = length ?rest) \<and> (0 \<le> n1 \<longrightarrow> 0 \<le> n') \<and>
          run_state (ListObjects_loop fuel E b lp (ks ! ?m) False False (r1, n1)) (touched w) =
          (Some (Inr (if j = 0 then ks ! ?m else ?rest ! (j - 1), truncated t r', n')), if n1 \<le> 0 then touched w else touched (touched w))"
        using Suc.prems m by (intro Suc.IH [OF _ rest nf]) (auto dest: in_set_dropD)
      obtain j t r' n' where ih: "j \<le> length ?rest" "fold ?step (take j ?rest) (r1, n1) = (r', n')"
        "n' \<le> 0 \<or> j = length ?rest" "0 \<le> n'"
        "run_state (ListObjects_loop fuel E b lp (ks ! ?m) False False (r1, n1)) (touched w) =
          (Some (Inr (if j = 0 then ks ! ?m else ?rest ! (j - 1), truncated t r', n')), touched w)"
        using n1 ex unfolding touched_simps tt by blast
      have split: "take (nat n + j) ks = keys @ take j ?rest" by (simp add: take_add keys_def)
      have nth: "(if j = 0 then ks ! ?m else ?rest ! (j - 1)) = ks ! (nat n + j - 1)"
        using m ih(1) by (cases j) auto
      show ?thesis
        using ih st m more False turn lst nth
        by (intro exI [of _ "nat n + j"] exI [of _ t] exI [of _ r'] exI [of _ n']) (auto simp: split)
    qed
  qed
qed simp

lemma listing_keys:
  assumes "tidy E (store w) b" "ends_low pre" "prefix pre from"
    "ks = key_range (makeKey b from) (IncStr (makeKey b pre)) True True (dom (store w))"
  shows "\<forall>k \<in> set ks. listable E (store w) b pre k"
proof
  fix k assume "k \<in> set ks"
  then have k: "k \<in> dom (store w)" "in_key_range (makeKey b from) (IncStr (makeKey b pre)) True True k"
    using assms(4) set_key_range [OF finite_contents] by auto
  then have "k \<noteq> b @ ''0''" using assms(1) by (auto simp: tidy_def)
  then obtain name where name: "k = makeKey b name" "length pre \<le> length name"
    using listing_range [OF assms(2,3) _ k(2)] by blast
  have "prefix (makeKey b []) k" by (simp add: name(1) makeKey_def)
  then obtain m v where "store w k = Some (Json m, v)" "fits16 E (Json m)"
    using assms(1) k(1) unfolding tidy_def by blast
  moreover have "nul_free k" using assms(1) k(1) by (auto simp: tidy_def)
  ultimately show "listable E (store w) b pre k" using name unfolding listable_def by blast
qed

text \<open>The listing as a whole: the first \<open>j\<close> keys of the range have been gone through, all of them
  unless the number asked for, or 400, has been reached.\<close>

lemma run_ListObjects:
  assumes "ready w" "b \<noteq> []" "nul_free b" "nul_free pre" "nul_free marker" "CHR ''*'' \<notin> set pre"
    "ends_low pre" "marker = [] \<or> prefix pre marker" "tidy E (store w) b" "0 < maxKeys"
    and ks: "ks = key_range (makeKey b (if marker = [] then pre else marker)) (IncStr (makeKey b pre)) True True
                    (dom (store w))"
    and fuel: "length ks + 1 < fuel"
  shows "\<exists>j r' n'. j \<le> length ks \<and> (n' \<le> 0 \<or> j = length ks) \<and> 0 \<le> n' \<and>
     fold (list_step E (store w) b (ListObjects_params b pre dl)) (take j ks)
       (ListObjectsInfo0, min maxKeys maxKeyRange) = (r', n') \<and>
     run_state (ListObjects fuel E b pre marker dl maxKeys) w =
       (Some (Inr (if 0 < n' \<or> maxKeys \<le> maxKeyRange then truncated False r'
                   else r'\<lparr>lo_NextMarker := drop (Suc (length b)) (IncStr (ks ! (j - 1))), lo_IsTruncated := True\<rparr>)),
        touched w)"
proof -
  let ?from = "if marker = [] then pre else marker" and ?lp = "ListObjects_params b pre dl"
  let ?n = "if maxKeys > maxKeyRange then maxKeyRange else maxKeys"
  let ?r = "truncated (maxKeys > maxKeyRange) ListObjectsInfo0"
  let ?w = "w\<lparr>w_activeIO := w_activeIO w + 1\<rparr>"
  note lp = ListObjects_params_simps [OF assms(6), of b dl]
  have pm: "prefix pre ?from" using assms(8) by auto
  have "\<forall>k \<in> set ks. listable E (store w) b pre k" by (rule listing_keys [OF assms(9,7) pm ks])
  then have ok: "\<forall>k \<in> set ks. listable E (store w) b (lp_prefixDir ?lp) k"
    using lp(5) unfolding listable_def by (meson order_trans)
  have "ends_low (makeKey b pre)" using assms(7) by (auto simp: ends_low_def makeKey_def split: if_splits)
  then have nf: "nul_free (IncStr (makeKey b pre))" using assms(3,4) by (intro nul_free_IncStr) simp_all
  have ne: "IncStr (makeKey b pre) \<noteq> []"
    using IncStr_length [of "makeKey b pre"] makeKey_not_Nil by (metis length_0_conv)
  have dom: "\<forall>k \<in> dom (store ?w). CHR '':'' \<notin> set k \<and> k \<noteq> []" using assms(9) by (auto simp: tidy_def)
  have nf': "nul_free (lp_endKey ?lp)" and ne': "lp_endKey ?lp \<noteq> []" using nf ne lp(4) by simp_all
  have rw: "ready ?w" using assms(1) by simp
  have ks': "ks = key_range (makeKey b ?from) (lp_endKey ?lp) True True (dom (store ?w))" using ks lp(4) by simp
  have nfs: "nul_free (makeKey b ?from)" using assms(3-5) by simp
  have ok': "\<forall>k \<in> set ks. listable E (store ?w) b (lp_prefixDir ?lp) k" using ok by simp
  obtain j t r' n' where j: "j \<le> length ks" "fold (list_step E (store ?w) b ?lp) (take j ks) (?r, ?n) = (r', n')"
    "n' \<le> 0 \<or> j = length ks" "0 \<le> ?n \<longrightarrow> 0 \<le> n'"
    "run_state (ListObjects_loop fuel E b ?lp (makeKey b ?from) True False (?r, ?n)) ?w =
       (Some (Inr (if j = 0 then makeKey b ?from else ks ! (j - 1), truncated t r', n')),
        if ?n \<le> 0 then ?w else touched ?w)"
    using run_ListObjects_loop [OF rw assms(2) lp(1) nf' ne' dom ks' nfs ok' fuel, of ?r ?n] by blast
  obtain r0 where r0: "fold (list_step E (store w) b ?lp) (take j ks) (ListObjectsInfo0, ?n) = (r0, n')"
    "r' = truncated (maxKeys > maxKeyRange) r0"
    using j(2) fold_list_step_truncated [of E "store w" b ?lp "take j ks" _ ListObjectsInfo0 ?n]
    by (cases "fold (list_step E (store w) b ?lp) (take j ks) (ListObjectsInfo0, ?n)") auto
  have mn: "min maxKeys maxKeyRange = ?n" by auto
  have len: "n' \<le> 0 \<longrightarrow> j \<noteq> 0" using r0(1) assms(10)
    by (cases j) (auto split: if_splits)
  have long: "\<not> length (ks ! (j - 1)) < Suc (length b)" if "j \<noteq> 0"
  proof -
    have "ks ! (j - 1) \<in> set ks" using j(1) that by simp
    then show ?thesis using ok by (auto simp: listable_def makeKey_def)
  qed
  have start: "(if marker = [] then lp_bucketPrefix ?lp @ strings_Split pre CHR ''*'' ! 0
      else lp_bucketPrefix ?lp @ marker) = makeKey b ?from"
    using lp(1) assms(6) by (simp add: Split_no_sep makeKey_def)
  have pos: "\<not> ?n \<le> 0" using assms(10) by auto
  have w: "(touched ?w)\<lparr>w_activeIO := w_activeIO w\<rparr> = touched w" by (simp add: touched_def)
  have plen: "length (lp_bucketPrefix ?lp) = Suc (length b)" using lp(1) by (simp add: makeKey_def)
  let ?res = "if 0 < n' \<or> maxKeys \<le> maxKeyRange then truncated False r0
     else r0\<lparr>lo_NextMarker := drop (Suc (length b)) (IncStr (ks ! (j - 1))), lo_IsTruncated := True\<rparr>"
  have "run_state (ListObjects fuel E b pre marker dl maxKeys) w = (Some (Inr ?res), touched w)"
    unfolding ListObjects_def Let_def start
    using j(5) len long r0(2) by (auto simp: run pos w plen)
  then show ?thesis
    using j(1,3,4) pos r0(1) unfolding mn by (intro exI [of _ j] exI [of _ r0] exI [of _ n']) simp
qed

text \<open>Without a delimiter: the objects that are not hidden among the first \<open>maxKeys\<close> (at most 400) keys.\<close>

lemma run_ListObjects_recursive:
  assumes "ready w" "b \<noteq> []" "nul_free b" "nul_free pre" "nul_free marker" "CHR ''*'' \<notin> set pre"
    "ends_low pre" "marker = [] \<or> prefix pre marker" "tidy E (store w) b" "0 < maxKeys"
    and ks: "ks = key_range (makeKey b (if marker = [] then pre else marker)) (IncStr (makeKey b pre)) True True
                    (dom (store w))"
    and fuel: "length ks + 1 < fuel" and n: "n = nat (min maxKeys maxKeyRange)"
  shows "run_state (ListObjects fuel E b pre marker [] maxKeys) w =
       (Some (Inr \<lparr>lo_IsTruncated = (maxKeyRange < maxKeys \<and> n \<le> length ks),
                   lo_NextMarker = (if maxKeyRange < maxKeys \<and> n \<le> length ks
                                    then drop (Suc (length b)) (IncStr (ks ! (n - 1))) else []),
                   lo_Objects = listed_objects E (store w) b (take n ks), lo_Prefixes = []\<rparr>),
        touched w)"
proof -
  let ?lp = "ListObjects_params b pre []"
  note lp = ListObjects_params_simps [OF assms(6), of b "[]"]
  obtain j r' n' where j: "j \<le> length ks" "n' \<le> 0 \<or> j = length ks" "0 \<le> n'"
    "fold (list_step E (store w) b ?lp) (take j ks) (ListObjectsInfo0, min maxKeys maxKeyRange) = (r', n')"
    "run_state (ListObjects fuel E b pre marker [] maxKeys) w =
       (Some (Inr (if 0 < n' \<or> maxKeys \<le> maxKeyRange then truncated False r'
                   else r'\<lparr>lo_NextMarker := drop (Suc (length b)) (IncStr (ks ! (j - 1))), lo_IsTruncated := True\<rparr>)),
        touched w)"
    using run_ListObjects [OF assms(1-12), of "[]"] by blast
  have f: "r' = ListObjectsInfo0\<lparr>lo_Objects := listed_objects E (store w) b (take j ks)\<rparr>"
    "n' = min maxKeys maxKeyRange - int j"
    using j(1,4) fold_recursive [of ?lp b E "store w" "take j ks"] lp by (auto simp: ListObjectsInfo0_def min_def)
  have "take j ks = take n ks" "n' = 0 \<longrightarrow> j = n" "n' = 0 \<longleftrightarrow> n \<le> length ks"
    using j(1,2,3) f(2) n by (auto simp: min_def split: if_splits)
  then show ?thesis using j(3,5) f(1) by (auto simp: ListObjectsInfo0_def)
qed

text \<open>With the delimiter, when the range holds fewer keys than were asked for.\<close>

lemma run_ListObjects_delimited:
  assumes "ready w" "b \<noteq> []" "nul_free b" "nul_free pre" "nul_free marker" "CHR ''*'' \<notin> set pre"
    "ends_low pre" "marker = [] \<or> prefix pre marker" "tidy E (store w) b" "0 < maxKeys"
    and ks: "ks = key_range (makeKey b (if marker = [] then pre else marker)) (IncStr (makeKey b pre)) True True
                    (dom (store w))"
    and fuel: "length ks + 1 < fuel" and n: "int (length ks) < min maxKeys maxKeyRange"
  defines "dir \<equiv> lp_prefixDir (ListObjects_params b pre SlashSeparator)"
  defines "plain \<equiv> \<lambda>k. CHR ''/'' \<notin> set (after_dir b dir k)"
  shows "\<exists>ps. run_state (ListObjects fuel E b pre marker SlashSeparator maxKeys) w =
       (Some (Inr \<lparr>lo_IsTruncated = False, lo_NextMarker = [],
                   lo_Objects = listed_objects E (store w) b (filter plain ks), lo_Prefixes = ps\<rparr>), touched w) \<and>
     distinct ps \<and> set ps = group_of b dir ` {k \<in> set ks. \<not> hidden_at E (store w) b k \<and> \<not> plain k}"
proof -
  let ?lp = "ListObjects_params b pre SlashSeparator"
  note lp = ListObjects_params_simps [OF assms(6), of b SlashSeparator]
  obtain j r' n' where j: "j \<le> length ks" "n' \<le> 0 \<or> j = length ks" "0 \<le> n'"
    "fold (list_step E (store w) b ?lp) (take j ks) (ListObjectsInfo0, min maxKeys maxKeyRange) = (r', n')"
    "run_state (ListObjects fuel E b pre marker SlashSeparator maxKeys) w =
       (Some (Inr (if 0 < n' \<or> maxKeys \<le> maxKeyRange then truncated False r'
                   else r'\<lparr>lo_NextMarker := drop (Suc (length b)) (IncStr (ks ! (j - 1))), lo_IsTruncated := True\<rparr>)),
        touched w)"
    using run_ListObjects [OF assms(1-12), of SlashSeparator] by blast
  have pm: "prefix pre (if marker = [] then pre else marker)" using assms(8) by auto
  have ok: "\<forall>k \<in> set ks. listable E (store w) b dir k"
    using listing_keys [OF assms(9,7) pm ks] lp(5) unfolding listable_def dir_def by (meson order_trans)
  have pos: "0 < n'"
    using fold_list_step_count [of "(ListObjectsInfo0, min maxKeys maxKeyRange)" "take j ks" E "store w" b ?lp] j(1,4) n
    by auto
  then have "j = length ks" using j(2) by simp
  then have "fold (list_step E (store w) b ?lp) ks (ListObjectsInfo0, min maxKeys maxKeyRange) = (r', n')"
    using j(4) by simp
  moreover have "\<not> lp_recursive ?lp" using lp(2) by simp
  ultimately show ?thesis
    using fold_delimited [OF _ lp(3,1), of ks E "store w"] ok pos j(5)
    by (auto simp: ListObjectsInfo0_def plain_def dir_def intro!: exI [of _ "lo_Prefixes r'"])
qed

text \<open>A bucket counts as empty when its first key is hidden, whatever comes after it.\<close>

lemma run_isBucketEmpty:
  assumes "ready w" "b \<noteq> []" "nul_free b" "tidy E (store w) b"
    and ks: "ks = key_range (makeKey b []) (b @ ''0'') True True (dom (store w))"
    and fuel: "length ks + 1 < fuel"
  shows "run_state (isBucketEmpty fuel E b) w =
    (Some (Inr (ks = [] \<or> hidden_at E (store w) b (hd ks))), touched w)"
proof -
  have "listed_objects E (store w) b (take 1 ks) = [] \<longleftrightarrow> ks = [] \<or> hidden_at E (store w) b (hd ks)"
    by (cases ks) (auto simp: listed_objects_def hidden_at_def)
  then show ?thesis
    using run_ListObjects_recursive [of w b "[]" "[]" 1 ks fuel 1] assms
    by (simp add: isBucketEmpty_def IncStr_bucket ends_low_def nul_free_def)
qed

lemma run_DeleteBucket_wrap:
  assumes "ready w" "fresh (w_ns w) b []"
    and "\<And>w1. ready w1 \<Longrightarrow> w_drive w1 = w_drive w \<Longrightarrow>
      w_ns w1 = locked (e_lrw E) (w_ns w) b [] False \<Longrightarrow>
      \<exists>w'. run_state (DeleteBucket_body fuel E b) w1 = (r, w') \<and> settled w1 w' \<and> P (store w')"
  shows "\<exists>w'. run_state (DeleteBucket fuel E b) w = (r, w') \<and> settled w w' \<and> P (store w')"
proof -
  let ?w = "w\<lparr>w_ns := locked (e_lrw E) (w_ns w) b [] False, w_activeIO := w_activeIO w + 1\<rparr>"
  obtain w' where "run_state (DeleteBucket_body fuel E b) ?w = (r, w')" "settled ?w w'" "P (store w')"
    using assms(3) [of ?w] assms(1) by auto
  then show ?thesis
    using assms(1,2) by (auto simp: DeleteBucket_def run run_ns_GetLock run_ns_Unlock settled_def)
qed

text \<open>A bucket whose first key is a visible object is refused.\<close>

lemma run_DeleteBucket_refused:
  assumes "ready w" "b \<noteq> []" "nul_free b" "fresh (w_ns w) b []" "tidy E (store w) b"
    and ks: "ks = key_range (makeKey b []) (b @ ''0'') True True (dom (store w))"
    and fuel: "length ks + 1 < fuel" and vis: "ks \<noteq> []" "\<not> hidden_at E (store w) b (hd ks)"
  shows "\<exists>w'. run_state (DeleteBucket fuel E b) w = (Some (Some (Storage errBucketNotEmpty)), w') \<and> settled w w' \<and>
     store w' = store w"
proof (rule run_DeleteBucket_wrap [OF assms(1,4)], goal_cases)
  case (1 w1)
  then show ?case
    using run_isBucketEmpty [of w1 b ks fuel] assms settled_touched [of w1]
    by (auto simp: DeleteBucket_body_def)
qed

end

context healthy_layer
begin

lemma run_DeleteBucket_key:
  assumes "ready w" "nul_free b"
  shows "\<exists>w'. run_state (DeleteBucket_key E b) w = (None, w') \<and> settled w w' \<and>
     store w' = (store w)(bucket_key b := None, ''bucketKey'' := None)"
proof -
  obtain d1 where d1: "cDelete (e_ops E) (bucket_key b) (option\<lparr>op_Force := False\<rparr>) (w_drive w) = (None, d1)"
    "contents d1 = (store w)(bucket_key b := None)"
    using cDelete_total [of "bucket_key b"] assms(2) by auto
  obtain d2 where d2: "cDelete (e_ops E) ''bucketKey'' (option\<lparr>op_Force := False\<rparr>) d1 = (None, d2)"
    "contents d2 = (contents d1)(''bucketKey'' := None)"
    using cDelete_total [of "''bucketKey''"] by auto
  have "run_state (DeleteBucket_key E b) w = (None, touched (w\<lparr>w_drive := d2\<rparr>))"
    using assms(1) d1(1) d2(1)
    by (simp add: DeleteBucket_key_def kc_defs Client_Delete_def run ready_defs)
  then show ?thesis using assms(1) d1(2) d2(2) by (simp add: settled_def)
qed

text \<open>A bucket without a key is removed.\<close>

lemma run_DeleteBucket_empty:
  assumes "ready w" "b \<noteq> []" "nul_free b" "fresh (w_ns w) b []" "tidy E (store w) b"
    and ks: "key_range (makeKey b []) (b @ ''0'') True True (dom (store w)) = []"
    and fuel: "4 < fuel"
  shows "\<exists>w'. run_state (DeleteBucket fuel E b) w = (Some None, w') \<and> settled w w' \<and>
     store w' = (store w)(bucket_key b := None, ''bucketKey'' := None)"
proof (rule run_DeleteBucket_wrap [OF assms(1,4)], goal_cases)
  case (1 w1)
  have dom: "\<forall>k \<in> dom (store w1). CHR '':'' \<notin> set k \<and> k \<noteq> []" using assms(5) 1 by (auto simp: tidy_def)
  have "key_range (makeKey b []) (b @ ''0'') False True (dom (store w1)) = []"
    using ks 1 finite_contents by (auto simp: key_range_def in_key_range_def)
  then have range: "CGetKeyRange (e_ops E) (makeKey b []) (b @ ''0'') False True 800 option (w_drive w1) = []"
    using CGetKeyRange_exact [OF dom, of "b @ ''0''"] assms(3) by (simp add: nul_free_def makeKey_def)
  have "fuel = Suc (Suc (Suc (Suc (fuel - 4))))" using fuel by simp
  then obtain f where f: "fuel = Suc (Suc (Suc (Suc f)))" by blast
  have loop: "run_state (DeleteBucket_loop fuel E b (Walk b []) None) (touched w1) = (Some (Inr None), touched w1)"
    using 1(1) range by (simp add: f Walk_def makeKey_eq kc_defs run ready_defs pool_touch)
  obtain w' where "run_state (DeleteBucket_key E b) (touched w1) = (None, w')" "settled (touched w1) w'"
    "store w' = (store w)(bucket_key b := None, ''bucketKey'' := None)"
    using run_DeleteBucket_key [of "touched w1" b] 1 assms(3) by auto
  then show ?case
    using run_isBucketEmpty [of w1 b "[]" fuel] 1 assms loop
    by (auto simp: DeleteBucket_body_def settled_def)
qed

end

end
