(* ===== verification/Kinetic_Multipart.thy ===== *)
theory Kinetic_Multipart
  imports Kinetic_Listing
begin

text \<open>
  Uploads in several parts and copying, from \<^verbatim>\<open>cmd/kinetic-multipart.go\<close> and \<^verbatim>\<open>cmd/kinetic.go\<close>:
  \<^verbatim>\<open>NewMultipartUpload\<close>, \<^verbatim>\<open>PutObjectPart\<close>, \<^verbatim>\<open>ListObjectParts\<close>, \<^verbatim>\<open>CompleteMultipartUpload\<close>,
  \<^verbatim>\<open>AbortMultipartUpload\<close>, \<^verbatim>\<open>copyMultipartObject\<close>, \<^verbatim>\<open>CopyObject\<close>, \<^verbatim>\<open>deleteKeys\<close> and \<^verbatim>\<open>deleteParts\<close>, with the ETag
  helpers they use.

  An upload in progress is the key \<open>upload_key\<close>, which holds its metadata twice, as metadata and as
  value; its parts are stored under the version the object will have next.
\<close>

section \<open>ETags\<close>

text \<open>The regular expression of \<^verbatim>\<open>canonicalizeETag\<close> matches the longest end of the string that is made of
  quotes, characters other than a quote, and quotes; the match is replaced by its middle.\<close>

definition canonicalizeETag :: "string \<Rightarrow> string" where
  "canonicalizeETag etag =
     (let quote = (\<lambda>c. c = CHR 0x22);
          t = dropWhile quote (rev etag);
          middle = takeWhile (\<lambda>c. \<not> quote c) t;
          before = dropWhile quote (dropWhile (\<lambda>c. \<not> quote c) t)
      in rev before @ rev middle)"

definition isETagEqual :: "string \<Rightarrow> string \<Rightarrow> bool" where
  "isETagEqual left right = (canonicalizeETag left = canonicalizeETag right)"

definition ToS3ETag :: "string \<Rightarrow> string" where
  "ToS3ETag etag =
     (let etag = canonicalizeETag etag
      in if \<not> strings_HasSuffix etag ''-1'' then etag @ ''-1'' else etag)"

definition getMD5Hash :: "('d, 'm) env \<Rightarrow> bytes \<Rightarrow> string" where
  "getMD5Hash E data = hex_EncodeToString (e_md5 E data)"

definition GenETag :: "('d, 'm) env \<Rightarrow> ('d, 'm, string) go" where
  "GenETag E = do { uuid \<leftarrow> mustGetUUID E; State_Monad.return (ToS3ETag (getMD5Hash E uuid)) }"

definition etag_bytes :: "string \<Rightarrow> bytes" where
  "etag_bytes etag = (case hex_DecodeString (canonicalizeETag etag) of Some md5Bytes \<Rightarrow> md5Bytes | None \<Rightarrow> etag)"

definition getCompleteMultipartMD5 :: "('d, 'm) env \<Rightarrow> CompletePart list \<Rightarrow> string" where
  "getCompleteMultipartMD5 E parts =
     getMD5Hash E (concat (map (\<lambda>part. etag_bytes (cp_ETag part)) parts)) @ ''-'' @ FormatInt (int (length parts))"

section \<open>Part sizes\<close>

abbreviation globalMinPartSize :: int where "globalMinPartSize \<equiv> 1048576"
abbreviation globalMaxPartSize :: int where "globalMaxPartSize \<equiv> 5242880"
abbreviation globalMaxObjectSize :: int where "globalMaxObjectSize \<equiv> 5497558138880"
abbreviation globalMaxPartID :: int where "globalMaxPartID \<equiv> 10000"

definition isMaxObjectSize :: "int \<Rightarrow> bool" where "isMaxObjectSize sz = (sz > globalMaxObjectSize)"
definition isMaxAllowedPartSize :: "int \<Rightarrow> bool" where "isMaxAllowedPartSize sz = (sz > globalMaxPartSize)"
definition isMinAllowedPartSize :: "int \<Rightarrow> bool" where "isMinAllowedPartSize sz = (sz \<ge> globalMinPartSize)"
definition isMaxPartID :: "int \<Rightarrow> bool" where "isMaxPartID partID = (partID > globalMaxPartID)"

abbreviation metaJSONFile :: string where "metaJSONFile \<equiv> ''fs.json''"

definition upload_key :: "string \<Rightarrow> string \<Rightarrow> string \<Rightarrow> string" where
  "upload_key bucket object uploadID = bucket @ ''/'' @ object @ ''.'' @ metaJSONFile @ ''.'' @ uploadID"

section \<open>Deleting parts\<close>

fun deleteKeys_loop :: "('d, 'm) env \<Rightarrow> string list \<Rightarrow> ('d, 'm, error option) go" where
  "deleteKeys_loop E [] = State_Monad.return None"
| "deleteKeys_loop E (key # keys) =
     do {
       err \<leftarrow> kc_Delete E key option;
       if err \<noteq> None then State_Monad.return err else deleteKeys_loop E keys
     }"

definition deleteKeys :: "('d, 'm) env \<Rightarrow> string list \<Rightarrow> ('d, 'm, error option) go" where
  "deleteKeys E keys =
     do {
       kineticMutex_Lock;
       kc \<leftarrow> getConn;
       err \<leftarrow> deleteKeys_loop E keys;
       kineticMutex_Unlock;
       releaseConn kc;
       State_Monad.return err
     }"

text \<open>The range is scanned and deleted twice; the error of the second deletion goes into a variable of
  the inner block and is lost.\<close>

definition deleteParts :: "('d, 'm) env \<Rightarrow> string \<Rightarrow> string \<Rightarrow> ('d, 'm, error option) go" where
  "deleteParts E objKey version =
     (let startKey = objKey @ ''.'' @ version @ ''.'';
          endKey = IncStr startKey
      in do {
        kineticMutex_Lock;
        kc \<leftarrow> getConn;
        objKeys \<leftarrow> kc_CGetKeyRange E startKey endKey True False 800 option;
        releaseConn kc;
        kineticMutex_Unlock;
        err \<leftarrow> deleteKeys E objKeys;
        if err = None then do {
          kineticMutex_Lock;
          kc \<leftarrow> getConn;
          metaKeys \<leftarrow> kc_CGetKeyRange E startKey endKey True False 800 option;
          releaseConn kc;
          kineticMutex_Unlock;
          deleteKeys E metaKeys;
          State_Monad.return None
        } else State_Monad.return err
      })"

section \<open>Starting an upload and writing a part\<close>

text \<open>\<^verbatim>\<open>fsMeta.Meta = opts.UserDefined\<close> shares the caller's map: writing into a \<^verbatim>\<open>nil\<close> map panics.\<close>

definition NewMultipartUpload ::
  "('d, 'm) env \<Rightarrow> string \<Rightarrow> string \<Rightarrow> ObjectOptions \<Rightarrow> ('d, 'm, error + string) go" where
  "NewMultipartUpload E bucket object opts =
     do {
       err \<leftarrow> checkObjectArgs E bucket object;
       if err \<noteq> None then State_Monad.return (Inl (the (toObjectErr err [bucket])))
       else do {
         r \<leftarrow> GetBucketInfo E bucket;
         case r of Inl e \<Rightarrow> State_Monad.return (Inl (the (toObjectErr (Some e) [bucket]))) | Inr _ \<Rightarrow> do {
           uploadID \<leftarrow> mustGetUUID E;
           case oo_UserDefined opts of
             None \<Rightarrow> State_Monad.return (Inl (GoPanic ''assignment to entry in nil map''))
           | Some userDefined \<Rightarrow> do {
               now \<leftarrow> time_Now E;
               let fsMeta = newFSMetaV1\<lparr>fm_Meta := mset ''size'' (FormatInt 0) userDefined,
                              fm_KoInfo := KOInfo0\<lparr>ko_Name := object, ko_Size := 0, ko_CreatedTime := now\<rparr>\<rparr>;
               kineticMutex_Lock;
               kc \<leftarrow> getConn;
               err \<leftarrow> kc_CPut E (upload_key bucket object uploadID) (Json fsMeta) (Json fsMeta) option;
               releaseConn kc;
               kineticMutex_Unlock;
               State_Monad.return (case err of None \<Rightarrow> Inr uploadID | Some e \<Rightarrow> Inl e)
             }
         }
       }
     }"

definition part_meta :: "string \<Rightarrow> string \<Rightarrow> int \<Rightarrow> int \<Rightarrow> fsMetaV1" where
  "part_meta object etag sz now =
     newFSMetaV1\<lparr>fm_Meta := mset ''hidden'' ''1'' (mset ''size'' (FormatInt sz) (mset ''etag'' etag [])),
                 fm_KoInfo := KOInfo0\<lparr>ko_Name := object, ko_Size := sz, ko_CreatedTime := now\<rparr>\<rparr>"

definition part_bufSize :: "int \<Rightarrow> int" where
  "part_bufSize sz = (if sz > 0 \<and> blockSizeV1 > sz then sz else blockSizeV1)"

definition PutObjectPart ::
  "('d, 'm) env \<Rightarrow> string \<Rightarrow> string \<Rightarrow> string \<Rightarrow> int \<Rightarrow> Reader \<Rightarrow> ('d, 'm, error + PartInfo) go" where
  "PutObjectPart E bucket object uploadID partID r =
     do {
       err \<leftarrow> checkObjectArgs E bucket object;
       if err \<noteq> None then State_Monad.return (Inl (the (toObjectErr err [bucket])))
       else do {
         b \<leftarrow> GetBucketInfo E bucket;
         case b of Inl e \<Rightarrow> State_Monad.return (Inl (the (toObjectErr (Some e) [bucket]))) | Inr _ \<Rightarrow>
         if r_size r < - 1 then State_Monad.return (Inl (the (toObjectErr (Some (Storage errInvalidArgument)) [])))
         else (let bufSize = part_bufSize (r_size r) in
           case readToBuffer (e_md5 E) (e_sha256 E) r (nat bufSize) of
             (goBuf, r', Some err) \<Rightarrow> State_Monad.return (Inl err)
           | (goBuf, r', None) \<Rightarrow> do {
               etag \<leftarrow> MD5CurrentHexString E r';
               etag \<leftarrow> (if etag = [] then GenETag E else State_Monad.return etag);
               (objVer, verr) \<leftarrow> currentVersion E (makeKey bucket object);
               if verr = Some slicePanic then State_Monad.return (Inl slicePanic)
               else do {
                 metaTag \<leftarrow> MD5CurrentHexString E r';
                 now \<leftarrow> time_Now E;
                 kineticMutex_Lock;
                 kc \<leftarrow> getConn;
                 err \<leftarrow> kc_CPut E (part_key bucket object (newVersion objVer) partID etag (r_actualSize r))
                          (Json (part_meta object metaTag (r_size r) now)) (Raw goBuf) option;
                 releaseConn kc;
                 kineticMutex_Unlock;
                 case err of
                   Some e \<Rightarrow> State_Monad.return (Inl e)
                 | None \<Rightarrow> do {
                     now \<leftarrow> time_Now E;
                     State_Monad.return (Inr \<lparr>pi_PartNumber = partID, pi_LastModified = now, pi_ETag = etag,
                                              pi_Size = bufSize, pi_ActualSize = r_actualSize r\<rparr>)
                   }
               }
             })
       }
     }"

section \<open>Listing the parts\<close>

record ListPartsInfo =
  pl_Bucket :: string
  pl_Object :: string
  pl_UploadID :: string
  pl_PartNumberMarker :: int
  pl_NextPartNumberMarker :: int
  pl_MaxParts :: int
  pl_IsTruncated :: bool
  pl_Parts :: "PartInfo list"
  pl_UserDefined :: strmap

text \<open>The keys of a range with the range's start cut off.\<close>

fun strip_keys :: "string \<Rightarrow> string list \<Rightarrow> error + string list" where
  "strip_keys startKey [] = Inr []"
| "strip_keys startKey (key # keys) =
     (if length key < length startKey then Inl slicePanic
      else (case strip_keys startKey keys of
              Inl e \<Rightarrow> Inl e
            | Inr ks \<Rightarrow> Inr (drop (length startKey) key # ks)))"

text \<open>The newest ETag of each part number. The map is an association list.\<close>

fun parts_map ::
  "('d, 'm) env \<Rightarrow> string \<Rightarrow> string list \<Rightarrow> string list \<Rightarrow> (int \<times> string) list \<Rightarrow>
   ('d, 'm, error + (int \<times> string) list) go" where
  "parts_map E startKey allKeys [] m = State_Monad.return (Inr m)"
| "parts_map E startKey allKeys (k # keys) m =
     (if k = metaJSONFile then parts_map E startKey allKeys keys m
      else (case decodePartFile k of
              Inr _ \<Rightarrow> parts_map E startKey allKeys keys m
            | Inl (partNumber, etag1, _) \<Rightarrow>
                (case map_of m partNumber of
                   None \<Rightarrow> parts_map E startKey allKeys keys (AList.update partNumber etag1 m)
                 | Some etag2 \<Rightarrow> do {
                     stat1 \<leftarrow> koStat E (startKey @ getPartKO allKeys partNumber etag1);
                     case stat1 of
                       Inl e \<Rightarrow> State_Monad.return (Inl (the (toObjectErr (Some e) [])))
                     | Inr stat1 \<Rightarrow> do {
                         stat2 \<leftarrow> koStat E (startKey @ getPartKO allKeys partNumber etag2);
                         case stat2 of
                           Inl e \<Rightarrow> State_Monad.return (Inl (the (toObjectErr (Some e) [])))
                         | Inr stat2 \<Rightarrow>
                             parts_map E startKey allKeys keys
                               (if ki_modTime stat1 > ki_modTime stat2
                                then AList.update partNumber etag1 m else m)
                       }
                   })))"

text \<open>The actual size at the end of a part's name; the error is that of \<^verbatim>\<open>ParseInt\<close>.\<close>

definition part_actual_size :: "string \<Rightarrow> int option" where
  "part_actual_size partFile =
     (case ParseInt (last (strings_Split partFile CHR ''.'')) of (n, None) \<Rightarrow> Some n | (_, Some _) \<Rightarrow> None)"

fun parts_infos :: "string list \<Rightarrow> (int \<times> string) list \<Rightarrow> error + PartInfo list" where
  "parts_infos keys [] = Inr []"
| "parts_infos keys ((partNumber, etag) # m) =
     (let partFile = getPartKO keys partNumber etag in
      if partFile = [] then Inl (Request (InvalidPart 0 [] []))
      else (case part_actual_size partFile of
              None \<Rightarrow> Inl (Request (InvalidPart 0 [] []))
            | Some actualSize \<Rightarrow>
                (case parts_infos keys m of
                   Inl e \<Rightarrow> Inl e
                 | Inr ps \<Rightarrow> Inr (PartInfo0\<lparr>pi_PartNumber := partNumber, pi_ETag := etag,
                                          pi_ActualSize := actualSize\<rparr> # ps))))"

text \<open>How many parts are skipped for a marker: those up to and with it, all of them if it is not there.\<close>

definition marker_skip :: "int \<Rightarrow> PartInfo list \<Rightarrow> nat" where
  "marker_skip marker parts =
     (if marker = 0 then 0
      else (let n = length (takeWhile (\<lambda>p. pi_PartNumber p \<noteq> marker) parts)
            in if n < length parts then n + 1 else length parts))"

fun stat_parts ::
  "('d, 'm) env \<Rightarrow> string \<Rightarrow> PartInfo list \<Rightarrow> ('d, 'm, error + PartInfo list) go" where
  "stat_parts E keyPrefix [] = State_Monad.return (Inr [])"
| "stat_parts E keyPrefix (part # parts) =
     do {
       stat \<leftarrow> koStat E (keyPrefix @ encodePartFile (pi_PartNumber part) (pi_ETag part) (pi_ActualSize part));
       case stat of
         Inl e \<Rightarrow> State_Monad.return (Inl (the (toObjectErr (Some e) [])))
       | Inr stat \<Rightarrow> do {
           rest \<leftarrow> stat_parts E keyPrefix parts;
           State_Monad.return
             (case rest of
                Inl e \<Rightarrow> Inl e
              | Inr ps \<Rightarrow> Inr (part\<lparr>pi_LastModified := ki_modTime stat, pi_Size := pi_ActualSize part\<rparr> # ps))
         }
     }"

text \<open>The metadata of the upload, the last thing \<^verbatim>\<open>ListObjectParts\<close> reads.\<close>

definition upload_meta :: "('d, 'm) env \<Rightarrow> string \<Rightarrow> ('d, 'm, error + strmap) go" where
  "upload_meta E key =
     do {
       kineticMutex_Lock;
       kc \<leftarrow> getConn;
       (cvalue, err) \<leftarrow> kc_CGetMeta E key option;
       releaseConn kc;
       kineticMutex_Unlock;
       State_Monad.return
         (if err \<noteq> None then Inl (Storage errFileNotFound)
          else (case cvalue of
                  None \<Rightarrow> Inr []
                | Some value \<Rightarrow>
                    (case json_Unmarshal (e_json E) value fsMetaV1_0 of
                       (_, Some err) \<Rightarrow> Inl err
                     | (fsMeta, None) \<Rightarrow> Inr (fm_Meta fsMeta))))
     }"

definition ListObjectParts ::
  "('d, 'm) env \<Rightarrow> string \<Rightarrow> string \<Rightarrow> string \<Rightarrow> int \<Rightarrow> int \<Rightarrow> ('d, 'm, error + ListPartsInfo) go" where
  "ListObjectParts E bucket object uploadID partNumberMarker maxParts =
     do {
       err \<leftarrow> checkObjectArgs E bucket object;
       if err \<noteq> None then State_Monad.return (Inl (the (toObjectErr err [])))
       else do {
         b \<leftarrow> GetBucketInfo E bucket;
         case b of Inl e \<Rightarrow> State_Monad.return (Inl (the (toObjectErr (Some e) [bucket]))) | Inr _ \<Rightarrow> do {
           (vers, verr) \<leftarrow> currentVersion E (makeKey bucket object);
           if verr = Some slicePanic then State_Monad.return (Inl slicePanic)
           else do {
             let startKey = bucket @ ''/'' @ object @ ''.'' @ vers @ ''.'';
             kineticMutex_Lock;
             kc \<leftarrow> getConn;
             keys \<leftarrow> kc_CGetKeyRange E startKey (IncStr startKey) True False 800 option;
             releaseConn kc;
             kineticMutex_Unlock;
             case strip_keys startKey keys of Inl e \<Rightarrow> State_Monad.return (Inl e) | Inr ks \<Rightarrow> do {
               m \<leftarrow> parts_map E startKey ks ks [];
               case m of Inl e \<Rightarrow> State_Monad.return (Inl e) | Inr partsMap \<Rightarrow>
               case parts_infos ks partsMap of Inl e \<Rightarrow> State_Monad.return (Inl e) | Inr infos \<Rightarrow> do {
                 let parts = sort_key pi_PartNumber infos;
                 let i = marker_skip partNumberMarker parts;
                 let page = take (nat maxParts) (drop i parts);
                 stats \<leftarrow> stat_parts E startKey page;
                 case stats of Inl e \<Rightarrow> State_Monad.return (Inl e) | Inr ps \<Rightarrow> do {
                   u \<leftarrow> upload_meta E (upload_key bucket object uploadID);
                   State_Monad.return
                     (case u of
                        Inl e \<Rightarrow> Inl e
                      | Inr userDefined \<Rightarrow>
                          Inr \<lparr>pl_Bucket = bucket, pl_Object = object, pl_UploadID = uploadID,
                               pl_PartNumberMarker = partNumberMarker,
                               pl_NextPartNumberMarker =
                                 (if i + length page < length parts \<and> page \<noteq> []
                                  then pi_PartNumber (last page) else 0),
                               pl_MaxParts = maxParts,
                               pl_IsTruncated = (i + length page < length parts),
                               pl_Parts = ps, pl_UserDefined = userDefined\<rparr>)
                 }
               }
             }
           }
         }
       }
     }"

section \<open>Completing and aborting\<close>

text \<open>The validation loop: the part infos in the order of the request and the total of the sizes in their
  names. Every part but the last has to be large enough.\<close>

fun complete_parts ::
  "('d, 'm) env \<Rightarrow> string \<Rightarrow> string list \<Rightarrow> CompletePart list \<Rightarrow> ('d, 'm, error + ObjectPartInfo list \<times> int) go" where
  "complete_parts E keyPrefix keys [] = State_Monad.return (Inr ([], 0))"
| "complete_parts E keyPrefix keys (part # parts) =
     (let partFile = getPartKO keys (cp_PartNumber part) (cp_ETag part);
          invalid = Inl (Request (InvalidPart (cp_PartNumber part) [] (cp_ETag part)))
      in if partFile = [] then State_Monad.return invalid
         else (case part_actual_size partFile of
             None \<Rightarrow> State_Monad.return invalid
           | Some actualSize \<Rightarrow> do {
               fi \<leftarrow> koStat E (keyPrefix @ partFile);
               case fi of
                 Inl e \<Rightarrow>
                   State_Monad.return
                     (if e = Storage errFileNotFound \<or> e = Storage errFileAccessDenied
                      then Inl (Request (InvalidPart 0 [] [])) else Inl e)
               | Inr fi \<Rightarrow>
                   (let p = \<lparr>op_ETag = cp_ETag part, op_Number = cp_PartNumber part, op_Size = ki_size fi,
                             op_ActualSize = actualSize\<rparr> in
                    if parts = [] then State_Monad.return (Inr ([p], actualSize))
                    else if \<not> isMinAllowedPartSize actualSize then
                      State_Monad.return
                        (Inl (Request (PartTooSmall actualSize (cp_PartNumber part) (cp_ETag part))))
                    else do {
                      rest \<leftarrow> complete_parts E keyPrefix keys parts;
                      State_Monad.return
                        (case rest of Inl e \<Rightarrow> Inl e | Inr (ps, others) \<Rightarrow> Inr (p # ps, wrap64 (actualSize + others)))
                    })
             }))"

definition complete_meta :: "string \<Rightarrow> int \<Rightarrow> string \<Rightarrow> fsMetaV1 \<Rightarrow> fsMetaV1" where
  "complete_meta nxtVer objectActualSize s3MD5 fsMeta =
     fsMeta\<lparr>fm_Meta := mset ''X-Minio-Internal-actual-size'' (FormatInt objectActualSize)
              (mset ''etag'' s3MD5 (mset ''size'' (FormatInt objectActualSize)
                (mset ''version'' nxtVer (fm_Meta fsMeta))))\<rparr>"

text \<open>The deletion of the parts of the previous version, if there is one; its error is ignored.\<close>

definition delete_previous :: "('d, 'm) env \<Rightarrow> string \<Rightarrow> string \<Rightarrow> string \<Rightarrow> ('d, 'm, unit) go" where
  "delete_previous E bucket object objVer =
     (if objVer \<noteq> [] then do { deleteParts E (makeKey bucket object) objVer; State_Monad.return () }
      else State_Monad.return ())"

text \<open>From the point where the parts have been validated: the upload's metadata is read from the value of
  its key, the key is deleted, the object's key is written, the parts of the previous version are deleted.\<close>

definition complete_commit ::
  "('d, 'm) env \<Rightarrow> string \<Rightarrow> string \<Rightarrow> string \<Rightarrow> string \<Rightarrow> string \<Rightarrow> ObjectPartInfo list \<Rightarrow> int \<Rightarrow>
   ('d, 'm, error + ObjectInfo) go" where
  "complete_commit E bucket object uploadID objVer s3MD5 ps objectActualSize =
     do {
       kineticMutex_Lock;
       kc \<leftarrow> getConn;
       (cvalue, err) \<leftarrow> kc_CGet E (upload_key bucket object uploadID) (- 1) option 0 (- 1);
       (if err = None then do { kc_Delete E (upload_key bucket object uploadID) option; State_Monad.return () }
        else State_Monad.return ());
       releaseConn kc;
       if err \<noteq> None then do { kineticMutex_Unlock; State_Monad.return (Inl (Storage errFileNotFound)) }
       else (case (case cvalue of
                     Some value \<Rightarrow> json_Unmarshal (e_json E) value (fsMetaV1_0\<lparr>fm_Parts := ps\<rparr>)
                   | None \<Rightarrow> (fsMetaV1_0\<lparr>fm_Parts := ps\<rparr>, None)) of
           (_, Some e) \<Rightarrow> do { kineticMutex_Unlock; State_Monad.return (Inl e) }
         | (fsMeta, None) \<Rightarrow> do {
             let fsMeta = complete_meta (newVersion objVer) objectActualSize s3MD5 fsMeta;
             kc \<leftarrow> getConn;
             err \<leftarrow> kc_CPut E (bucket @ ''/'' @ object) (Json fsMeta) (Raw []) option;
             releaseConn kc;
             kineticMutex_Unlock;
             case err of Some e \<Rightarrow> State_Monad.return (Inl e) | None \<Rightarrow> do {
               delete_previous E bucket object objVer;
               now \<leftarrow> time_Now E;
               State_Monad.return (Inr (ToObjectKVInfo (e_meta E) fsMeta bucket object
                 (KVInfo0\<lparr>ki_name := object, ki_size := objectActualSize, ki_modTime := now\<rparr>)))
             }
           })
     }"

definition CompleteMultipartUpload ::
  "('d, 'm) env \<Rightarrow> string \<Rightarrow> string \<Rightarrow> string \<Rightarrow> CompletePart list \<Rightarrow> ('d, 'm, error + ObjectInfo) go" where
  "CompleteMultipartUpload E bucket object uploadID parts =
     do {
       (objVer, verr) \<leftarrow> currentVersion E (makeKey bucket object);
       if verr = Some slicePanic then State_Monad.return (Inl slicePanic)
       else do {
         let startKey = bucket @ ''/'' @ object @ ''.'' @ newVersion objVer @ ''.'';
         kineticMutex_Lock;
         kc \<leftarrow> getConn;
         keys \<leftarrow> kc_CGetKeyRange E startKey (IncStr startKey) True False 800 option;
         releaseConn kc;
         kineticMutex_Unlock;
         case strip_keys startKey keys of Inl e \<Rightarrow> State_Monad.return (Inl e) | Inr ks \<Rightarrow> do {
           v \<leftarrow> complete_parts E startKey ks parts;
           case v of
             Inl e \<Rightarrow> State_Monad.return (Inl e)
           | Inr (ps, objectActualSize) \<Rightarrow>
               complete_commit E bucket object uploadID objVer (getCompleteMultipartMD5 E parts) ps objectActualSize
         }
       }
     }"

definition AbortMultipartUpload ::
  "('d, 'm) env \<Rightarrow> string \<Rightarrow> string \<Rightarrow> string \<Rightarrow> ('d, 'm, error option) go" where
  "AbortMultipartUpload E bucket object uploadID =
     do {
       kineticMutex_Lock;
       kc \<leftarrow> getConn;
       kc_Delete E (upload_key bucket object uploadID) option;
       releaseConn kc;
       kineticMutex_Unlock;
       (objVer, verr) \<leftarrow> currentVersion E (bucket @ SlashSeparator @ object);
       if verr = Some slicePanic then State_Monad.return (Some slicePanic)
       else deleteParts E (bucket @ SlashSeparator @ object) (newVersion objVer)
     }"

section \<open>Copying\<close>

text \<open>The loop over the parts of the source. The reader is read part by part; an error of reading is
  overwritten by the result of the put, and what was not read of the buffer is written as it is.\<close>

fun copy_parts ::
  "('d, 'm) env \<Rightarrow> string \<Rightarrow> string \<Rightarrow> string \<Rightarrow> ObjectPartInfo list \<Rightarrow> Reader \<Rightarrow>
   ('d, 'm, error + ObjectPartInfo list) go" where
  "copy_parts E dstObjKey dstObj nxtVers [] r = State_Monad.return (Inr [])"
| "copy_parts E dstObjKey dstObj nxtVers (part # parts) r =
     do {
       now \<leftarrow> time_Now E;
       if op_Size part < 0 then State_Monad.return (Inl slicePanic)
       else (let n = nat (op_Size part);
                 (got, r', _) = readToBuffer (e_md5 E) (e_sha256 E) r n
         in do {
           kineticMutex_Lock;
           kc \<leftarrow> getConn;
           err \<leftarrow> kc_CPut E (dstObjKey @ ''.'' @ nxtVers @ ''.'' @
                             encodePartFile (op_Number part) (op_ETag part) (op_Size part))
                    (Json (part_meta dstObj (op_ETag part) (op_Size part) now))
                    (Raw (got @ drop (length got) (e_uninit E n))) option;
           releaseConn kc;
           kineticMutex_Unlock;
           case err of Some e \<Rightarrow> State_Monad.return (Inl e) | None \<Rightarrow> do {
             rest \<leftarrow> copy_parts E dstObjKey dstObj nxtVers parts r';
             State_Monad.return
               (case rest of Inl e \<Rightarrow> Inl e
                | Inr ps \<Rightarrow> Inr (part\<lparr>op_ActualSize := op_Size part\<rparr> # ps))
           }
         })
     }"

definition copied_meta :: "string \<Rightarrow> ObjectInfo \<Rightarrow> string \<Rightarrow> ObjectPartInfo list \<Rightarrow> int \<Rightarrow> fsMetaV1" where
  "copied_meta nxtVers srcInfo dstObj ps now =
     newFSMetaV1\<lparr>fm_Meta := mset ''X-Minio-Internal-actual-size'' (FormatInt (oi_Size srcInfo))
                    (mset ''size'' (FormatInt (oi_Size srcInfo)) (mset ''etag'' (oi_ETag srcInfo)
                      (mset ''version'' nxtVers []))),
                 fm_Parts := ps,
                 fm_KoInfo := KOInfo0\<lparr>ko_Name := dstObj, ko_Size := 0, ko_CreatedTime := now\<rparr>\<rparr>"

definition copyMultipartObject ::
  "('d, 'm) env \<Rightarrow> ObjectInfo \<Rightarrow> Reader \<Rightarrow> string \<Rightarrow> string \<Rightarrow> ('d, 'm, error + ObjectInfo) go" where
  "copyMultipartObject E srcInfo r dstBucket dstObj =
     (let dstObjKey = makeKey dstBucket dstObj in
      do {
        (dstObjVers, verr) \<leftarrow> currentVersion E dstObjKey;
        if verr = Some slicePanic then State_Monad.return (Inl slicePanic)
        else do {
          let dstObjNxtVers = newVersion dstObjVers;
          c \<leftarrow> copy_parts E dstObjKey dstObj dstObjNxtVers (oi_Parts srcInfo) r;
          case c of
            Inl e \<Rightarrow>
              if e = slicePanic then State_Monad.return (Inl slicePanic)
              else do { deleteParts E dstObjKey dstObjNxtVers; State_Monad.return (Inl e) }
          | Inr ps \<Rightarrow> do {
              now \<leftarrow> time_Now E;
              let objMeta = copied_meta dstObjNxtVers srcInfo dstObj ps now;
              kineticMutex_Lock;
              kc \<leftarrow> getConn;
              err \<leftarrow> kc_CPut E dstObjKey (Json objMeta) (Raw []) option;
              releaseConn kc;
              kineticMutex_Unlock;
              case err of
                None \<Rightarrow> do {
                  deleteParts E dstObjKey dstObjVers;
                  now \<leftarrow> time_Now E;
                  State_Monad.return (Inr (ToObjectKVInfo (e_meta E) objMeta dstBucket dstObj
                    (KVInfo0\<lparr>ki_name := dstObj, ki_size := oi_Size srcInfo, ki_modTime := now\<rparr>)))
                }
              | Some e \<Rightarrow> do { deleteParts E dstObjKey dstObjNxtVers; State_Monad.return (Inl e) }
            }
        }
      })"

text \<open>The branch of \<^verbatim>\<open>CopyObject\<close> for a copy of an object onto itself that changes its metadata only.\<close>

definition copy_metadata_only ::
  "('d, 'm) env \<Rightarrow> string \<Rightarrow> string \<Rightarrow> ('d, 'm, error + ObjectInfo) go" where
  "copy_metadata_only E srcBucket srcObject =
     do {
       kineticMutex_Lock;
       kc \<leftarrow> getConn;
       (cvalue, err) \<leftarrow> kc_CGetMeta E (srcBucket @ SlashSeparator @ srcObject) option;
       releaseConn kc;
       let fsMeta = (if err \<noteq> None then defaultFsJSON (e_meta E) srcObject else newFSMetaV1);
       case cvalue of
         Some value \<Rightarrow>
           if \<not> fits16 E value then State_Monad.return (Inl slicePanic)
           else (case json_Unmarshal (e_json E) value (fsMeta\<lparr>fm_Meta := []\<rparr>) of
             (_, Some e) \<Rightarrow> do {
               kineticMutex_Unlock;
               State_Monad.return (Inl (the (toObjectErr (Some e) [srcBucket, srcObject])))
             }
           | (fsMeta, None) \<Rightarrow> do {
               kineticMutex_Unlock;
               State_Monad.return
                 (Inr (KVInfoToObjectInfo (e_meta E) fsMeta srcBucket srcObject (Some (kv_of_meta fsMeta))))
             })
       | None \<Rightarrow> do {
           kineticMutex_Unlock;
           State_Monad.return
             (Inr (KVInfoToObjectInfo (e_meta E) fsMeta srcBucket srcObject (Some (kv_of_meta fsMeta))))
         }
     }"

definition CopyObject_body ::
  "('d, 'm) env \<Rightarrow> string \<Rightarrow> string \<Rightarrow> string \<Rightarrow> string \<Rightarrow> ObjectInfo \<Rightarrow> Reader \<Rightarrow> ('d, 'm, error + ObjectInfo) go" where
  "CopyObject_body E srcBucket srcObject dstBucket dstObject srcInfo r =
     do {
       s \<leftarrow> statBucketDir E srcBucket;
       case s of
         Inl e \<Rightarrow> State_Monad.return (Inl (the (toObjectErr (Some e) [srcBucket])))
       | Inr _ \<Rightarrow>
         if isStringEqual (pathJoin [srcBucket, srcObject]) (pathJoin [dstBucket, dstObject]) \<and> oi_metadataOnly srcInfo
         then copy_metadata_only E srcBucket srcObject
         else do {
           err \<leftarrow> checkPutObjectArgs E dstBucket dstObject (r_size r);
           case err of Some e \<Rightarrow> State_Monad.return (Inl e) | None \<Rightarrow> do {
             c \<leftarrow> (if length (oi_Parts srcInfo) = 0
                   then putObject E dstBucket dstObject r \<lparr>oo_UserDefined = Some (oi_UserDefined srcInfo)\<rparr>
                   else copyMultipartObject E srcInfo r dstBucket dstObject);
             State_Monad.return (map_err [dstBucket, dstObject] c)
           }
         }
     }"

definition CopyObject ::
  "('d, 'm) env \<Rightarrow> string \<Rightarrow> string \<Rightarrow> string \<Rightarrow> string \<Rightarrow> ObjectInfo \<Rightarrow> Reader \<Rightarrow> ('d, 'm, error + ObjectInfo) go" where
  "CopyObject E srcBucket srcObject dstBucket dstObject srcInfo r =
     (if isStringEqual (pathJoin [srcBucket, srcObject]) (pathJoin [dstBucket, dstObject]) then do {
        activeIO 1;
        res \<leftarrow> CopyObject_body E srcBucket srcObject dstBucket dstObject srcInfo r;
        activeIO (- 1);
        State_Monad.return res
      } else do {
        lerr \<leftarrow> ns_GetLock E dstBucket dstObject;
        case lerr of Some e \<Rightarrow> State_Monad.return (Inl e) | None \<Rightarrow> do {
          activeIO 1;
          res \<leftarrow> CopyObject_body E srcBucket srcObject dstBucket dstObject srcInfo r;
          activeIO (- 1);
          ns_Unlock E dstBucket dstObject;
          State_Monad.return res
        }
      })"

section \<open>Behaviour of the helpers\<close>

lemma dropWhile_replicate [simp]: "dropWhile (\<lambda>c. c = q) (replicate k q @ t) = dropWhile (\<lambda>c. c = q) t"
  by (induction k) auto

lemma split_at_quote:
  assumes "q \<notin> set s"
  shows "takeWhile (\<lambda>c. c \<noteq> q) (s @ replicate n q) = s" "dropWhile (\<lambda>c. c \<noteq> q) (s @ replicate n q) = replicate n q"
    "s \<noteq> [] \<Longrightarrow> dropWhile (\<lambda>c. c = q) (s @ t) = s @ t"
proof -
  have "takeWhile (\<lambda>c. c \<noteq> q) (replicate n q) = []" "dropWhile (\<lambda>c. c \<noteq> q) (replicate n q) = replicate n q"
    by (cases n; simp)+
  then show "takeWhile (\<lambda>c. c \<noteq> q) (s @ replicate n q) = s" "dropWhile (\<lambda>c. c \<noteq> q) (s @ replicate n q) = replicate n q"
    using assms by (induction s) auto
  show "s \<noteq> [] \<Longrightarrow> dropWhile (\<lambda>c. c = q) (s @ t) = s @ t" using assms by (cases s) auto
qed

text \<open>Quotes around an ETag are removed.\<close>

lemma canonicalizeETag_quoted:
  assumes "CHR 0x22 \<notin> set s"
  shows "canonicalizeETag (replicate n (CHR 0x22) @ s @ replicate m (CHR 0x22)) = s"
proof -
  define q where "q = CHR 0x22"
  have q: "q \<notin> set (rev s)" using assms by (simp add: q_def)
  have e: "dropWhile (\<lambda>c. c = q) (replicate n q) = []" using dropWhile_replicate [of q n "[]"] by simp
  show ?thesis
    unfolding canonicalizeETag_def Let_def q_def [symmetric]
    using split_at_quote [OF q] e by (cases "s = []") simp_all
qed

lemma Split_last: "CHR ''.'' \<notin> set y \<Longrightarrow> last (strings_Split (x @ CHR ''.'' # y) CHR ''.'') = y"
  by (simp add: Split_append Split_no_sep)

lemma part_actual_size_encoded:
  assumes "minInt64 \<le> sz" "sz \<le> maxInt64"
  shows "part_actual_size (encodePartFile n e sz) = Some sz"
proof -
  have "last (strings_Split (encodePartFile n e sz) CHR ''.'') = FormatInt sz"
    using Split_last [of "FormatInt sz" "Sprintf_05d n @ CHR ''.'' # e"] by (simp add: encodePartFile_def)
  then show ?thesis using assms by (simp add: part_actual_size_def ParseInt_FormatInt)
qed

text \<open>The keys of one version of an object: its start key and the keys that extend it.\<close>

definition version_prefix :: "string \<Rightarrow> string \<Rightarrow> string" where
  "version_prefix objKey version = objKey @ ''.'' @ version @ ''.''"

lemma version_prefix_eq: "objKey @ ''.'' @ version @ ''.'' = version_prefix objKey version"
  "objKey @ CHR ''.'' # version @ ''.'' = version_prefix objKey version"
  "b @ CHR ''/'' # x @ CHR ''.'' # version @ ''.'' = version_prefix (makeKey b x) version"
  "b @ CHR ''/'' # version_prefix x version = version_prefix (makeKey b x) version"
  by (simp_all add: version_prefix_def makeKey_def)

lemma version_prefix_low [simp]: "version_prefix k v \<noteq> []" "ends_low (version_prefix k v)"
  by (simp_all add: version_prefix_def ends_low_def)

lemma version_prefix_part_key: "part_key b x v n e sz = version_prefix (makeKey b x) v @ encodePartFile n e sz"
  by (simp add: part_key_def version_prefix_def makeKey_def)

lemma set_version_range:
  assumes "finite K"
  shows "set (key_range (version_prefix k v) (IncStr (version_prefix k v)) True False K) =
         {q \<in> K. prefix (version_prefix k v) q}"
proof -
  have "of_char (last (version_prefix k v)) \<noteq> (255 :: nat)" by (simp add: version_prefix_def)
  then show ?thesis
    using set_key_range [OF assms] IncStr_range [of "version_prefix k v"] by (auto simp: in_key_range_def)
qed

lemma strip_keys_prefix:
  "\<forall>k \<in> set ks. prefix p k \<Longrightarrow> strip_keys p ks = Inr (map (drop (length p)) ks)"
  by (induction ks) (auto simp: prefix_length_le leD)

text \<open>A part that was uploaded and the only one its number and ETag can name.\<close>

definition resolves :: "('d, 'm) env \<Rightarrow> kstore \<Rightarrow> string \<Rightarrow> string \<Rightarrow> string \<Rightarrow> CompletePart \<Rightarrow> int \<Rightarrow> bool" where
  "resolves E s b x ver p sz =
     ((\<exists>m v. s (part_key b x ver (cp_PartNumber p) (cp_ETag p) sz) = Some (Json m, v) \<and> fits16 E (Json m)) \<and>
      minInt64 \<le> sz \<and> sz \<le> maxInt64 \<and>
      (\<forall>k \<in> dom s. prefix (version_prefix (makeKey b x) ver @ Sprintf_05d (cp_PartNumber p) @ ''.'' @ cp_ETag p @ ''.'') k
         \<longrightarrow> k = part_key b x ver (cp_PartNumber p) (cp_ETag p) sz))"

lemma getPartKO_resolves:
  assumes "resolves E s b x ver p sz" "set ks = {q \<in> dom s. prefix (version_prefix (makeKey b x) ver) q}"
  shows "getPartKO (map (drop (length (version_prefix (makeKey b x) ver))) ks) (cp_PartNumber p) (cp_ETag p) =
         encodePartFile (cp_PartNumber p) (cp_ETag p) sz"
proof -
  let ?P = "version_prefix (makeKey b x) ver" and ?f = "encodePartFile (cp_PartNumber p) (cp_ETag p) sz"
  let ?q = "Sprintf_05d (cp_PartNumber p) @ ''.'' @ cp_ETag p @ ''.''"
  have "part_key b x ver (cp_PartNumber p) (cp_ETag p) sz \<in> set ks"
    using assms by (auto simp: resolves_def version_prefix_part_key)
  then have mem: "?f \<in> set (map (drop (length ?P)) ks)"
    by (force simp: version_prefix_part_key)
  have hit: "strings_HasPrefix ?f ?q" by (simp add: HasPrefix_iff_prefix encodePartFile_def)
  have uniq: "y = ?f" if y: "y \<in> set (map (drop (length ?P)) ks)" "strings_HasPrefix y ?q" for y
  proof -
    obtain k where "k \<in> set ks" "y = drop (length ?P) k" using y(1) by auto
    then have k: "k \<in> dom s" "prefix ?P k" "y = drop (length ?P) k" unfolding assms(2) by simp_all
    then have ky: "k = ?P @ y" by (auto simp: prefix_def)
    then have "prefix (?P @ ?q) k" using y(2) by (simp add: HasPrefix_iff_prefix)
    then have "k = ?P @ ?f" using assms(1) k(1) by (simp add: resolves_def version_prefix_part_key)
    then show ?thesis using ky by simp
  qed
  have "find (\<lambda>key. strings_HasPrefix key ?q) (map (drop (length ?P)) ks) \<noteq> None"
    using mem hit unfolding find_None_iff by blast
  then obtain y where y: "find (\<lambda>key. strings_HasPrefix key ?q) (map (drop (length ?P)) ks) = Some y" by blast
  then show ?thesis
    using uniq find_SomeD [OF y] unfolding getPartKO_def by simp
qed

text \<open>What the validation keeps of a part.\<close>

definition completed_part :: "kstore \<Rightarrow> string \<Rightarrow> string \<Rightarrow> string \<Rightarrow> CompletePart \<Rightarrow> int \<Rightarrow> ObjectPartInfo" where
  "completed_part s b x ver p sz =
     \<lparr>op_ETag = cp_ETag p, op_Number = cp_PartNumber p,
      op_Size = ko_Size (fm_KoInfo (meta_at s (part_key b x ver (cp_PartNumber p) (cp_ETag p) sz))),
      op_ActualSize = sz\<rparr>"

lemma wrap64_add [simp]: "wrap64 (a + wrap64 b) = wrap64 (a + b)"
proof -
  have "(a + ((b + 2 ^ 63) mod 2 ^ 64 - 2 ^ 63) + 2 ^ 63) mod 2 ^ 64 = (a + (b + 2 ^ 63) mod 2 ^ 64) mod (2 ^ 64 :: int)"
    by (simp add: algebra_simps)
  also have "\<dots> = (a + b + 2 ^ 63) mod 2 ^ 64" by (simp add: mod_simps add.assoc)
  finally show ?thesis by (simp add: wrap64_def)
qed

lemma restrict_map_UNIV [simp]: "m |` UNIV = m"
  by (simp add: restrict_map_def)

text \<open>The names \<^verbatim>\<open>checkObjectArgs\<close> lets pass.\<close>

definition nameable :: "string \<Rightarrow> string \<Rightarrow> bool" where
  "nameable b x = (checkObjectNameForLengthAndSlash b x = None \<and> IsValidObjectName x)"

text \<open>A drive all of whose keys the layer can list.\<close>

definition plain_keys :: "kstore \<Rightarrow> bool" where
  "plain_keys s = (\<forall>k \<in> dom s. CHR '':'' \<notin> set k \<and> k \<noteq> [] \<and> nul_free k)"

context kinetic_layer
begin

lemma version_range:
  assumes "plain_keys (store w)" "nul_free k" "nul_free v"
  shows "CGetKeyRange (e_ops E) (version_prefix k v) (IncStr (version_prefix k v)) True False n option (w_drive w) =
    take n (key_range (version_prefix k v) (IncStr (version_prefix k v)) True False (dom (store w)))"
proof -
  have nf: "nul_free (version_prefix k v)" using assms(2,3) by (simp add: version_prefix_def nul_free_def)
  then have "nul_free (IncStr (version_prefix k v))" by (intro nul_free_IncStr) simp_all
  moreover have "IncStr (version_prefix k v) \<noteq> []"
    using IncStr_length [of "version_prefix k v"] by (metis length_0_conv version_prefix_low(1))
  ultimately show ?thesis
    using nf assms(1) CGetKeyRange_exact [of "w_drive w" "IncStr (version_prefix k v)"]
    by (simp add: plain_keys_def nul_free_def)
qed

lemma run_koStat:
  assumes "ready w" "store w (C_CString k) = Some (Json m, v)" "fits16 E (Json m)"
  shows "run_state (koStat E k) w = (Inr (kv_of_meta (decoded m)), touched w)"
proof -
  have "kv_of_meta (json_merge m newFSMetaV1) = kv_of_meta (decoded m)"
    by (simp add: kv_of_meta_def json_merge_def decoded_def)
  then show ?thesis
    using assms CGetMeta_hit [of "w_drive w" k "Json m" v option]
    by (simp add: koStat_def kc_defs run ready_defs json_Unmarshal_def)
qed

lemma run_complete_parts:
  assumes "ready w" "plain_keys (store w)"
    and "\<forall>p \<in> set parts. resolves E (store w) b x ver p (asz p) \<and>
      getPartKO ks (cp_PartNumber p) (cp_ETag p) = encodePartFile (cp_PartNumber p) (cp_ETag p) (asz p)"
    and "\<forall>p \<in> set (butlast parts). globalMinPartSize \<le> asz p"
  shows "run_state (complete_parts E (version_prefix (makeKey b x) ver) ks parts) w =
    (Inr (map (\<lambda>p. completed_part (store w) b x ver p (asz p)) parts, wrap64 (sum_list (map asz parts))),
     if parts = [] then w else touched w)"
  using assms
proof (induction parts arbitrary: w)
  case Nil
  then show ?case by (simp add: wrap64_def)
next
  case (Cons p parts)
  let ?k = "part_key b x ver (cp_PartNumber p) (cp_ETag p) (asz p)"
  obtain m v where m: "store w ?k = Some (Json m, v)" "fits16 E (Json m)" "minInt64 \<le> asz p" "asz p \<le> maxInt64"
    using Cons.prems(3) by (auto simp: resolves_def)
  have "nul_free ?k" using Cons.prems(2) m(1) by (auto simp: plain_keys_def)
  then have stat: "run_state (koStat E (version_prefix (makeKey b x) ver @ encodePartFile (cp_PartNumber p) (cp_ETag p) (asz p))) w
      = (Inr (kv_of_meta (decoded m)), touched w)"
    using run_koStat [OF Cons.prems(1), of ?k m v] m by (simp add: version_prefix_part_key nul_free_def)
  have ih: "run_state (complete_parts E (version_prefix (makeKey b x) ver) ks parts) (touched w) =
      (Inr (map (\<lambda>p. completed_part (store w) b x ver p (asz p)) parts, wrap64 (sum_list (map asz parts))), touched w)"
    if "parts \<noteq> []"
    using Cons.IH [of "touched w"] Cons.prems that by auto
  have cp: "completed_part (store w) b x ver p (asz p) =
      \<lparr>op_ETag = cp_ETag p, op_Number = cp_PartNumber p, op_Size = ki_size (kv_of_meta (decoded m)), op_ActualSize = asz p\<rparr>"
    by (simp add: completed_part_def meta_at_def m(1) kv_of_meta_def)
  show ?case
  proof (cases "parts = []")
    case True
    then show ?thesis
      using Cons.prems(3) stat part_actual_size_encoded [OF m(3,4)] cp m(3,4) by (simp add: wrap64_id Let_def)
  next
    case False
    then show ?thesis
      using Cons.prems(3,4) stat ih part_actual_size_encoded [OF m(3,4)] cp
      by (simp add: isMinAllowedPartSize_def Let_def)
  qed
qed

text \<open>Whatever the state of the drive, looking at a part does not change it, and a part that is not there
  is an error.\<close>

lemma koStat_frame:
  assumes "ready w"
  shows "\<exists>r. run_state (koStat E k) w = (r, touched w)"
proof -
  obtain c e where "CGetMeta (e_ops E) k option (w_drive w) = (c, e)" by fastforce
  then show ?thesis
    using assms
    by (cases e; cases c) (auto simp: koStat_def kc_defs run ready_defs split: prod.split option.split)
qed

lemma complete_parts_missing:
  assumes "ready w" "p \<in> set parts" "getPartKO ks (cp_PartNumber p) (cp_ETag p) = []"
  shows "\<exists>e w'. run_state (complete_parts E P ks parts) w = (Inl e, w') \<and> w' \<in> {w, touched w}"
  using assms
proof (induction parts arbitrary: w)
  case (Cons q parts)
  let ?f = "getPartKO ks (cp_PartNumber q) (cp_ETag q)"
  obtain r where r: "run_state (koStat E (P @ ?f)) w = (r, touched w)" using koStat_frame [OF Cons.prems(1)] by blast
  show ?case
  proof (cases "q = p")
    case True
    then show ?thesis using Cons.prems(3) by (simp add: Let_def)
  next
    case False
    then have "p \<in> set parts" using Cons.prems(2) by simp
    moreover from this have "parts \<noteq> []" by auto
    moreover obtain e w' where "run_state (complete_parts E P ks parts) (touched w) = (Inl e, w')" "w' \<in> {w, touched w}"
      using Cons.IH [of "touched w"] Cons.prems(1,3) calculation(1) by auto
    ultimately show ?thesis
      using r by (cases r) (auto simp: Let_def split: option.split)
  qed
qed simp

lemma run_Complete_missing:
  assumes "ready w" "plain_keys (store w)" "nul_free b" "nul_free x"
    and "readable E (store w) (makeKey b x)" "nul_free (version_at (store w) (makeKey b x))"
    and nv: "nv = newVersion (version_at (store w) (makeKey b x))" "nul_free nv"
    and p: "p \<in> set parts"
      "\<forall>k \<in> dom (store w). \<not> prefix (version_prefix (makeKey b x) nv @ Sprintf_05d (cp_PartNumber p) @ ''.'' @ cp_ETag p @ ''.'') k"
  shows "\<exists>e w'. run_state (CompleteMultipartUpload E b x u parts) w = (Inl e, w') \<and> settled w w' \<and> w_drive w' = w_drive w"
proof -
  let ?P = "version_prefix (makeKey b x) nv"
  let ?R = "take 800 (key_range ?P (IncStr ?P) True False (dom (store w)))"
  obtain ve where cv: "run_state (currentVersion E (makeKey b x)) w =
      ((version_at (store w) (makeKey b x), ve), touched w)" "ve \<noteq> Some slicePanic"
    using run_currentVersion [of w "makeKey b x"] assms(1,3,4,5) by auto
  have R: "set ?R \<subseteq> {q \<in> dom (store w). prefix ?P q}"
    using set_version_range [OF finite_contents] set_take_subset by fast
  then have strip: "strip_keys ?P ?R = Inr (map (drop (length ?P)) ?R)" by (intro strip_keys_prefix) auto
  have none: "getPartKO (map (drop (length ?P)) ?R) (cp_PartNumber p) (cp_ETag p) = []"
  proof (rule ccontr)
    assume "\<not> ?thesis"
    from getPartKO_found [OF this] obtain k where "k \<in> set ?R"
      "prefix (Sprintf_05d (cp_PartNumber p) @ ''.'' @ cp_ETag p @ ''.'') (drop (length ?P) k)"
      by (auto simp: HasPrefix_iff_prefix)
    then have "k \<in> dom (store w)" "prefix ?P k"
      "prefix (?P @ Sprintf_05d (cp_PartNumber p) @ ''.'' @ cp_ETag p @ ''.'') k"
      using R by (auto simp: prefix_def)
    then show False using p(2) by blast
  qed
  obtain e w' where c: "run_state (complete_parts E ?P (map (drop (length ?P)) ?R) parts) (touched w) = (Inl e, w')"
    "w' \<in> {touched w, touched (touched w)}"
    using complete_parts_missing [OF ready_touched [OF assms(1)] p(1) none, of ?P] by blast
  have rng: "CGetKeyRange (e_ops E) ?P (IncStr ?P) True False 800 option (w_drive w) = ?R"
    by (rule version_range [OF assms(2)]) (use assms(3,4) nv(2) in simp_all)
  have t: "touched w = w\<lparr>w_pool := touch (w_pool w)\<rparr>" by (simp add: touched_def)
  have "run_state (CompleteMultipartUpload E b x u parts) w = (Inl e, w')"
    using assms(1) cv c(1) rng strip unfolding t
    by (simp add: CompleteMultipartUpload_def nv(1) [symmetric] version_prefix_eq kc_defs run ready_def pool_touch Let_def)
  then show ?thesis using c(2) assms(1) by (auto simp: settled_def)
qed

lemma run_checkObjectArgs:
  assumes "ready w" "nul_free b" "fresh (w_ns w) b []" "bucket_at E (store w) b" "nameable b x"
  shows "run_state (checkObjectArgs E b x) w = (None, keyed (bucket_key b) w)"
  using assms run_checkBucketExist [of w b] by (simp add: checkObjectArgs_def nameable_def)

lemma run_GetBucketInfo_at:
  assumes "ready w" "nul_free b" "fresh (w_ns w) b []" "bucket_at E (store w) b"
  shows "\<exists>bi. run_state (GetBucketInfo E b) w = (Inr bi, keyed (bucket_key b) w)"
  using assms run_GetBucketInfo_hit [of w b] by (auto simp: bucket_at_def)

lemma run_NewMultipartUpload:
  assumes "ready w" "nul_free b" "fresh (w_ns w) b []" "bucket_at E (store w) b" "nameable b x"
    and opts: "oo_UserDefined opts = Some um"
    and m: "m = newFSMetaV1\<lparr>fm_Meta := mset ''size'' (FormatInt 0) um,
        fm_KoInfo := KOInfo0\<lparr>ko_Name := x, ko_Size := 0, ko_CreatedTime := e_now E (w_tick w + 1)\<rparr>\<rparr>"
    and put: "CPut (e_ops E) (upload_key b x (e_uuid E (w_tick w))) (Json m) (Json m) option (w_drive w) = (e, d')"
  shows "\<exists>w'. run_state (NewMultipartUpload E b x opts) w =
      (case e of None \<Rightarrow> Inr (e_uuid E (w_tick w)) | Some err \<Rightarrow> Inl err, w') \<and> settled w w' \<and> w_drive w' = d'"
proof -
  let ?w = "keyed (bucket_key b) w"
  have rw: "ready ?w" "fresh (w_ns ?w) b []" "bucket_at E (store ?w) b" using assms(1,3,4) by simp_all
  obtain bi where bi: "run_state (GetBucketInfo E b) ?w = (Inr bi, keyed (bucket_key b) ?w)"
    using run_GetBucketInfo_at [OF rw(1) assms(2) rw(2,3)] by blast
  let ?v = "keyed (bucket_key b) ?w"
  have v: "ready ?v" "w_tick ?v = w_tick w" "w_drive ?v = w_drive w" "w_ns ?v = w_ns w" "w_activeIO ?v = w_activeIO w"
    using rw(1) by simp_all
  show ?thesis
    using run_checkObjectArgs [OF assms(1-5)] bi v put opts unfolding m
    by (simp add: NewMultipartUpload_def run kc_defs ready_def settled_def pool_touch Let_def)
qed

text \<open>Writing a part: the upload it belongs to does not appear in its key.\<close>

lemma run_PutObjectPart:
  assumes "ready w" "nul_free b" "nul_free x" "fresh (w_ns w) b []" "bucket_at E (store w) b" "nameable b x"
    and ver: "readable E (store w) (makeKey b x)" "nv = newVersion (version_at (store w) (makeKey b x))"
    and r: "plain_body r" "r_src r \<noteq> []" and md5: "\<forall>h. e_md5 E h \<noteq> []"
    and tag: "tag = hex_EncodeToString (e_md5 E (r_src r))"
    and put: "CPut (e_ops E) (part_key b x nv n tag (r_actualSize r))
      (Json (part_meta x tag (r_size r) (e_now E (w_tick w)))) (Raw (r_src r)) option (w_drive w) = (e, d')"
  shows "\<exists>w'. run_state (PutObjectPart E b x u n r) w =
      (case e of Some err \<Rightarrow> Inl err
       | None \<Rightarrow> Inr \<lparr>pi_PartNumber = n, pi_LastModified = e_now E (w_tick w + 1), pi_ETag = tag,
                      pi_Size = r_size r, pi_ActualSize = r_actualSize r\<rparr>, w') \<and>
     settled w w' \<and> w_drive w' = d'"
proof -
  let ?w = "keyed (bucket_key b) w"
  have rw: "ready ?w" "fresh (w_ns ?w) b []" "bucket_at E (store ?w) b" using assms(1,4,5) by simp_all
  obtain bi where bi: "run_state (GetBucketInfo E b) ?w = (Inr bi, keyed (bucket_key b) ?w)"
    using run_GetBucketInfo_at [OF rw(1) assms(2) rw(2,3)] by blast
  define v where "v = keyed (bucket_key b) ?w"
  have v: "ready v" "w_tick v = w_tick w" "w_drive v = w_drive w" "w_ns v = w_ns w" "w_activeIO v = w_activeIO w"
    using rw(1) by (simp_all add: v_def)
  obtain ve where cv: "run_state (currentVersion E (makeKey b x)) v =
      ((version_at (store w) (makeKey b x), ve), touched v)" "ve \<noteq> Some slicePanic"
    using run_currentVersion [of v "makeKey b x"] v ver(1) assms(2,3) by auto
  obtain r' where rd: "readToBuffer (e_md5 E) (e_sha256 E) r (nat (r_size r)) = (r_src r, r', None)"
    "r_md5Hash r' = Some (r_src r)"
    using plain_body_read [OF r(1)] by blast
  have sz: "part_bufSize (r_size r) = r_size r" "\<not> r_size r < - 1"
    using r by (auto simp: plain_body_def part_bufSize_def)
  have hex: "hex_EncodeToString (e_md5 E (r_src r)) \<noteq> []"
  proof -
    have "0 < length (hex_EncodeToString (e_md5 E (r_src r)))" unfolding hex_length using md5 by simp
    then show ?thesis by auto
  qed
  have t: "touched v = v\<lparr>w_pool := touch (w_pool v)\<rparr>" by (simp add: touched_def)
  show ?thesis
    using run_checkObjectArgs [OF assms(1,2,4-6)] bi [folded v_def] v cv rd sz hex md5 put
    unfolding t tag ver(2)
    by (cases e) (simp_all add: PutObjectPart_def run kc_defs ready_def settled_def pool_touch Let_def)
qed

end

context healthy_layer
begin

lemma run_deleteKeys_loop:
  assumes "w_skinny w" "\<forall>k \<in> set keys. nul_free k"
  shows "\<exists>d'. run_state (deleteKeys_loop E keys) w = (None, w\<lparr>w_drive := d'\<rparr>) \<and>
     contents d' = store w |` (- set keys)"
  using assms
proof (induction keys arbitrary: w)
  case Nil
  show ?case by (rule exI [of _ "w_drive w"]) simp
next
  case (Cons k keys)
  obtain d1 where d1: "cDelete (e_ops E) k option (w_drive w) = (None, d1)" "contents d1 = (store w)(k := None)"
    using cDelete_total [of k option "w_drive w"] Cons.prems(2) by (auto simp: nul_free_def)
  obtain d' where "run_state (deleteKeys_loop E keys) (w\<lparr>w_drive := d1\<rparr>) = (None, w\<lparr>w_drive := d'\<rparr>)"
    "contents d' = contents d1 |` (- set keys)"
    using Cons.IH [of "w\<lparr>w_drive := d1\<rparr>"] Cons.prems by auto
  then show ?case
    using run_kc_Delete [OF Cons.prems(1) d1(1)] d1(2)
    by (intro exI [of _ d']) (auto simp: restrict_map_def fun_eq_iff)
qed

lemma run_deleteKeys:
  assumes "ready w" "\<forall>k \<in> set keys. nul_free k"
  shows "\<exists>d'. run_state (deleteKeys E keys) w = (None, touched (w\<lparr>w_drive := d'\<rparr>)) \<and>
     contents d' = store w |` (- set keys)"
proof -
  let ?w = "w\<lparr>w_kineticMutex := True, w_pool := taken (w_pool w)\<rparr>"
  obtain d' where "run_state (deleteKeys_loop E keys) ?w = (None, ?w\<lparr>w_drive := d'\<rparr>)"
    "contents d' = store w |` (- set keys)"
    using run_deleteKeys_loop [of ?w keys] assms by (auto simp: ready_def)
  then show ?thesis
    using assms(1) by (auto simp: deleteKeys_def run ready_def touched_def)
qed

text \<open>All parts of a version go, and nothing else does, when there are at most 800 of them.\<close>

lemma run_deleteParts:
  assumes "ready w" "plain_keys (store w)" "nul_free k" "nul_free v"
    and "card {q \<in> dom (store w). prefix (version_prefix k v) q} \<le> 800"
  shows "\<exists>w'. run_state (deleteParts E k v) w = (None, w') \<and> settled w w' \<and> w_tick w' = w_tick w \<and>
     store w' = store w |` {q. \<not> prefix (version_prefix k v) q}"
proof -
  let ?P = "version_prefix k v"
  let ?R = "\<lambda>w. key_range ?P (IncStr ?P) True False (dom (store w))"
  have set_R: "set (?R w) = {q \<in> dom (store w). prefix ?P q}" for w by (rule set_version_range [OF finite_contents])
  have len: "length (?R w) \<le> 800"
    using assms(5) set_R [of w] distinct_card [of "?R w"] by (simp add: key_range_def)
  have nf: "\<forall>q \<in> set (?R w). nul_free q" using assms(2) set_R by (auto simp: plain_keys_def)
  obtain d1 where d1: "run_state (deleteKeys E (?R w)) (touched w) = (None, touched ((touched w)\<lparr>w_drive := d1\<rparr>))"
    "contents d1 = store w |` (- set (?R w))"
    using run_deleteKeys [of "touched w" "?R w"] assms(1) nf by auto
  let ?w1 = "touched ((touched w)\<lparr>w_drive := d1\<rparr>)"
  have c1: "contents d1 = store w |` {q. \<not> prefix ?P q}"
    unfolding d1(2) set_R by (auto simp: restrict_map_def fun_eq_iff domIff) (metis option.exhaust surj_pair)
  have pk1: "plain_keys (store ?w1)" using assms(2) by (auto simp: plain_keys_def c1 restrict_map_def split: if_splits)
  have "set (?R ?w1) = {}" unfolding set_R by (auto simp: c1 restrict_map_def)
  then have R1: "?R ?w1 = []" by simp
  obtain d2 where d2: "run_state (deleteKeys E []) (touched ?w1) = (None, touched ((touched ?w1)\<lparr>w_drive := d2\<rparr>))"
    "contents d2 = contents d1"
    using run_deleteKeys [of "touched ?w1" "[]"] assms(1) by auto
  have rng: "CGetKeyRange (e_ops E) ?P (IncStr ?P) True False 800 option (w_drive w) = ?R w"
    "CGetKeyRange (e_ops E) ?P (IncStr ?P) True False 800 option d1 = []"
    using version_range [OF assms(2-4)] version_range [OF pk1 assms(3,4)] len R1 by simp_all
  have "run_state (deleteParts E k v) w = (None, touched ((touched ?w1)\<lparr>w_drive := d2\<rparr>))"
    using d1(1) d2(1) rng assms(1)
    by (simp add: deleteParts_def version_prefix_eq Let_def kc_defs run ready_def touched_def pool_touch)
  then show ?thesis using assms(1) d2(2) c1 by (simp add: settled_def)
qed

text \<open>The commit: the upload's key is gone, the object's key holds the parts, and the parts of the version
  it replaces are gone.\<close>

lemma upload_key_eq: "upload_key b x u = makeKey b x @ ''.fs.json.'' @ u"
  by (simp add: upload_key_def makeKey_def)

lemma run_delete_previous:
  assumes "ready w" "plain_keys (store w)" "nul_free b" "nul_free x" "nul_free ver"
    and "ver \<noteq> [] \<longrightarrow> card {q \<in> dom (store w). prefix (version_prefix (makeKey b x) ver) q} \<le> 800"
  shows "\<exists>w'. run_state (delete_previous E b x ver) w = ((), w') \<and> settled w w' \<and>
    store w' = store w |` {q. \<not> (ver \<noteq> [] \<and> prefix (version_prefix (makeKey b x) ver) q)}"
proof (cases "ver = []")
  case True
  then show ?thesis using assms(1) by (simp add: delete_previous_def settled_def)
next
  case False
  then obtain w' where "run_state (deleteParts E (makeKey b x) ver) w = (None, w')" "settled w w'"
    "store w' = store w |` {q. \<not> prefix (version_prefix (makeKey b x) ver) q}"
    using run_deleteParts [of w "makeKey b x" ver] assms by auto
  then show ?thesis using False by (simp add: delete_previous_def)
qed

lemma run_complete_commit:
  assumes "ready w" "plain_keys (store w)" "nul_free b" "nul_free x" "nul_free u" "nul_free ver"
    and up: "store w (upload_key b x u) = Some (um, Json m)"
    and old: "ver \<noteq> [] \<longrightarrow> card {q \<in> dom (store w). prefix (version_prefix (makeKey b x) ver) q} \<le> 800"
    and key: "CHR '':'' \<notin> set (makeKey b x)"
    and m': "m' = complete_meta (newVersion ver) sz tag (json_merge m (fsMetaV1_0\<lparr>fm_Parts := ps\<rparr>))"
  shows "\<exists>w' t. run_state (complete_commit E b x u ver tag ps sz) w =
     (Inr (ToObjectKVInfo (e_meta E) m' b x (KVInfo0\<lparr>ki_name := x, ki_size := sz, ki_modTime := t\<rparr>)), w') \<and>
     settled w w' \<and>
     store w' = ((store w)(upload_key b x u := None, makeKey b x \<mapsto> (Json m', Raw [])))
                  |` {q. \<not> (ver \<noteq> [] \<and> prefix (version_prefix (makeKey b x) ver) q)}"
proof -
  let ?u = "upload_key b x u" and ?k = "makeKey b x" and ?P = "version_prefix (makeKey b x) ver"
  have nf: "C_CString ?u = ?u" "C_CString ?k = ?k"
    using assms(3-5) by (simp_all add: upload_key_eq nul_free_def makeKey_def)
  have get: "CGet (e_ops E) ?u (- 1) option 0 (- 1) (w_drive w) = (Some (Json m), None)"
    by (rule CGet_whole [of _ _ um]) (simp_all add: nf up option_def)
  obtain d1 where d1: "cDelete (e_ops E) ?u option (w_drive w) = (None, d1)" "contents d1 = (store w)(?u := None)"
    using cDelete_total [of ?u option "w_drive w"] nf by auto
  obtain d2 where d2: "CPut (e_ops E) ?k (Json m') (Raw []) option d1 = (None, d2)"
    "contents d2 = (contents d1)(?k \<mapsto> (Json m', Raw []))"
    using CPut_total [of ?k "Json m'" "Raw []" option d1] nf by auto
  let ?w2 = "touched (w\<lparr>w_drive := d2\<rparr>)"
  let ?s2 = "(store w)(?u := None, ?k \<mapsto> (Json m', Raw []))"
  have s2: "store ?w2 = ?s2" using d1(2) d2(2) by simp
  have pk: "plain_keys (store ?w2)" using assms(2-4) key unfolding s2 by (auto simp: plain_keys_def split: if_splits)
  have "{q \<in> dom (store ?w2). prefix ?P q} \<subseteq> {q \<in> dom (store w). prefix ?P q}"
    unfolding s2 by (auto simp: version_prefix_def prefix_def split: if_splits)
  then have "card {q \<in> dom (store ?w2). prefix ?P q} \<le> card {q \<in> dom (store w). prefix ?P q}"
    using finite_contents [of "w_drive w"] by (intro card_mono) simp_all
  then have c: "ver \<noteq> [] \<longrightarrow> card {q \<in> dom (store ?w2). prefix ?P q} \<le> 800" using old by linarith
  have "ready ?w2" using assms(1) by simp
  from run_delete_previous [OF this pk assms(3,4,6) c]
  obtain w3 where w3: "run_state (delete_previous E b x ver) ?w2 = ((), w3)" "settled ?w2 w3"
    "store w3 = ?s2 |` {q. \<not> (ver \<noteq> [] \<and> prefix ?P q)}" unfolding s2 by blast
  have "run_state (complete_commit E b x u ver tag ps sz) w =
     (Inr (ToObjectKVInfo (e_meta E) m' b x (KVInfo0\<lparr>ki_name := x, ki_size := sz, ki_modTime := e_now E (w_tick w3)\<rparr>)),
      w3\<lparr>w_tick := w_tick w3 + 1\<rparr>)"
    using assms(1) get d1(1) d2(1) w3(1) unfolding m'
    by (simp add: complete_commit_def makeKey_eq kc_defs Client_Delete_def run ready_defs pool_touch json_Unmarshal_def Let_def)
  moreover have "settled w (w3\<lparr>w_tick := w_tick w3 + 1\<rparr>)" using w3(2) by (simp add: settled_def)
  moreover have "store (w3\<lparr>w_tick := w_tick w3 + 1\<rparr>) = store w3" by simp
  ultimately show ?thesis using w3(3) by metis
qed

text \<open>Completing an upload whose parts are all there.\<close>

lemma run_CompleteMultipartUpload:
  assumes "ready w" "plain_keys (store w)" "nul_free b" "nul_free x" "nul_free u" "CHR '':'' \<notin> set (makeKey b x)"
    and ver: "readable E (store w) (makeKey b x)" "ver = version_at (store w) (makeKey b x)" "nul_free ver"
      "nv = newVersion ver" "nul_free nv"
    and parts: "parts \<noteq> []" "\<forall>p \<in> set parts. resolves E (store w) b x nv p (asz p)"
      "\<forall>p \<in> set (butlast parts). globalMinPartSize \<le> asz p"
    and up: "store w (upload_key b x u) = Some (um, Json m)"
    and few: "card {q \<in> dom (store w). prefix (version_prefix (makeKey b x) nv) q} \<le> 800"
      "card {q \<in> dom (store w). prefix (version_prefix (makeKey b x) ver) q} \<le> 800"
    and m': "m' = complete_meta nv (wrap64 (sum_list (map asz parts))) (getCompleteMultipartMD5 E parts)
        (json_merge m (fsMetaV1_0\<lparr>fm_Parts := map (\<lambda>p. completed_part (store w) b x nv p (asz p)) parts\<rparr>))"
  shows "\<exists>w' t. run_state (CompleteMultipartUpload E b x u parts) w =
     (Inr (ToObjectKVInfo (e_meta E) m' b x
        (KVInfo0\<lparr>ki_name := x, ki_size := wrap64 (sum_list (map asz parts)), ki_modTime := t\<rparr>)), w') \<and>
     settled w w' \<and>
     store w' = ((store w)(upload_key b x u := None, makeKey b x \<mapsto> (Json m', Raw [])))
                  |` {q. \<not> (ver \<noteq> [] \<and> prefix (version_prefix (makeKey b x) ver) q)}"
proof -
  let ?P = "version_prefix (makeKey b x) nv"
  let ?R = "key_range ?P (IncStr ?P) True False (dom (store w))"
  have set_R: "set ?R = {q \<in> dom (store w). prefix ?P q}" by (rule set_version_range [OF finite_contents])
  have len: "length ?R \<le> 800"
    using few(1) set_R distinct_card [of ?R] by (simp add: key_range_def)
  let ?ks = "map (drop (length ?P)) ?R"
  have strip: "strip_keys ?P ?R = Inr ?ks" using set_R by (intro strip_keys_prefix) auto
  obtain ve where cv: "run_state (currentVersion E (makeKey b x)) w = ((ver, ve), touched w)" "ve \<noteq> Some slicePanic"
    using run_currentVersion [of w "makeKey b x"] assms(1,3,4) ver by auto
  have rng: "CGetKeyRange (e_ops E) ?P (IncStr ?P) True False 800 option (w_drive w) = ?R"
    using version_range [OF assms(2), of "makeKey b x" nv 800] assms(3,4) ver(5) len by simp
  have "\<forall>p \<in> set parts. resolves E (store w) b x nv p (asz p) \<and>
      getPartKO ?ks (cp_PartNumber p) (cp_ETag p) = encodePartFile (cp_PartNumber p) (cp_ETag p) (asz p)"
    using parts(2) getPartKO_resolves [OF _ set_R] by blast
  then have val: "run_state (complete_parts E ?P ?ks parts) (touched w) =
      (Inr (map (\<lambda>p. completed_part (store w) b x nv p (asz p)) parts, wrap64 (sum_list (map asz parts))), touched w)"
    using run_complete_parts [of "touched w" parts b x nv asz ?ks] assms(1,2) parts(1,3) by simp
  have rt: "ready (touched w)" "plain_keys (store (touched w))" "store (touched w) (upload_key b x u) = Some (um, Json m)"
    "ver \<noteq> [] \<longrightarrow> card {q \<in> dom (store (touched w)). prefix (version_prefix (makeKey b x) ver) q} \<le> 800"
    using assms(1,2) up few(2) by simp_all
  obtain w' t where c: "run_state (complete_commit E b x u ver (getCompleteMultipartMD5 E parts)
        (map (\<lambda>p. completed_part (store w) b x nv p (asz p)) parts) (wrap64 (sum_list (map asz parts)))) (touched w) =
      (Inr (ToObjectKVInfo (e_meta E) m' b x
        (KVInfo0\<lparr>ki_name := x, ki_size := wrap64 (sum_list (map asz parts)), ki_modTime := t\<rparr>)), w')"
      "settled (touched w) w'"
      "store w' = ((store (touched w))(upload_key b x u := None, makeKey b x \<mapsto> (Json m', Raw [])))
                  |` {q. \<not> (ver \<noteq> [] \<and> prefix (version_prefix (makeKey b x) ver) q)}"
    using run_complete_commit [OF rt(1,2) assms(3,4,5) ver(3) rt(3,4) assms(6)] m' unfolding ver(4) by blast
  have t: "touched w = w\<lparr>w_pool := touch (w_pool w)\<rparr>" by (simp add: touched_def)
  have "run_state (CompleteMultipartUpload E b x u parts) w =
      run_state (complete_commit E b x u ver (getCompleteMultipartMD5 E parts)
        (map (\<lambda>p. completed_part (store w) b x nv p (asz p)) parts) (wrap64 (sum_list (map asz parts)))) (touched w)"
    using assms(1) cv rng strip val unfolding t
    by (simp add: CompleteMultipartUpload_def ver(4) [symmetric] version_prefix_eq kc_defs run ready_def pool_touch Let_def)
  also note c(1)
  finally have "run_state (CompleteMultipartUpload E b x u parts) w =
     (Inr (ToObjectKVInfo (e_meta E) m' b x
        (KVInfo0\<lparr>ki_name := x, ki_size := wrap64 (sum_list (map asz parts)), ki_modTime := t\<rparr>)), w')" .
  moreover have "settled w w'" using c(2) by (simp add: settled_def)
  moreover note c(3) [unfolded touched_simps]
  ultimately show ?thesis by blast
qed

text \<open>Aborting: the upload's key and every part of the next version are deleted, whichever upload wrote it.\<close>

lemma run_AbortMultipartUpload:
  assumes "ready w" "plain_keys (store w)" "nul_free b" "nul_free x" "nul_free u"
    and ver: "readable E (store w) (makeKey b x)" "nv = newVersion (version_at (store w) (makeKey b x))" "nul_free nv"
    and few: "card {q \<in> dom (store w). prefix (version_prefix (makeKey b x) nv) q} \<le> 800"
  shows "\<exists>w'. run_state (AbortMultipartUpload E b x u) w = (None, w') \<and> settled w w' \<and>
     store w' = ((store w)(upload_key b x u := None)) |` {q. \<not> prefix (version_prefix (makeKey b x) nv) q}"
proof -
  let ?u = "upload_key b x u" and ?P = "version_prefix (makeKey b x) nv"
  have nf: "C_CString ?u = ?u" using assms(3-5) by (simp add: upload_key_eq nul_free_def makeKey_def)
  have ne: "makeKey b x \<noteq> ?u" by (simp add: upload_key_eq)
  obtain d1 where d1: "cDelete (e_ops E) ?u option (w_drive w) = (None, d1)" "contents d1 = (store w)(?u := None)"
    using cDelete_total [of ?u option "w_drive w"] nf by auto
  let ?w1 = "touched (w\<lparr>w_drive := d1\<rparr>)"
  have r1: "readable E (store ?w1) (C_CString (makeKey b x))" "version_at (store ?w1) (makeKey b x) = version_at (store w) (makeKey b x)"
    using ver(1) ne assms(3,4) d1(2) by (simp_all add: readable_def version_at_def)
  obtain ve where cv: "run_state (currentVersion E (makeKey b x)) ?w1 =
      ((version_at (store w) (makeKey b x), ve), ?w1)" "ve \<noteq> Some slicePanic"
    using run_currentVersion [of ?w1 "makeKey b x"] assms(1,3,4) r1 by auto
  have pk: "plain_keys (store ?w1)" using assms(2) d1(2) by (auto simp: plain_keys_def split: if_splits)
  have "{q \<in> dom (store ?w1). prefix ?P q} \<subseteq> {q \<in> dom (store w). prefix ?P q}" using d1(2) by (auto split: if_splits)
  then have "card {q \<in> dom (store ?w1). prefix ?P q} \<le> card {q \<in> dom (store w). prefix ?P q}"
    using finite_contents [of "w_drive w"] by (intro card_mono) simp_all
  then have "card {q \<in> dom (store ?w1). prefix ?P q} \<le> 800" using few by linarith
  then obtain w' where w': "run_state (deleteParts E (makeKey b x) nv) ?w1 = (None, w')" "settled ?w1 w'"
    "store w' = store ?w1 |` {q. \<not> prefix ?P q}"
    using run_deleteParts [of ?w1 "makeKey b x" nv] assms(1,3,4) pk ver(3) by auto
  have "run_state (AbortMultipartUpload E b x u) w = (None, w')"
    using assms(1) d1(1) cv w'(1)
    by (simp add: AbortMultipartUpload_def makeKey_eq kc_defs Client_Delete_def run ready_defs ver(2) [symmetric])
  then show ?thesis using w'(2,3) d1(2) unfolding settled_def by simp
qed

end

end
