(* ===== verification/Http_Range.thy ===== *)
theory Http_Range
  imports Go_Prelude Object_Errors
begin

text \<open>
  HTTP byte ranges, \<^verbatim>\<open>cmd/httprange.go\<close>: parsing the \<^verbatim>\<open>Range\<close> header, the offset and the length of the
  bytes it selects from a resource of a given size, and its textual form. A \<^verbatim>\<open>nil\<close> specification is
  \<open>None\<close>. The errors made with \<^verbatim>\<open>fmt.Errorf\<close> keep their class, not their text.

  The lemmas show that what \<^verbatim>\<open>parseRequestRangeSpec\<close> accepts always yields a range inside the
  resource, that it selects exactly the bytes the header asks for, and that printing a specification
  and parsing it gives it back.
\<close>

record HTTPRangeSpec =
  IsSuffixLength :: bool
  Start :: int
  End :: int

abbreviation (input) rangeErr :: error where "rangeErr \<equiv> Lib (ErrOther ''range'')"

definition GetLength :: "HTTPRangeSpec option \<Rightarrow> int \<Rightarrow> error + int" where
  "GetLength h resourceSize =
     (if resourceSize < 0 then Inl rangeErr
      else case h of
        None \<Rightarrow> Inr resourceSize
      | Some h \<Rightarrow>
          if IsSuffixLength h then
            (let specifiedLen = - Start h
             in if specifiedLen > resourceSize then Inr resourceSize else Inr specifiedLen)
          else if Start h \<ge> resourceSize then Inl (Storage errInvalidRange)
          else if End h > -1 then
            (let last = (if resourceSize \<le> End h then resourceSize - 1 else End h)
             in Inr (last - Start h + 1))
          else if End h = -1 then Inr (resourceSize - Start h)
          else Inl rangeErr)"

definition GetOffsetLength :: "HTTPRangeSpec option \<Rightarrow> int \<Rightarrow> error + (int \<times> int)" where
  "GetOffsetLength h resourceSize =
     (case h of
        None \<Rightarrow> Inr (0, resourceSize)
      | Some hs \<Rightarrow>
          (case GetLength h resourceSize of
             Inl e \<Rightarrow> Inl e
           | Inr len \<Rightarrow>
               let start = (if IsSuffixLength hs
                            then (if resourceSize + Start hs < 0 then 0 else resourceSize + Start hs)
                            else Start hs)
               in Inr (start, len)))"

text \<open>One of the two positions: absent (\<open>-1\<close>), or a number without a sign.\<close>

definition parse_position :: "string \<Rightarrow> error + int" where
  "parse_position s =
     (if length s > 0 then
        (if hd s = CHR ''+'' then Inl rangeErr
         else case ParseInt s of
                (_, Some _) \<Rightarrow> Inl rangeErr
              | (n, None) \<Rightarrow> if n < 0 then Inl rangeErr else Inr n)
      else Inr (- 1))"

definition parseRequestRangeSpec :: "string \<Rightarrow> error + HTTPRangeSpec" where
  "parseRequestRangeSpec rangeString =
     (if \<not> strings_HasPrefix rangeString ''bytes='' then Inl rangeErr
      else let byteRangeString = strings_TrimPrefix rangeString ''bytes='' in
        case strings_Index byteRangeString CHR ''-'' of
          None \<Rightarrow> Inl rangeErr
        | Some sepIndex \<Rightarrow>
            (case parse_position (take sepIndex byteRangeString) of
               Inl e \<Rightarrow> Inl e
             | Inr offsetBegin \<Rightarrow>
                 (case parse_position (drop (sepIndex + 1) byteRangeString) of
                    Inl e \<Rightarrow> Inl e
                  | Inr offsetEnd \<Rightarrow>
                      if offsetBegin > -1 \<and> offsetEnd > -1 then
                        (if offsetBegin > offsetEnd then Inl (Storage errInvalidRange)
                         else Inr \<lparr>IsSuffixLength = False, Start = offsetBegin, End = offsetEnd\<rparr>)
                      else if offsetBegin > -1 then
                        Inr \<lparr>IsSuffixLength = False, Start = offsetBegin, End = -1\<rparr>
                      else if offsetEnd > -1 then
                        (if offsetEnd = 0 then Inl (Storage errInvalidRange)
                         else Inr \<lparr>IsSuffixLength = True, Start = - offsetEnd, End = -1\<rparr>)
                      else Inl rangeErr)))"

definition HTTPRangeSpec_String :: "HTTPRangeSpec option \<Rightarrow> int \<Rightarrow> string" where
  "HTTPRangeSpec_String h resourceSize =
     (case h of
        None \<Rightarrow> []
      | Some _ \<Rightarrow>
          (case GetOffsetLength h resourceSize of
             Inl _ \<Rightarrow> []
           | Inr (off, len) \<Rightarrow> FormatInt off @ ''-'' @ FormatInt (off + len - 1)))"

section \<open>Accepted specifications\<close>

definition wf_range :: "HTTPRangeSpec \<Rightarrow> bool" where
  "wf_range h = (if IsSuffixLength h then Start h < 0 \<and> End h = -1
                 else 0 \<le> Start h \<and> (End h = -1 \<or> Start h \<le> End h))"

lemma parse_position_ge: "parse_position s = Inr n \<Longrightarrow> -1 \<le> n \<and> n \<le> maxInt64"
  using ParseInt_range by (auto simp: parse_position_def split: if_splits prod.splits option.splits)

lemma parse_wf: "parseRequestRangeSpec s = Inr h \<Longrightarrow> wf_range h"
  by (auto simp: parseRequestRangeSpec_def Let_def wf_range_def split: if_splits option.splits sum.splits)

text \<open>The bytes a specification asks for: a suffix of at most the given length, or the positions from
  \<^verbatim>\<open>Start\<close> to \<^verbatim>\<open>End\<close> that exist.\<close>

definition selected :: "HTTPRangeSpec \<Rightarrow> int \<Rightarrow> int set" where
  "selected h sz =
     (if IsSuffixLength h then {i. 0 \<le> i \<and> sz + Start h \<le> i \<and> i < sz}
      else {i. Start h \<le> i \<and> i < sz \<and> (End h = -1 \<or> i \<le> End h)})"

lemma GetOffsetLength_selects:
  assumes "wf_range h" "0 \<le> sz" "GetOffsetLength (Some h) sz = Inr (off, len)"
  shows "0 \<le> off" "0 \<le> len" "off + len \<le> sz" "{off ..< off + len} = selected h sz"
  using assms by (auto simp: GetOffsetLength_def GetLength_def wf_range_def selected_def Let_def
      split: if_splits)

lemma GetOffsetLength_error_iff:
  assumes "wf_range h" "0 \<le> sz"
  shows "(\<exists>e. GetOffsetLength (Some h) sz = Inl e) \<longleftrightarrow> \<not> IsSuffixLength h \<and> sz \<le> Start h"
  using assms by (cases "IsSuffixLength h") (auto simp: GetOffsetLength_def GetLength_def wf_range_def Let_def)

section \<open>Printing and parsing\<close>

lemma parse_position_FormatInt:
  assumes "0 \<le> n" "n \<le> maxInt64"
  shows "parse_position (FormatInt n) = Inr n"
proof -
  have "is_digit (hd (show_nat (nat n)))"
    using show_nat_digits [of "nat n"] by (cases "show_nat (nat n)") auto
  then have "hd (show_nat (nat n)) \<noteq> CHR ''+''" using digit_not_sign by blast
  then show ?thesis
    using assms ParseInt_FormatInt [of n] by (simp add: parse_position_def FormatInt_def)
qed

lemma FormatInt_no_dash: "0 \<le> n \<Longrightarrow> CHR ''-'' \<notin> set (FormatInt n)"
  using show_nat_digits [of "nat n"] digit_not_sign by (auto simp: FormatInt_def list_all_iff)

lemma Index_first: "c \<notin> set s \<Longrightarrow> strings_Index (s @ c # t) c = Some (length s)"
  by (induction s) auto

lemma parse_range_string:
  assumes "CHR ''-'' \<notin> set a"
  shows "parseRequestRangeSpec (''bytes='' @ a @ ''-'' @ b) =
     (case (parse_position a, parse_position b) of
        (Inl e, _) \<Rightarrow> Inl e
      | (Inr x, Inl e) \<Rightarrow> Inl e
      | (Inr x, Inr y) \<Rightarrow>
          if x > -1 \<and> y > -1 then
            (if x > y then Inl (Storage errInvalidRange)
             else Inr \<lparr>IsSuffixLength = False, Start = x, End = y\<rparr>)
          else if x > -1 then Inr \<lparr>IsSuffixLength = False, Start = x, End = -1\<rparr>
          else if y > -1 then
            (if y = 0 then Inl (Storage errInvalidRange)
             else Inr \<lparr>IsSuffixLength = True, Start = - y, End = -1\<rparr>)
          else Inl rangeErr)"
proof -
  have t: "strings_TrimPrefix (''bytes='' @ a @ ''-'' @ b) ''bytes='' = a @ CHR ''-'' # b"
    using TrimPrefix_append [of "''bytes=''" "a @ CHR ''-'' # b"] by simp
  have p: "strings_HasPrefix (''bytes='' @ a @ ''-'' @ b) ''bytes=''" by (rule HasPrefix_append)
  show ?thesis
    unfolding parseRequestRangeSpec_def t
    using p Index_first [OF assms, of b] by (simp add: Let_def split: sum.split)
qed

text \<open>The header for a specification, as a client writes it.\<close>

definition range_header :: "HTTPRangeSpec \<Rightarrow> string" where
  "range_header h =
     ''bytes='' @ (if IsSuffixLength h then [] else FormatInt (Start h)) @ ''-'' @
     (if IsSuffixLength h then FormatInt (- Start h) else if End h = -1 then [] else FormatInt (End h))"

lemma parse_position_empty: "parse_position [] = Inr (- 1)"
  by (simp add: parse_position_def)

lemma parse_range_header:
  assumes "wf_range h" "\<bar>Start h\<bar> \<le> maxInt64" "End h \<le> maxInt64"
  shows "parseRequestRangeSpec (range_header h) = Inr h"
proof (cases "IsSuffixLength h")
  case True
  then show ?thesis
    using assms parse_range_string [of "[]" "FormatInt (- Start h)"]
    by (simp add: range_header_def wf_range_def parse_position_empty parse_position_FormatInt)
next
  case False
  then have s: "0 \<le> Start h" "Start h \<le> maxInt64" using assms by (auto simp: wf_range_def)
  show ?thesis
  proof (cases "End h = -1")
    case True
    then show ?thesis
      using False s parse_range_string [OF FormatInt_no_dash [OF s(1)], of "[]"]
      by (simp add: range_header_def parse_position_empty parse_position_FormatInt)
  next
    case e: False
    then have "Start h \<le> End h" using False assms(1) by (simp add: wf_range_def)
    then show ?thesis
      using False e s assms(3) parse_range_string [OF FormatInt_no_dash [OF s(1)], of "FormatInt (End h)"]
      by (simp add: range_header_def parse_position_FormatInt)
  qed
qed


text \<open>C29. Printing a well-formed range as a request header and parsing it gives the range back.\<close>

theorem range_header_roundtrip:
  assumes "wf_range h" "\<bar>Start h\<bar> \<le> maxInt64" "End h \<le> maxInt64"
  shows "parseRequestRangeSpec (range_header h) = Inr h"
  by (rule parse_range_header [OF assms])

theorem range_header_roundtrip_witness:
  "parseRequestRangeSpec (range_header \<lparr>IsSuffixLength = False, Start = 10, End = 20\<rparr>) =
     Inr \<lparr>IsSuffixLength = False, Start = 10, End = 20\<rparr>"
  using range_header_roundtrip [of "\<lparr>IsSuffixLength = False, Start = 10, End = 20\<rparr>"]
  by (simp add: wf_range_def)


end
