(* ===== verification/Object_Ranges.thy ===== *)
theory Object_Ranges
  imports Kinetic_Meta Http_Range
begin

text \<open>
  Which bytes of a stored object a range request has to read when the object was transformed on
  its way to the drive: the metadata tests of \<^verbatim>\<open>cmd/crypto/metadata.go\<close>, the sizes and the package
  arithmetic of \<^verbatim>\<open>cmd/encryption-v1.go\<close> (\<^verbatim>\<open>isEncryptedMultipart\<close>, \<^verbatim>\<open>DecryptedSize\<close>,
  \<^verbatim>\<open>GetDecryptedRange\<close>), and the compression helpers of \<^verbatim>\<open>cmd/object-api-utils.go\<close>.

  The size functions of the library \<^verbatim>\<open>github.com/minio/sio\<close> are the parameter \<open>sio_ops\<close>; the locale
  \<open>dare_sizes\<close> states what its documentation promises of them: a part is cut into packages of 64 KiB,
  each of which grows by 32 bytes. The last section shows that the range \<^verbatim>\<open>GetDecryptedRange\<close> computes
  consists of whole packages, and that what they decrypt to is, after skipping the stated number of
  bytes, exactly the requested range.
\<close>

section \<open>Metadata of encrypted and compressed objects\<close>

abbreviation SSEMultipart :: string where "SSEMultipart \<equiv> ''X-Minio-Internal-Encrypted-Multipart''"
abbreviation SSEIV :: string where "SSEIV \<equiv> ''X-Minio-Internal-Server-Side-Encryption-Iv''"
abbreviation SSESealAlgorithm :: string where
  "SSESealAlgorithm \<equiv> ''X-Minio-Internal-Server-Side-Encryption-Seal-Algorithm''"
abbreviation SSECSealedKey :: string where
  "SSECSealedKey \<equiv> ''X-Minio-Internal-Server-Side-Encryption-Sealed-Key''"
abbreviation S3SealedKey :: string where
  "S3SealedKey \<equiv> ''X-Minio-Internal-Server-Side-Encryption-S3-Sealed-Key''"
abbreviation S3KMSKeyID :: string where
  "S3KMSKeyID \<equiv> ''X-Minio-Internal-Server-Side-Encryption-S3-Kms-Key-Id''"
abbreviation S3KMSSealedKey :: string where
  "S3KMSSealedKey \<equiv> ''X-Minio-Internal-Server-Side-Encryption-S3-Kms-Sealed-Key''"

definition IsMultiPart :: "strmap \<Rightarrow> bool" where
  "IsMultiPart metadata = (map_of metadata SSEMultipart \<noteq> None)"

definition S3_IsEncrypted :: "strmap \<Rightarrow> bool" where
  "S3_IsEncrypted metadata =
     (if map_of metadata S3SealedKey \<noteq> None then True
      else if map_of metadata S3KMSKeyID \<noteq> None then True
      else if map_of metadata S3KMSSealedKey \<noteq> None then True
      else False)"

definition SSEC_IsEncrypted :: "strmap \<Rightarrow> bool" where
  "SSEC_IsEncrypted metadata = (map_of metadata SSECSealedKey \<noteq> None)"

definition IsEncrypted :: "strmap \<Rightarrow> bool" where
  "IsEncrypted metadata =
     (if map_of metadata SSEIV \<noteq> None then True
      else if map_of metadata SSESealAlgorithm \<noteq> None then True
      else if IsMultiPart metadata then True
      else if S3_IsEncrypted metadata then True
      else if SSEC_IsEncrypted metadata then True
      else False)"

abbreviation compression_key :: string where "compression_key \<equiv> ''X-Minio-Internal-compression''"

definition IsCompressed :: "ObjectInfo \<Rightarrow> bool" where
  "IsCompressed oi = (map_of (oi_UserDefined oi) compression_key \<noteq> None)"

definition IsCompressedOK :: "ObjectInfo \<Rightarrow> bool \<times> error option" where
  "IsCompressedOK oi =
     (case map_of (oi_UserDefined oi) compression_key of
        None \<Rightarrow> (False, None)
      | Some scheme \<Rightarrow>
          if IsEncrypted (oi_UserDefined oi) then (True, Some (Lib (ErrOther ''compression and encryption'')))
          else if scheme = ''golang/snappy/LZ77'' \<or> scheme = ''klauspost/compress/s2'' then (True, None)
          else (True, Some (Lib (ErrOther ''unknown compression scheme''))))"

definition GetActualSize :: "ObjectInfo \<Rightarrow> int" where
  "GetActualSize oi =
     (case map_of (oi_UserDefined oi) ''X-Minio-Internal-actual-size'' of
        Some sizeStr \<Rightarrow> (case ParseInt sizeStr of (sz, None) \<Rightarrow> sz | _ \<Rightarrow> - 1)
      | None \<Rightarrow> - 1)"

text \<open>The loop of \<^verbatim>\<open>getCompressedOffsets\<close>, from the cumulative size and the offset so far: the
  compressed offset and the length to subtract.\<close>

fun compressed_loop :: "int \<Rightarrow> int \<Rightarrow> int \<Rightarrow> ObjectPartInfo list \<Rightarrow> int \<times> int" where
  "compressed_loop offset cumulative compressedOffset [] = (compressedOffset, 0)"
| "compressed_loop offset cumulative compressedOffset (part # parts) =
     (let cumulative = cumulative + op_ActualSize part in
      if cumulative \<le> offset then compressed_loop offset cumulative (compressedOffset + op_Size part) parts
      else (compressedOffset, cumulative - op_ActualSize part))"

definition getCompressedOffsets :: "ObjectInfo \<Rightarrow> int \<Rightarrow> int \<times> int" where
  "getCompressedOffsets oi offset =
     (let (compressedOffset, skipLength) = compressed_loop offset 0 0 (oi_Parts oi)
      in (compressedOffset, offset - skipLength))"

section \<open>Sizes of encrypted objects\<close>

record sio_ops =
  sio_DecryptedSize :: "int \<Rightarrow> int \<times> error option"
  sio_EncryptedSize :: "int \<Rightarrow> int \<times> error option"

abbreviation errObjectTampered :: error where
  "errObjectTampered \<equiv> Lib (ErrOther ''The requested object was modified and may be compromised'')"

abbreviation (input) SSEDAREPackageBlockSize :: int where "SSEDAREPackageBlockSize \<equiv> 65536"
abbreviation (input) SSEDAREPackageMetaSize :: int where "SSEDAREPackageMetaSize \<equiv> 32"

definition u64 :: "int \<Rightarrow> int" where "u64 i = i mod 2 ^ 64"

text \<open>\<open>erasure\<close> says whether the object comes from an erasure-coded backend; the Kinetic layer leaves
  \<^verbatim>\<open>backendType\<close> unset.\<close>

definition isEncryptedMultipart :: "sio_ops \<Rightarrow> bool \<Rightarrow> ObjectInfo \<Rightarrow> bool" where
  "isEncryptedMultipart S erasure oi =
     (if length (oi_Parts oi) = 0 then False
      else if \<not> IsMultiPart (oi_UserDefined oi) then False
      else if list_ex (\<lambda>part. snd (sio_DecryptedSize S (u64 (op_Size part))) \<noteq> None) (oi_Parts oi) then False
      else \<not> (erasure \<and> length (oi_ETag oi) = 32))"

text \<open>The decrypted sizes of the parts, or the error of the first part whose size is not one of an
  encrypted part.\<close>

fun part_sizes :: "sio_ops \<Rightarrow> ObjectPartInfo list \<Rightarrow> error + int list" where
  "part_sizes S [] = Inr []"
| "part_sizes S (part # parts) =
     (case sio_DecryptedSize S (u64 (op_Size part)) of
        (_, Some _) \<Rightarrow> Inl errObjectTampered
      | (partSize, None) \<Rightarrow>
          (case part_sizes S parts of Inl e \<Rightarrow> Inl e | Inr sizes \<Rightarrow> Inr (wrap64 partSize # sizes)))"

definition DecryptedSize :: "sio_ops \<Rightarrow> bool \<Rightarrow> ObjectInfo \<Rightarrow> error + int" where
  "DecryptedSize S erasure oi =
     (if \<not> IsEncrypted (oi_UserDefined oi) then Inl (Lib (ErrOther ''unencrypted object''))
      else if \<not> isEncryptedMultipart S erasure oi then
        (case sio_DecryptedSize S (u64 (oi_Size oi)) of
           (sz, None) \<Rightarrow> Inr (wrap64 sz)
         | (_, Some _) \<Rightarrow> Inl errObjectTampered)
      else (case part_sizes S (oi_Parts oi) of Inl e \<Rightarrow> Inl e | Inr sizes \<Rightarrow> Inr (sum_list sizes)))"

section \<open>The range to decrypt\<close>

text \<open>The loop that looks for the part which contains a position: its index, if any, and the decrypted
  and encrypted sizes of the parts before it.\<close>

fun locate_part :: "sio_ops \<Rightarrow> int \<Rightarrow> nat \<Rightarrow> int \<Rightarrow> int \<Rightarrow> int list \<Rightarrow> nat option \<times> int \<times> int" where
  "locate_part S pos i cumulativeSum encCumulativeSum [] = (None, cumulativeSum, encCumulativeSum)"
| "locate_part S pos i cumulativeSum encCumulativeSum (sz # sizes) =
     (if pos < cumulativeSum + sz then (Some i, cumulativeSum, encCumulativeSum)
      else locate_part S pos (Suc i) (cumulativeSum + sz)
             (encCumulativeSum + wrap64 (fst (sio_EncryptedSize S (u64 sz)))) sizes)"

text \<open>The computation once the part sizes and the range are known.\<close>

definition package_range :: "sio_ops \<Rightarrow> int list \<Rightarrow> int \<Rightarrow> int \<Rightarrow> int \<times> int \<times> int \<times> int \<times> nat" where
  "package_range S sizes off len =
     (let (found, cumulativeSum, encCumulativeSum) = locate_part S off 0 0 0 sizes;
          partStart = (case found of Some i \<Rightarrow> i | None \<Rightarrow> 0);
          encPackageBlockSize = SSEDAREPackageBlockSize + SSEDAREPackageMetaSize;
          startPkgNum = (off - cumulativeSum) sdiv SSEDAREPackageBlockSize;
          skipLen = (off - cumulativeSum) smod SSEDAREPackageBlockSize;
          encOff = encCumulativeSum + startPkgNum * encPackageBlockSize;
          endOffset = off + len - 1;
          (found, cumulativeSum, encCumulativeSum) =
            locate_part S endOffset partStart cumulativeSum encCumulativeSum (drop partStart sizes);
          partEnd = (case found of Some i \<Rightarrow> i | None \<Rightarrow> 0);
          endPkgNum = (endOffset - cumulativeSum) sdiv SSEDAREPackageBlockSize;
          endEncOffset = encCumulativeSum + (endPkgNum + 1) * encPackageBlockSize;
          lastPartSize = wrap64 (fst (sio_EncryptedSize S (u64 (sizes ! partEnd))));
          endEncOffset = (if endEncOffset > encCumulativeSum + lastPartSize
                          then encCumulativeSum + lastPartSize else endEncOffset)
      in (encOff, endEncOffset - encOff, skipLen, startPkgNum mod 2 ^ 32, partStart))"

definition GetDecryptedRange ::
  "sio_ops \<Rightarrow> bool \<Rightarrow> ObjectInfo \<Rightarrow> HTTPRangeSpec option \<Rightarrow> error + (int \<times> int \<times> int \<times> int \<times> nat)" where
  "GetDecryptedRange S erasure oi rs =
     (if \<not> IsEncrypted (oi_UserDefined oi) then Inl (Lib (ErrOther ''Object is not encrypted''))
      else if rs = None then Inr (0, oi_Size oi, 0, 0, 0)
      else case (if isEncryptedMultipart S erasure oi then part_sizes S (oi_Parts oi)
                 else case sio_DecryptedSize S (u64 (oi_Size oi)) of
                        (_, Some _) \<Rightarrow> Inl errObjectTampered
                      | (partSize, None) \<Rightarrow> Inr [wrap64 partSize]) of
          Inl e \<Rightarrow> Inl e
        | Inr sizes \<Rightarrow>
            (case GetOffsetLength rs (sum_list sizes) of
               Inl e \<Rightarrow> Inl e
             | Inr (off, len) \<Rightarrow> Inr (package_range S sizes off len)))"

section \<open>What the library promises\<close>

abbreviation dare_max :: int where "dare_max \<equiv> 281474976710656"

definition packages_of :: "int \<Rightarrow> int" where
  "packages_of n = (n + 65535) div 65536"

locale dare_sizes =
  fixes S :: sio_ops
  assumes encrypted_size: "0 \<le> n \<Longrightarrow> n \<le> dare_max \<Longrightarrow> sio_EncryptedSize S n = (n + 32 * packages_of n, None)"
    and decrypted_size: "0 \<le> n \<Longrightarrow> n \<le> dare_max \<Longrightarrow> sio_DecryptedSize S (n + 32 * packages_of n) = (n, None)"

text \<open>A part as the library writes it: a list of packages, each with its plain and its encrypted bytes; all
  but the last hold 64 KiB.\<close>

type_synonym part = "(bytes \<times> bytes) list"

definition plain :: "part \<Rightarrow> bytes" where "plain p = concat (map fst p)"
definition cipher :: "part \<Rightarrow> bytes" where "cipher p = concat (map snd p)"

lemma plain_simps [simp]: "plain [] = []" "plain (x # p) = fst x @ plain p" "plain (p @ q) = plain p @ plain q"
  by (simp_all add: plain_def)

lemma cipher_simps [simp]: "cipher [] = []" "cipher (x # p) = snd x @ cipher p" "cipher (p @ q) = cipher p @ cipher q"
  by (simp_all add: cipher_def)

fun dare_part :: "part \<Rightarrow> bool" where
  "dare_part [] = True"
| "dare_part (x # p) =
     (length (snd x) = length (fst x) + 32 \<and> 0 < length (fst x) \<and> length (fst x) \<le> 65536 \<and>
      (p \<noteq> [] \<longrightarrow> length (fst x) = 65536) \<and> dare_part p)"

text \<open>The packages before package \<open>k\<close> of a part are full, and the sizes of the part follow.\<close>

lemma cipher_length: "dare_part p \<Longrightarrow> length (cipher p) = length (plain p) + 32 * length p"
  by (induction p) auto

lemma plain_bound: "dare_part p \<Longrightarrow> length (plain p) \<le> 65536 * length p"
  by (induction p) auto

lemma full_packages:
  "dare_part p \<Longrightarrow> k < length p \<Longrightarrow>
   length (plain (take k p)) = 65536 * k \<and> length (cipher (take k p)) = 65568 * k"
proof (induction p arbitrary: k)
  case (Cons x p)
  then show ?case by (cases k) auto
qed simp

lemma part_packages: "dare_part p \<Longrightarrow> int (length p) = packages_of (int (length (plain p)))"
proof (induction p)
  case (Cons x p)
  define a n where "a = int (length (fst x))" and "n = int (length (plain p))"
  have a: "0 < a" "a \<le> 65536" "p \<noteq> [] \<Longrightarrow> a = 65536" using Cons.prems by (auto simp: a_def)
  have "packages_of (a + n) = 1 + packages_of n"
  proof (cases "p = []")
    case True
    then show ?thesis using a by (simp add: packages_of_def n_def)
  next
    case False
    then have "a + n + 65535 = 65536 + (n + 65535)" using a(3) by simp
    then show ?thesis by (simp add: packages_of_def)
  qed
  with Cons show ?case by (simp add: a_def n_def)
qed (simp add: packages_of_def)

text \<open>The package that holds the byte at a position of a part.\<close>

lemma package_at:
  assumes "dare_part p" "0 \<le> q" "q < int (length (plain p))"
  defines "k \<equiv> nat (q div 65536)"
  shows "k < length p" "int (length (plain (take k p))) = q - q mod 65536"
    "int (length (cipher (take k p))) = (q div 65536) * 65568"
    "q < int (length (plain (take (Suc k) p)))"
    "int (length (cipher (take (Suc k) p))) = min ((q div 65536 + 1) * 65568) (int (length (cipher p)))"
proof -
  have k: "int k = q div 65536" using assms(2) by (simp add: k_def)
  have b: "int (length (plain p)) \<le> 65536 * int (length p)" using plain_bound [OF assms(1)] by linarith
  with assms(2,3) have "q div 65536 < int (length p)" by linarith
  with k show kl: "k < length p" by linarith
  have q: "q = 65536 * (q div 65536) + q mod 65536" by simp
  show "int (length (plain (take k p))) = q - q mod 65536"
    using full_packages [OF assms(1) kl] k by (simp add: minus_mod_eq_mult_div)
  show "int (length (cipher (take k p))) = (q div 65536) * 65568"
    using full_packages [OF assms(1) kl] k by simp
  have "q < int (length (plain (take (Suc k) p))) \<and>
    int (length (cipher (take (Suc k) p))) = min ((q div 65536 + 1) * 65568) (int (length (cipher p)))"
  proof (cases "Suc k < length p")
    case True
    have f: "length (plain (take (Suc k) p)) = 65536 * Suc k" "length (cipher (take (Suc k) p)) = 65568 * Suc k"
      using full_packages [OF assms(1) True] by auto
    have "length (cipher (take (Suc k) p)) \<le> length (cipher p)"
      by (metis append_take_drop_id cipher_simps(3) length_append le_add1)
    moreover have "q < 65536 * (q div 65536 + 1)" by presburger
    ultimately show ?thesis using f k by simp
  next
    case False
    then have t: "take (Suc k) p = p" and l: "int (length p) = q div 65536 + 1" using kl k by auto
    have "int (length (cipher p)) \<le> 65568 * int (length p)"
      using cipher_length [OF assms(1)] b by simp
    then show ?thesis using assms(3) l by (simp add: t)
  qed
  then show "q < int (length (plain (take (Suc k) p)))"
    "int (length (cipher (take (Suc k) p))) = min ((q div 65536 + 1) * 65568) (int (length (cipher p)))"
    by auto
qed

text \<open>Whole packages cut out of the encrypted stream, and what they decrypt to.\<close>

lemma cut_cipher:
  assumes "K \<le> K'"
  shows "take (length (cipher (take K' L)) - length (cipher (take K L))) (drop (length (cipher (take K L))) (cipher L)) =
         cipher (drop K (take K' L))"
proof -
  have L: "cipher L = cipher (take K L) @ cipher (drop K (take K' L)) @ cipher (drop K' L)"
    using assms by (metis append_take_drop_id cipher_simps(3) append.assoc take_take min.absorb1)
  have "cipher (take K' L) = cipher (take K L) @ cipher (drop K (take K' L))"
    using assms by (metis append_take_drop_id cipher_simps(3) take_take min.absorb1)
  then show ?thesis by (simp add: L)
qed

lemma cut_plain:
  assumes "K \<le> K'" "length (plain (take K L)) \<le> off" "off + len \<le> length (plain (take K' L))"
  shows "take len (drop (off - length (plain (take K L))) (plain (drop K (take K' L)))) = take len (drop off (plain L))"
proof -
  have L: "plain L = plain (take K' L) @ plain (drop K' L)"
    by (metis append_take_drop_id plain_simps(3))
  have K': "plain (take K' L) = plain (take K L) @ plain (drop K (take K' L))"
    using assms(1) by (metis append_take_drop_id plain_simps(3) take_take min.absorb1)
  show ?thesis using assms(2,3) by (simp add: L) (simp add: K')
qed

text \<open>A position inside a part of an object, as a position in the list of all packages.\<close>

lemma take_concat:
  assumes "j < length ps" "k \<le> length (ps ! j)"
  shows "take (length (concat (take j ps)) + k) (concat ps) = concat (take j ps) @ take k (ps ! j)"
proof -
  have "concat ps = concat (take j ps) @ ps ! j @ concat (drop (Suc j) ps)"
    using assms(1) by (metis concat.simps(2) concat_append id_take_nth_drop)
  then show ?thesis using assms(2) by simp
qed

lemma sdiv_package: "0 \<le> (a :: int) \<Longrightarrow> a sdiv 65536 = a div 65536 \<and> a smod 65536 = a mod 65536"
  by (cases "a = 0") (auto simp: signed_divide_int_def signed_modulo_int_def)

context dare_sizes
begin

lemma enc_size_cipher:
  assumes "dare_part p" "int (length (plain p)) \<le> dare_max"
  shows "wrap64 (fst (sio_EncryptedSize S (u64 (int (length (plain p)))))) = int (length (cipher p))"
    "sio_DecryptedSize S (u64 (int (length (cipher p)))) = (int (length (plain p)), None)"
    "wrap64 (int (length (plain p))) = int (length (plain p))"
proof -
  define n where "n = int (length (plain p))"
  have n: "0 \<le> n" "n \<le> dare_max" using assms(2) by (auto simp: n_def)
  have c: "int (length (cipher p)) = n + 32 * packages_of n"
    using cipher_length [OF assms(1)] part_packages [OF assms(1)] by (simp add: n_def)
  have "0 \<le> packages_of n" "packages_of n \<le> 4294967297" using n by (auto simp: packages_of_def)
  then have "0 \<le> n + 32 * packages_of n" "n + 32 * packages_of n < 2 ^ 62" using n by simp_all
  then show "wrap64 (fst (sio_EncryptedSize S (u64 (int (length (plain p)))))) = int (length (cipher p))"
    "sio_DecryptedSize S (u64 (int (length (cipher p)))) = (int (length (plain p)), None)"
    "wrap64 (int (length (plain p))) = int (length (plain p))"
    using n encrypted_size [OF n] decrypted_size [OF n] unfolding c n_def [symmetric]
    by (simp_all add: u64_def wrap64_def)
qed

lemma locate_part_at:
  assumes "\<forall>p \<in> set ps. dare_part p \<and> int (length (plain p)) \<le> dare_max"
    "cum \<le> pos" "pos < cum + int (length (plain (concat ps)))"
  shows "\<exists>j < length ps. locate_part S pos i cum enc (map (\<lambda>p. int (length (plain p))) ps) =
      (Some (i + j), cum + int (length (plain (concat (take j ps)))), enc + int (length (cipher (concat (take j ps))))) \<and>
      cum + int (length (plain (concat (take j ps)))) \<le> pos \<and>
      pos < cum + int (length (plain (concat (take j ps)))) + int (length (plain (ps ! j)))"
  using assms
proof (induction ps arbitrary: i cum enc)
  case (Cons p ps)
  show ?case
  proof (cases "pos < cum + int (length (plain p))")
    case True
    then show ?thesis using Cons.prems by (intro exI [of _ 0]) simp
  next
    case False
    have e: "wrap64 (fst (sio_EncryptedSize S (u64 (int (length (plain p)))))) = int (length (cipher p))"
      using enc_size_cipher(1) Cons.prems(1) by simp
    obtain j where "j < length ps"
      "locate_part S pos (Suc i) (cum + int (length (plain p))) (enc + int (length (cipher p)))
         (map (\<lambda>p. int (length (plain p))) ps) =
       (Some (Suc i + j), cum + int (length (plain p)) + int (length (plain (concat (take j ps)))),
        enc + int (length (cipher p)) + int (length (cipher (concat (take j ps)))))"
      "cum + int (length (plain p)) + int (length (plain (concat (take j ps)))) \<le> pos"
      "pos < cum + int (length (plain p)) + int (length (plain (concat (take j ps)))) + int (length (plain (ps ! j)))"
      using Cons.IH [of "cum + int (length (plain p))" "Suc i" "enc + int (length (cipher p))"] Cons.prems False by auto
    with False e show ?thesis by (intro exI [of _ "Suc j"]) (auto simp: algebra_simps)
  qed
qed simp

lemma package_range_packages:
  assumes ps: "\<forall>p \<in> set ps. dare_part p \<and> int (length (plain p)) \<le> dare_max"
    and off: "0 \<le> off" "0 < len" "off + len \<le> int (length (plain (concat ps)))"
  obtains encOff encLen skip i K K' where
    "package_range S (map (\<lambda>p. int (length (plain p))) ps) off len =
       (encOff, encLen, skip, ((off - int (length (plain (concat (take i ps))))) div 65536) mod 2 ^ 32, i)"
    "encOff = int (length (cipher (take K (concat ps))))" "encOff + encLen = int (length (cipher (take K' (concat ps))))"
    "off = int (length (plain (take K (concat ps)))) + skip" "0 \<le> skip"
    "off + len \<le> int (length (plain (take K' (concat ps))))"
proof -
  let ?sizes = "map (\<lambda>p. int (length (plain p))) ps"
  let ?P = "\<lambda>j. int (length (plain (concat (take j ps))))" and ?C = "\<lambda>j. int (length (cipher (concat (take j ps))))"
  obtain i where i: "i < length ps" "locate_part S off 0 0 0 ?sizes = (Some i, ?P i, ?C i)"
    "?P i \<le> off" "off < ?P i + int (length (plain (ps ! i)))"
    using locate_part_at [OF ps, of 0 off 0 0] off by auto
  have "concat ps = concat (take i ps) @ concat (drop i ps)"
    by (metis append_take_drop_id concat_append)
  then have "off + len \<le> ?P i + int (length (plain (concat (drop i ps))))" using off(3) by simp
  then have r: "?P i \<le> off + len - 1" "off + len - 1 < ?P i + int (length (plain (concat (drop i ps))))"
    using off(2) i(3) by linarith+
  have pd: "\<forall>p \<in> set (drop i ps). dare_part p \<and> int (length (plain p)) \<le> dare_max"
    using ps by (auto dest: in_set_dropD)
  obtain j where j: "j < length (drop i ps)"
    "locate_part S (off + len - 1) i (?P i) (?C i) (drop i ?sizes) =
       (Some (i + j), ?P i + int (length (plain (concat (take j (drop i ps))))),
        ?C i + int (length (cipher (concat (take j (drop i ps))))))"
    "?P i + int (length (plain (concat (take j (drop i ps))))) \<le> off + len - 1"
    "off + len - 1 < ?P i + int (length (plain (concat (take j (drop i ps))))) + int (length (plain (drop i ps ! j)))"
    using locate_part_at [OF pd r, of i "?C i"] unfolding drop_map by blast
  define e where "e = i + j"
  have e: "e < length ps" "locate_part S (off + len - 1) i (?P i) (?C i) (drop i ?sizes) = (Some e, ?P e, ?C e)"
    "?P e \<le> off + len - 1" "off + len - 1 < ?P e + int (length (plain (ps ! e)))"
    using j by (auto simp: e_def take_add)
  have ok: "dare_part (ps ! i)" "dare_part (ps ! e)" "int (length (plain (ps ! e))) \<le> dare_max"
    using ps i(1) e(1) by auto
  have q: "0 \<le> off - ?P i" "off - ?P i < int (length (plain (ps ! i)))"
    "0 \<le> off + len - 1 - ?P e" "off + len - 1 - ?P e < int (length (plain (ps ! e)))"
    using i(3,4) e(3,4) by linarith+
  define k k' where "k = nat ((off - ?P i) div 65536)" and "k' = nat ((off + len - 1 - ?P e) div 65536)"
  note s = package_at [OF ok(1) q(1,2), folded k_def] and t = package_at [OF ok(2) q(3,4), folded k'_def]
  define K K' where "K = length (concat (take i ps)) + k" and "K' = length (concat (take e ps)) + Suc k'"
  have K: "take K (concat ps) = concat (take i ps) @ take k (ps ! i)"
    unfolding K_def by (rule take_concat [OF i(1)]) (use s(1) in simp)
  have K': "take K' (concat ps) = concat (take e ps) @ take (Suc k') (ps ! e)"
    unfolding K'_def by (rule take_concat [OF e(1)]) (use t(1) in simp)
  have last: "wrap64 (fst (sio_EncryptedSize S (u64 (?sizes ! e)))) = int (length (cipher (ps ! e)))"
    using enc_size_cipher(1) [OF ok(2,3)] e(1) by simp
  show ?thesis
  proof (rule that [of "?C i + (off - ?P i) div 65536 * 65568"
        "?C e + min ((((off + len - 1) - ?P e) div 65536 + 1) * 65568) (int (length (cipher (ps ! e)))) -
         (?C i + (off - ?P i) div 65536 * 65568)" "(off - ?P i) mod 65536" i K K'])
    show "package_range S ?sizes off len =
       (?C i + (off - ?P i) div 65536 * 65568,
        ?C e + min ((((off + len - 1) - ?P e) div 65536 + 1) * 65568) (int (length (cipher (ps ! e)))) -
          (?C i + (off - ?P i) div 65536 * 65568),
        (off - ?P i) mod 65536, ((off - ?P i) div 65536) mod 2 ^ 32, i)"
      unfolding package_range_def Let_def i(2) prod.case option.case e(2) last
        sdiv_package [OF q(1), THEN conjunct1] sdiv_package [OF q(1), THEN conjunct2]
        sdiv_package [OF q(3), THEN conjunct1] by (simp add: min_def)
    show "?C i + (off - ?P i) div 65536 * 65568 = int (length (cipher (take K (concat ps))))"
      unfolding K using s(3) by simp
    show "off = int (length (plain (take K (concat ps)))) + (off - ?P i) mod 65536"
      unfolding K using s(2) by simp
    show "off + len \<le> int (length (plain (take K' (concat ps))))"
      unfolding K' using t(4) by simp
    show "?C i + (off - ?P i) div 65536 * 65568 +
        (?C e + min ((((off + len - 1) - ?P e) div 65536 + 1) * 65568) (int (length (cipher (ps ! e)))) -
         (?C i + (off - ?P i) div 65536 * 65568)) = int (length (cipher (take K' (concat ps))))"
      unfolding K' using t(5) by simp
  qed simp
qed

lemma part_sizes_cipher:
  "\<forall>p \<in> set ps. dare_part p \<and> int (length (plain p)) \<le> dare_max \<Longrightarrow>
   map op_Size parts = map (\<lambda>p. int (length (cipher p))) ps \<Longrightarrow>
   part_sizes S parts = Inr (map (\<lambda>p. int (length (plain p))) ps)"
proof (induction parts arbitrary: ps)
  case (Cons part parts)
  then obtain p ps' where "ps = p # ps'" "op_Size part = int (length (cipher p))"
    "map op_Size parts = map (\<lambda>p. int (length (cipher p))) ps'" by (cases ps) auto
  then show ?case using Cons.IH [of ps'] Cons.prems(1) enc_size_cipher [of p] by simp
qed simp

end

text \<open>The parts an encrypted object was written in, as its metadata describes them.\<close>

definition encrypted_as :: "ObjectInfo \<Rightarrow> part list \<Rightarrow> bool" where
  "encrypted_as oi ps =
     (IsEncrypted (oi_UserDefined oi) \<and>
      (\<forall>p \<in> set ps. dare_part p \<and> int (length (plain p)) \<le> dare_max) \<and>
      (if IsMultiPart (oi_UserDefined oi) \<and> oi_Parts oi \<noteq> []
       then map op_Size (oi_Parts oi) = map (\<lambda>p. int (length (cipher p))) ps
       else \<exists>p. ps = [p] \<and> oi_Size oi = int (length (cipher p))))"

context dare_sizes
begin

lemma sizes_of_encrypted:
  assumes "encrypted_as oi ps"
  shows "isEncryptedMultipart S False oi = (IsMultiPart (oi_UserDefined oi) \<and> oi_Parts oi \<noteq> [])"
    "(if isEncryptedMultipart S False oi then part_sizes S (oi_Parts oi)
      else case sio_DecryptedSize S (u64 (oi_Size oi)) of
             (_, Some _) \<Rightarrow> Inl errObjectTampered
           | (partSize, None) \<Rightarrow> Inr [wrap64 partSize]) = Inr (map (\<lambda>p. int (length (plain p))) ps)"
proof -
  have "snd (sio_DecryptedSize S (u64 (op_Size part))) = None"
    if m: "map op_Size (oi_Parts oi) = map (\<lambda>p. int (length (cipher p))) ps" and p: "part \<in> set (oi_Parts oi)" for part
  proof -
    have "op_Size part \<in> (\<lambda>p. int (length (cipher p))) ` set ps"
      using p m by (metis image_eqI list.set_map)
    then obtain q where "q \<in> set ps" "op_Size part = int (length (cipher q))" by auto
    then show ?thesis using assms enc_size_cipher(2) [of q] by (simp add: encrypted_as_def)
  qed
  then show m: "isEncryptedMultipart S False oi = (IsMultiPart (oi_UserDefined oi) \<and> oi_Parts oi \<noteq> [])"
    using assms by (auto simp: isEncryptedMultipart_def encrypted_as_def list_ex_iff)
  show "(if isEncryptedMultipart S False oi then part_sizes S (oi_Parts oi)
      else case sio_DecryptedSize S (u64 (oi_Size oi)) of
             (_, Some _) \<Rightarrow> Inl errObjectTampered
           | (partSize, None) \<Rightarrow> Inr [wrap64 partSize]) = Inr (map (\<lambda>p. int (length (plain p))) ps)"
    using assms part_sizes_cipher [of ps "oi_Parts oi"] enc_size_cipher [of "hd ps"] unfolding m
    by (auto simp: encrypted_as_def split: if_splits)
qed

lemma total_plain: "sum_list (map (\<lambda>p. int (length (plain p))) ps) = int (length (plain (concat ps)))"
  by (induction ps) auto

lemma decrypted_range:
  assumes "encrypted_as oi ps" "wf_range h"
    "GetOffsetLength (Some h) (int (length (plain (concat ps)))) = Inr (off, len)" "0 < len"
  shows "\<exists>encOff encLength skipLen seqNumber partStart K K'.
     GetDecryptedRange S False oi (Some h) = Inr (encOff, encLength, skipLen, seqNumber, partStart) \<and>
     take (nat encLength) (drop (nat encOff) (cipher (concat ps))) = cipher (drop K (take K' (concat ps))) \<and>
     take (nat len) (drop (nat skipLen) (plain (drop K (take K' (concat ps))))) =
       take (nat len) (drop (nat off) (plain (concat ps)))"
proof -
  have b: "0 \<le> off" "off + len \<le> int (length (plain (concat ps)))"
    using GetOffsetLength_selects [OF assms(2) _ assms(3)] by auto
  have ps: "\<forall>p \<in> set ps. dare_part p \<and> int (length (plain p)) \<le> dare_max"
    using assms(1) by (simp add: encrypted_as_def)
  obtain encOff encLen skip i K K' where r:
    "package_range S (map (\<lambda>p. int (length (plain p))) ps) off len =
       (encOff, encLen, skip, ((off - int (length (plain (concat (take i ps))))) div 65536) mod 2 ^ 32, i)"
    "encOff = int (length (cipher (take K (concat ps))))" "encOff + encLen = int (length (cipher (take K' (concat ps))))"
    "off = int (length (plain (take K (concat ps)))) + skip" "0 \<le> skip"
    "off + len \<le> int (length (plain (take K' (concat ps))))"
    by (rule package_range_packages [OF ps b(1) assms(4) b(2)])
  have "K \<le> K'"
  proof (rule ccontr)
    assume "\<not> K \<le> K'"
    then have "take K (concat ps) = take K' (concat ps) @ drop K' (take K (concat ps))"
      by (metis append_take_drop_id le_cases min.absorb1 take_take)
    then have "length (plain (take K' (concat ps))) \<le> length (plain (take K (concat ps)))"
      by (metis plain_simps(3) length_append le_add1)
    then show False using r(4-6) assms(4) by linarith
  qed
  moreover have "nat encLen = length (cipher (take K' (concat ps))) - length (cipher (take K (concat ps)))"
    "nat encOff = length (cipher (take K (concat ps)))"
    "nat skip = nat off - length (plain (take K (concat ps)))"
    "length (plain (take K (concat ps))) \<le> nat off" "nat off + nat len \<le> length (plain (take K' (concat ps)))"
    using r(2-6) assms(4) by linarith+
  moreover have "GetDecryptedRange S False oi (Some h) = Inr (package_range S (map (\<lambda>p. int (length (plain p))) ps) off len)"
    using assms(1,3) unfolding GetDecryptedRange_def sizes_of_encrypted(2) [OF assms(1)]
    by (simp add: total_plain encrypted_as_def)
  ultimately have "take (nat encLen) (drop (nat encOff) (cipher (concat ps))) = cipher (drop K (take K' (concat ps)))"
    "take (nat len) (drop (nat skip) (plain (drop K (take K' (concat ps))))) =
       take (nat len) (drop (nat off) (plain (concat ps)))"
    "GetDecryptedRange S False oi (Some h) =
       Inr (encOff, encLen, skip, ((off - int (length (plain (concat (take i ps))))) div 65536) mod 2 ^ 32, i)"
    using cut_cipher [of K K' "concat ps"] cut_plain [of K K' "concat ps" "nat off" "nat len"] r(1) by simp_all
  then show ?thesis by blast
qed

end

section \<open>The sizes of the library\<close>

text \<open>The size functions as the library documents them.\<close>

definition dare_ops :: sio_ops where
  "dare_ops =
     \<lparr>sio_DecryptedSize = (\<lambda>n. let r = n mod 65568 in
        if r > 0 \<and> r \<le> 32 then (0, Some errObjectTampered)
        else (n div 65568 * 65536 + (if r > 0 then r - 32 else 0), None)),
      sio_EncryptedSize = (\<lambda>n. (n + 32 * packages_of n, None))\<rparr>"

interpretation dare: dare_sizes dare_ops
proof
  fix n :: int
  assume n: "0 \<le> n"
  define q r where "q = n div 65536" and "r = n mod 65536"
  have nq: "n = 65536 * q + r" "0 \<le> r" "r < 65536" by (simp_all add: q_def r_def)
  have p: "packages_of n = q + (if r = 0 then 0 else 1)"
    using nq by (auto simp: packages_of_def)
  have e: "n + 32 * packages_of n = 65568 * q + (if r = 0 then 0 else r + 32)"
    using p nq(1) by (cases "r = 0") simp_all
  have "(n + 32 * packages_of n) div 65568 = q" "(n + 32 * packages_of n) mod 65568 = (if r = 0 then 0 else r + 32)"
    unfolding e using nq(2,3) by simp_all
  then show "sio_DecryptedSize dare_ops (n + 32 * packages_of n) = (n, None)"
    using nq by (simp add: dare_ops_def Let_def)
qed (simp add: dare_ops_def)

text \<open>C5. For a range of an encrypted object, in one part or in several, the bytes the layer is told to read are a
  sequence of whole packages, and skipping the stated number of bytes of what these packages decrypt to gives
  exactly the requested range of the plain object.\<close>

theorem encrypted_range_covers:
  assumes "dare_sizes S" "encrypted_as oi ps" "wf_range h"
    "GetOffsetLength (Some h) (int (length (plain (concat ps)))) = Inr (off, len)" "0 < len"
  shows "\<exists>encOff encLength skipLen seqNumber partStart K K'.
     GetDecryptedRange S False oi (Some h) = Inr (encOff, encLength, skipLen, seqNumber, partStart) \<and>
     take (nat encLength) (drop (nat encOff) (cipher (concat ps))) = cipher (drop K (take K' (concat ps))) \<and>
     take (nat len) (drop (nat skipLen) (plain (drop K (take K' (concat ps))))) =
       take (nat len) (drop (nat off) (plain (concat ps)))"
  by (rule dare_sizes.decrypted_range [OF assms])

definition example_part :: part where
  "example_part = [(''abc'', ''xyz'' @ replicate 32 CHR ''t'')]"

definition example_encrypted :: ObjectInfo where
  "example_encrypted = ObjectInfo0\<lparr>oi_UserDefined := [(SSEIV, ''iv'')], oi_Size := 35\<rparr>"

theorem encrypted_range_covers_witness:
  "\<exists>encOff encLength skipLen seqNumber partStart K K'.
     GetDecryptedRange dare_ops False example_encrypted (Some \<lparr>IsSuffixLength = False, Start = 1, End = 2\<rparr>) =
       Inr (encOff, encLength, skipLen, seqNumber, partStart) \<and>
     take (nat encLength) (drop (nat encOff) (cipher (concat [example_part]))) =
       cipher (drop K (take K' (concat [example_part]))) \<and>
     take (nat 2) (drop (nat skipLen) (plain (drop K (take K' (concat [example_part]))))) = ''bc''"
proof -
  let ?h = "\<lparr>IsSuffixLength = False, Start = 1, End = 2\<rparr>"
  have "encrypted_as example_encrypted [example_part]"
    by (simp add: encrypted_as_def IsEncrypted_def IsMultiPart_def example_part_def example_encrypted_def)
  moreover have "wf_range ?h" "GetOffsetLength (Some ?h) (int (length (plain (concat [example_part])))) = Inr (1, 2)"
    by (simp_all add: wf_range_def GetOffsetLength_def GetLength_def example_part_def)
  moreover have bc: "take (nat 2) (drop (nat 1) (plain (concat [example_part]))) = ''bc''"
    by (simp add: example_part_def)
  ultimately show ?thesis
    using encrypted_range_covers [OF dare.dare_sizes_axioms, of example_encrypted "[example_part]" ?h 1 2]
    unfolding bc by (meson zero_less_numeral)
qed

end
