(* ===== verification/Kinetic_Read.thy ===== *)
theory Kinetic_Read
  imports Kinetic_Multipart Object_Ranges
begin

text \<open>
  Streaming an object to a client: \<^verbatim>\<open>Client.Read\<close> of \<^verbatim>\<open>cmd/client.go\<close>, the readers of
  \<^verbatim>\<open>cmd/object-api-utils.go\<close> (\<^verbatim>\<open>NewGetObjectReader\<close>, \<^verbatim>\<open>NewGetObjectReaderFromReader\<close>, \<^verbatim>\<open>Read\<close>, \<^verbatim>\<open>Close\<close>),
  \<^verbatim>\<open>GetObjectNInfo\<close> of \<^verbatim>\<open>cmd/kinetic.go\<close>, and the copy loops of the handlers that serve an object.

  A reader is given a buffer and returns it with its new contents, the number of bytes and an
  error, as a Go reader fills the slice it is passed. The clean-up functions that the source collects
  as closures are values of \<open>cleanup\<close>. Decompression and decryption are parameters (\<open>codec\<close>): how
  the decoding reader is opened and read; so is the writer, which may fail at any write.

  The pool's client keeps the position of a download: \<^verbatim>\<open>NextPartNumber\<close> and \<^verbatim>\<open>DataOffset\<close>. The lemmas
  follow it through a download.
\<close>

section \<open>Reading from the drive\<close>

definition Opts0 :: Opts where
  "Opts0 = \<lparr>op_ClusterVersion = 0, op_Timeout = 0, op_Priority = 0, op_BatchID = 0, op_NewVersion = [],
            op_Force = False, op_DbVersion = [], op_Tag = [], op_Algorithm = 0, op_Synchronization = 0,
            op_MetaDataOnly = False\<rparr>"

definition client :: "nat \<Rightarrow> ('d, 'm) world \<Rightarrow> Client" where
  "client kc w = kp_kcs (w_pool w) ! kc"

definition modify_client :: "nat \<Rightarrow> (Client \<Rightarrow> Client) \<Rightarrow> ('d, 'm, unit) go" where
  "modify_client kc f = modify (\<lambda>w. w\<lparr>w_pool := set_client kc f (w_pool w)\<rparr>)"

text \<open>\<^verbatim>\<open>copy(value, bs)\<close>.\<close>

definition copy_into :: "bytes \<Rightarrow> bytes \<Rightarrow> bytes" where
  "copy_into value bs = take (length value) bs @ drop (length bs) value"

type_synonym read_result = "bytes \<times> int \<times> error option"

text \<open>The statements after a successful \<^verbatim>\<open>CGet\<close>: a view of at most \<^verbatim>\<open>1 << 30\<close> bytes is copied.\<close>

definition copy_value :: "('d, 'm) env \<Rightarrow> bytes \<Rightarrow> blob \<Rightarrow> read_result" where
  "copy_value E value v =
     (if blob_size E v > 1073741824 then (value, 0, Some slicePanic)
      else (copy_into value (blob_bytes E v), int (blob_size E v), None))"

fun Read_parts ::
  "('d, 'm) env \<Rightarrow> nat \<Rightarrow> string \<Rightarrow> nat \<Rightarrow> nat \<Rightarrow> ObjectPartInfo list \<Rightarrow> bytes \<Rightarrow> error option \<Rightarrow>
   ('d, 'm, read_result) go" where
  "Read_parts E kc partKeyPrefix nparts i [] value err = State_Monad.return (value, 0, err)"
| "Read_parts E kc partKeyPrefix nparts i (part # parts) value err =
     (if length value = 0 then State_Monad.return (value, 0, err)
      else do {
        c \<leftarrow> gets (client kc);
        if int i \<noteq> cl_NextPartNumber c then
          Read_parts E kc partKeyPrefix nparts (Suc i) parts value err
        else do {
          let key = partKeyPrefix @ ''.'' @ encodePartFile (op_Number part) (op_ETag part) (op_ActualSize part);
          let partReqSize = (if int (length value) > op_Size part then op_Size part else int (length value));
          (cvalue, cerr) \<leftarrow> kc_CGet E key (op_Size part) Opts0 (cl_DataOffset c) partReqSize;
          case (cerr, cvalue) of
            (Some e, _) \<Rightarrow> State_Monad.return (value, 0, Some e)
          | (None, None) \<Rightarrow> Read_parts E kc partKeyPrefix nparts (Suc i) parts value err
          | (None, Some v) \<Rightarrow>
              if snd (snd (copy_value E value v)) \<noteq> None then State_Monad.return (copy_value E value v)
              else do {
                modify_client kc (\<lambda>c. c\<lparr>cl_NextPartNumber :=
                  (if i = nparts - 1 then 0 else cl_NextPartNumber c + 1)\<rparr>);
                State_Monad.return (copy_value E value v)
              }
        }
      })"

definition Client_Read :: "('d, 'm) env \<Rightarrow> nat \<Rightarrow> bytes \<Rightarrow> ('d, 'm, read_result) go" where
  "Client_Read E kc value =
     do {
       c \<leftarrow> gets (client kc);
       (cvalue, err) \<leftarrow> kc_CGetMeta E (cl_Key c) Opts0;
       if err \<noteq> None then State_Monad.return (value, 0, Some (Storage errFileNotFound))
       else if (case cvalue of Some v \<Rightarrow> \<not> fits16 E v | None \<Rightarrow> False) then
         State_Monad.return (value, 0, Some slicePanic)
       else (let (fsMeta, err) = (case cvalue of
                   Some v \<Rightarrow> json_Unmarshal (e_json E) v fsMetaV1_0
                 | None \<Rightarrow> (fsMetaV1_0, None)) in
         do {
           modify_client kc (\<lambda>c. c\<lparr>cl_LastPartNumber := int (length (fm_Parts fsMeta))\<rparr>);
           if length (fm_Parts fsMeta) = 0 then do {
             let objSize = fst (Atoi (mget (fm_Meta fsMeta) ''size''));
             (cvalue, err) \<leftarrow> kc_CGet E (cl_Key c) objSize Opts0 (cl_DataOffset c) (int (length value));
             State_Monad.return (case (err, cvalue) of
                 (Some e, _) \<Rightarrow> (value, 0, Some e)
               | (None, Some v) \<Rightarrow> copy_value E value v
               | (None, None) \<Rightarrow> (value, 0, None))
           } else
             Read_parts E kc (cl_Key c @ ''.'' @ mget (fm_Meta fsMeta) ''version'') (length (fm_Parts fsMeta)) 0
               (fm_Parts fsMeta) value err
         })
     }"

section \<open>Readers and their clean-up\<close>

datatype cleanup =
    NoCleanup | NsUnlock string string | NsRUnlock string string | RwPoolClose string
  | ReleaseConn nat | ReadAheadClose

definition run_cleanup :: "('d, 'm) env \<Rightarrow> cleanup \<Rightarrow> ('d, 'm, unit) go" where
  "run_cleanup E c = (case c of
      NoCleanup \<Rightarrow> State_Monad.return ()
    | NsUnlock b x \<Rightarrow> ns_Unlock E b x
    | NsRUnlock b x \<Rightarrow> ns_RUnlock E b x
    | RwPoolClose path \<Rightarrow> modify (\<lambda>w. w\<lparr>w_readers := snd (fsIOPool_Close path (w_readers w))\<rparr>)
    | ReleaseConn i \<Rightarrow> releaseConn i
    | ReadAheadClose \<Rightarrow> State_Monad.return ())"

fun run_cleanups :: "('d, 'm) env \<Rightarrow> cleanup list \<Rightarrow> ('d, 'm, unit) go" where
  "run_cleanups E [] = State_Monad.return ()"
| "run_cleanups E (c # cs) = do { run_cleanups E cs; run_cleanup E c }"

text \<open>\<open>Limited kc n\<close> is \<^verbatim>\<open>io.LimitReader(kc, n)\<close> on a connection of the pool, \<open>Decoding x n\<close> a decoding
  reader of a library with the limit on its output.\<close>

datatype 'x pReader = BytesBuffer | Limited nat int | Decoding 'x int

record 'x GetObjectReader =
  gr_ObjInfo :: ObjectInfo
  gr_pReader :: "'x pReader"
  gr_cleanUpFns :: "cleanup list"
  gr_once :: bool

type_synonym header = "string \<Rightarrow> string"
type_synonym precond = "(ObjectInfo \<Rightarrow> string \<Rightarrow> bool) option"

text \<open>\<open>s2_Open kc n skip\<close> is \<^verbatim>\<open>s2.NewReader\<close> on the limited reader followed by \<^verbatim>\<open>Skip(skip)\<close>;
  \<open>DecryptBlocks\<close> is \<^verbatim>\<open>DecryptBlocksRequestR\<close> and the skipping reader on top of it.\<close>

record ('d, 'm, 'x) codec =
  s2_Open :: "nat \<Rightarrow> int \<Rightarrow> int \<Rightarrow> ('d, 'm, error + 'x) go"
  DecryptBlocks ::
    "nat \<Rightarrow> int \<Rightarrow> header \<Rightarrow> int \<Rightarrow> int \<Rightarrow> int \<Rightarrow> nat \<Rightarrow> ObjectInfo \<Rightarrow> bool \<Rightarrow> int \<Rightarrow> ('d, 'm, error + 'x) go"
  getDecryptedETag :: "header \<Rightarrow> ObjectInfo \<Rightarrow> bool \<Rightarrow> string"
  x_Read :: "'x \<Rightarrow> bytes \<Rightarrow> ('d, 'm, 'x \<times> bytes \<times> int \<times> error option) go"
  x_sio :: sio_ops

text \<open>What every constructor does when the precondition of a copy fails, and otherwise.\<close>

definition assemble ::
  "('d, 'm) env \<Rightarrow> ObjectInfo \<Rightarrow> string \<Rightarrow> precond \<Rightarrow> cleanup list \<Rightarrow> 'x pReader \<Rightarrow>
   ('d, 'm, error + 'x GetObjectReader) go" where
  "assemble E oi etag pcfn cFns r =
     (if (case pcfn of Some f \<Rightarrow> f oi etag | None \<Rightarrow> False) then do {
        run_cleanups E cFns;
        State_Monad.return (Inl (Request PreConditionFailed))
      } else State_Monad.return
        (Inr \<lparr>gr_ObjInfo = oi, gr_pReader = r, gr_cleanUpFns = cFns, gr_once = False\<rparr>))"

definition NewGetObjectReaderFromReader ::
  "('d, 'm) env \<Rightarrow> 'x pReader \<Rightarrow> ObjectInfo \<Rightarrow> precond \<Rightarrow> cleanup list \<Rightarrow>
   ('d, 'm, error + 'x GetObjectReader) go" where
  "NewGetObjectReaderFromReader E r oi pcfn cleanupFns = assemble E oi [] pcfn cleanupFns r"

text \<open>\<^verbatim>\<open>ObjReaderFn\<close>: the input reader is the limited reader on a connection.\<close>

type_synonym ('d, 'm, 'x) ObjReaderFn =
  "nat \<Rightarrow> int \<Rightarrow> header \<Rightarrow> precond \<Rightarrow> cleanup list \<Rightarrow> ('d, 'm, error + 'x GetObjectReader) go"

definition decrypting_fn ::
  "('d, 'm) env \<Rightarrow> ('d, 'm, 'x) codec \<Rightarrow> ObjectInfo \<Rightarrow> cleanup list \<Rightarrow> int \<Rightarrow> int \<Rightarrow> int \<Rightarrow> int \<Rightarrow> nat \<Rightarrow> int \<Rightarrow>
   ('d, 'm, 'x) ObjReaderFn" where
  "decrypting_fn E X oi cleanUpFns off len skipLen seqNumber partStart decRangeLength kc n h pcfn cFns =
     (let copySource = (h ''X-Amz-Copy-Source-Server-Side-Encryption-Customer-Algorithm'' \<noteq> []);
          cFns = cleanUpFns @ cFns
      in do {
        r \<leftarrow> DecryptBlocks X kc n h off len seqNumber partStart oi copySource skipLen;
        case r of
          Inl e \<Rightarrow> do { run_cleanups E cFns; State_Monad.return (Inl e) }
        | Inr x \<Rightarrow>
            assemble E (oi\<lparr>oi_ETag := getDecryptedETag X h oi copySource\<rparr>) (oi_ETag oi) pcfn cFns
              (Decoding x decRangeLength)
      })"

abbreviation (input) compReadAheadSize :: int where "compReadAheadSize \<equiv> 104857600"

text \<open>The compressed case does not run the clean-up functions when skipping fails.\<close>

definition decompressing_fn ::
  "('d, 'm) env \<Rightarrow> ('d, 'm, 'x) codec \<Rightarrow> ObjectInfo \<Rightarrow> cleanup list \<Rightarrow> int \<Rightarrow> int \<Rightarrow> ('d, 'm, 'x) ObjReaderFn" where
  "decompressing_fn E X oi cleanUpFns decOff decLength kc n h pcfn cFns =
     (let cFns = cleanUpFns @ cFns in
      if (case pcfn of Some f \<Rightarrow> f oi [] | None \<Rightarrow> False) then do {
        run_cleanups E cFns;
        State_Monad.return (Inl (Request PreConditionFailed))
      } else do {
        r \<leftarrow> s2_Open X kc n decOff;
        case r of
          Inl e \<Rightarrow> State_Monad.return (Inl e)
        | Inr x \<Rightarrow>
            State_Monad.return (Inr \<lparr>gr_ObjInfo = oi\<lparr>oi_Size := decLength\<rparr>, gr_pReader = Decoding x decLength,
              gr_cleanUpFns = cFns @ (if decLength > compReadAheadSize then [ReadAheadClose] else []),
              gr_once = False\<rparr>)
      })"

definition plain_fn :: "('d, 'm) env \<Rightarrow> ObjectInfo \<Rightarrow> cleanup list \<Rightarrow> ('d, 'm, 'x) ObjReaderFn" where
  "plain_fn E oi cleanUpFns kc n h pcfn cFns = assemble E oi [] pcfn (cleanUpFns @ cFns) (Limited kc n)"

text \<open>The switch of \<^verbatim>\<open>NewGetObjectReader\<close>: the constructor of the reader, the offset and the length to read.\<close>

definition reader_plan ::
  "('d, 'm) env \<Rightarrow> ('d, 'm, 'x) codec \<Rightarrow> HTTPRangeSpec option \<Rightarrow> ObjectInfo \<Rightarrow> cleanup list \<Rightarrow>
   error + (('d, 'm, 'x) ObjReaderFn \<times> int \<times> int)" where
  "reader_plan E X rs oi cleanUpFns =
     (case IsCompressedOK oi of
        (_, Some e) \<Rightarrow> Inl e
      | (isCompressed, None) \<Rightarrow>
          if IsEncrypted (oi_UserDefined oi) then
            (case GetDecryptedRange (x_sio X) False oi rs of
               Inl e \<Rightarrow> Inl e
             | Inr (off, len, skipLen, seqNumber, partStart) \<Rightarrow>
                 (case DecryptedSize (x_sio X) False oi of
                    Inl e \<Rightarrow> Inl e
                  | Inr decSize \<Rightarrow>
                      (case GetLength rs decSize of
                         Inl e \<Rightarrow> Inl e
                       | Inr decRangeLength \<Rightarrow>
                           Inr (decrypting_fn E X oi cleanUpFns off len skipLen seqNumber partStart decRangeLength,
                                off, len))))
          else if isCompressed then
            (let actualSize = GetActualSize oi in
             if actualSize < 0 then Inl (Storage errInvalidDecompressedSize)
             else case rs of
                 None \<Rightarrow> Inr (decompressing_fn E X oi cleanUpFns 0 actualSize, 0, oi_Size oi)
               | Some _ \<Rightarrow>
                   (case GetOffsetLength rs actualSize of
                      Inl e \<Rightarrow> Inl e
                    | Inr (off, len) \<Rightarrow>
                        (let (off, decOff) = getCompressedOffsets oi off;
                             decLength = (if len < 0 then actualSize - decOff else len)
                         in if decOff > actualSize \<or> decOff + decLength > actualSize
                            then Inl (Storage errInvalidRange)
                            else Inr (decompressing_fn E X oi cleanUpFns decOff decLength, off, oi_Size oi - off))))
          else
            (case GetOffsetLength rs (oi_Size oi) of
               Inl e \<Rightarrow> Inl e
             | Inr (off, len) \<Rightarrow> Inr (plain_fn E oi cleanUpFns, off, len)))"

definition NewGetObjectReader ::
  "('d, 'm) env \<Rightarrow> ('d, 'm, 'x) codec \<Rightarrow> HTTPRangeSpec option \<Rightarrow> ObjectInfo \<Rightarrow> cleanup list \<Rightarrow>
   ('d, 'm, error + (('d, 'm, 'x) ObjReaderFn \<times> int \<times> int)) go" where
  "NewGetObjectReader E X rs oi cleanUpFns =
     (case reader_plan E X rs oi cleanUpFns of
        Inl e \<Rightarrow> do { run_cleanups E cleanUpFns; State_Monad.return (Inl e) }
      | Inr plan \<Rightarrow> State_Monad.return (Inr plan))"

definition GetObjectReader_Close :: "('d, 'm) env \<Rightarrow> 'x GetObjectReader \<Rightarrow> ('d, 'm, 'x GetObjectReader) go" where
  "GetObjectReader_Close E g =
     (if gr_once g then State_Monad.return g
      else do { run_cleanups E (gr_cleanUpFns g); State_Monad.return (g\<lparr>gr_once := True\<rparr>) })"

text \<open>\<^verbatim>\<open>Read\<close> of the limited readers: the limit cuts the buffer, and is lowered by what was read.\<close>

definition pReader_Read ::
  "('d, 'm) env \<Rightarrow> ('d, 'm, 'x) codec \<Rightarrow> 'x pReader \<Rightarrow> bytes \<Rightarrow> ('d, 'm, 'x pReader \<times> read_result) go" where
  "pReader_Read E X r p =
     (case r of
        BytesBuffer \<Rightarrow>
          State_Monad.return (r, p, 0, if length p = 0 then None else Some (Lib ErrEOF))
      | Limited kc n \<Rightarrow>
          if n \<le> 0 then State_Monad.return (r, p, 0, Some (Lib ErrEOF))
          else do {
            let q = take (nat n) p;
            (q, k, err) \<leftarrow> Client_Read E kc q;
            State_Monad.return (Limited kc (n - k), q @ drop (nat n) p, k, err)
          }
      | Decoding x n \<Rightarrow>
          if n \<le> 0 then State_Monad.return (r, p, 0, Some (Lib ErrEOF))
          else do {
            let q = take (nat n) p;
            (x, q, k, err) \<leftarrow> x_Read X x q;
            State_Monad.return (Decoding x (n - k), q @ drop (nat n) p, k, err)
          })"

definition is_panic :: "error option \<Rightarrow> bool" where
  "is_panic e = (case e of Some (GoPanic _) \<Rightarrow> True | _ \<Rightarrow> False)"

definition GetObjectReader_Read ::
  "('d, 'm) env \<Rightarrow> ('d, 'm, 'x) codec \<Rightarrow> 'x GetObjectReader \<Rightarrow> bytes \<Rightarrow>
   ('d, 'm, 'x GetObjectReader \<times> read_result) go" where
  "GetObjectReader_Read E X g p =
     do {
       (r, p, n, err) \<leftarrow> pReader_Read E X (gr_pReader g) p;
       let g = g\<lparr>gr_pReader := r\<rparr>;
       if err \<noteq> None \<and> \<not> is_panic err then do {
         g \<leftarrow> GetObjectReader_Close E g;
         State_Monad.return (g, p, n, err)
       } else State_Monad.return (g, p, n, err)
     }"

section \<open>Opening an object for reading\<close>

datatype LockType = noLock | readLock | writeLock

definition fsMetaPath :: "string \<Rightarrow> string \<Rightarrow> string" where
  "fsMetaPath bucket object = pathJoin [[], ''.minio.sys'', ''buckets'', bucket, object, metaJSONFile]"

definition take_lock ::
  "('d, 'm) env \<Rightarrow> LockType \<Rightarrow> string \<Rightarrow> string \<Rightarrow> ('d, 'm, error + cleanup) go" where
  "take_lock E lockType bucket object =
     (case lockType of
        noLock \<Rightarrow> State_Monad.return (Inr NoCleanup)
      | writeLock \<Rightarrow> do {
          err \<leftarrow> ns_GetLock E bucket object;
          State_Monad.return (case err of Some e \<Rightarrow> Inl e | None \<Rightarrow> Inr (NsUnlock bucket object))
        }
      | readLock \<Rightarrow> do {
          err \<leftarrow> ns_GetRLock E bucket object;
          State_Monad.return (case err of Some e \<Rightarrow> Inl e | None \<Rightarrow> Inr (NsRUnlock bucket object))
        })"

text \<open>The file lock: the clean-up function on success, and when there is no such file.\<close>

definition take_rwPool ::
  "('d, 'm) env \<Rightarrow> LockType \<Rightarrow> string \<Rightarrow> string \<Rightarrow> ('d, 'm, error + cleanup) go" where
  "take_rwPool E lockType bucket object =
     (if bucket \<noteq> ''.minio.sys'' \<and> lockType \<noteq> noLock then
        State (\<lambda>w. let (err, m) = fsIOPool_Open (e_open E) (fsMetaPath bucket object) (w_readers w)
                   in (if err \<noteq> None \<and> err \<noteq> Some (Storage errFileNotFound) then Inl (the err)
                       else Inr (RwPoolClose (fsMetaPath bucket object)), w\<lparr>w_readers := m\<rparr>))
      else State_Monad.return (Inr NoCleanup))"

text \<open>From the point where the locks are held: the branch that refuses the range returns without calling
  the clean-up functions.\<close>

definition open_reader ::
  "('d, 'm) env \<Rightarrow> ('d, 'm, 'x) codec \<Rightarrow> string \<Rightarrow> string \<Rightarrow> HTTPRangeSpec option \<Rightarrow> header \<Rightarrow> precond \<Rightarrow>
   ObjectInfo \<Rightarrow> cleanup list \<Rightarrow> ('d, 'm, error + 'x GetObjectReader) go" where
  "open_reader E X bucket object rs h pcfn objInfo fns =
     do {
       r \<leftarrow> NewGetObjectReader E X rs objInfo fns;
       case r of
         Inl e \<Rightarrow> State_Monad.return (Inl e)
       | Inr (objReaderFn, off, len) \<Rightarrow>
           if off > oi_Size objInfo \<or> off + len > oi_Size objInfo then
             State_Monad.return (Inl (Request (InvalidRange off len (oi_Size objInfo))))
           else do {
             kc \<leftarrow> getConn;
             modify_client kc (\<lambda>c. c\<lparr>cl_Key := bucket @ ''/'' @ object, cl_DataOffset := off\<rparr>);
             objReaderFn kc len h pcfn [ReleaseConn kc]
           }
     }"

definition GetObjectNInfo ::
  "('d, 'm) env \<Rightarrow> ('d, 'm, 'x) codec \<Rightarrow> string \<Rightarrow> string \<Rightarrow> HTTPRangeSpec option \<Rightarrow> header \<Rightarrow> LockType \<Rightarrow> precond \<Rightarrow>
   ('d, 'm, error + 'x GetObjectReader) go" where
  "GetObjectNInfo E X bucket object rs h lockType pcfn =
     (case checkGetObjArgs (e_valid_bucket E) bucket object of
        Some e \<Rightarrow> State_Monad.return (Inl e)
      | None \<Rightarrow> do {
          activeIO 1;
          l \<leftarrow> take_lock E lockType bucket object;
          gr \<leftarrow> (case l of
              Inl e \<Rightarrow> State_Monad.return (Inl e)
            | Inr nsUnlocker \<Rightarrow> do {
                info \<leftarrow> getObjectInfo E bucket object;
                case info of
                  Inl e \<Rightarrow>
                    if is_panic (Some e) then State_Monad.return (Inl e)
                    else do {
                      run_cleanup E nsUnlocker;
                      State_Monad.return (Inl (the (toObjectErr (Some e) [bucket, object])))
                    }
                | Inr objInfo \<Rightarrow>
                    if HasSuffix object SlashSeparator then
                      NewGetObjectReaderFromReader E BytesBuffer objInfo pcfn [nsUnlocker]
                    else do {
                      rw \<leftarrow> take_rwPool E lockType bucket object;
                      case rw of
                        Inl e \<Rightarrow> do {
                          run_cleanup E nsUnlocker;
                          State_Monad.return (Inl (the (toObjectErr (Some e) [bucket, object])))
                        }
                      | Inr rwPoolUnlocker \<Rightarrow>
                          open_reader E X bucket object rs h pcfn objInfo [nsUnlocker, rwPoolUnlocker]
                    }
              });
          activeIO (- 1);
          State_Monad.return gr
        })"

section \<open>Serving an object\<close>

text \<open>\<^verbatim>\<open>io.CopyBuffer\<close> from the object reader to the response; \<open>werr n\<close> is the error of the \<open>n\<close>-th write.
  The result is the reader, the chunks written and the error; \<open>None\<close> is a loop that has not ended.\<close>

fun copyBuffer ::
  "nat \<Rightarrow> ('d, 'm) env \<Rightarrow> ('d, 'm, 'x) codec \<Rightarrow> (nat \<Rightarrow> error option) \<Rightarrow> 'x GetObjectReader \<Rightarrow> bytes \<Rightarrow> bytes list \<Rightarrow>
   ('d, 'm, ('x GetObjectReader \<times> bytes list \<times> error option) option) go" where
  "copyBuffer 0 E X werr g buf out = State_Monad.return None"
| "copyBuffer (Suc fuel) E X werr g buf out =
     do {
       (g, buf, nr, er) \<leftarrow> GetObjectReader_Read E X g buf;
       if is_panic er then State_Monad.return (Some (g, out, er))
       else if nr > int (length buf) then State_Monad.return (Some (g, out, Some slicePanic))
       else (let ew = (if nr > 0 then werr (length out) else None);
                 out = (if nr > 0 \<and> ew = None then out @ [take (nat nr) buf] else out)
         in if ew \<noteq> None then State_Monad.return (Some (g, out, ew))
            else if er \<noteq> None then
              State_Monad.return (Some (g, out, if er = Some (Lib ErrEOF) then None else er))
            else copyBuffer fuel E X werr g buf out)
     }"

text \<open>The part of a handler that moves bytes: \<^verbatim>\<open>GetObjectNInfo\<close>, the copy and the deferred \<^verbatim>\<open>Close\<close>, for a request
  that passes the authorisation, the conditional headers and the header fields handled in between. The
  result is the error and the bytes the client received.\<close>

definition serve_object ::
  "(int \<Rightarrow> int) \<Rightarrow> nat \<Rightarrow> ('d, 'm) env \<Rightarrow> ('d, 'm, 'x) codec \<Rightarrow> string \<Rightarrow> string \<Rightarrow> HTTPRangeSpec option \<Rightarrow> header \<Rightarrow>
   (nat \<Rightarrow> error option) \<Rightarrow> ('d, 'm, (error option \<times> bytes) option) go" where
  "serve_object bufSize fuel E X bucket object rs h werr =
     do {
       r \<leftarrow> GetObjectNInfo E X bucket object rs h readLock None;
       case r of
         Inl e \<Rightarrow> State_Monad.return (Some (Some e, []))
       | Inr g \<Rightarrow>
           if bufSize (oi_Size (gr_ObjInfo g)) < 0 then do {
             GetObjectReader_Close E g;
             State_Monad.return (Some (Some (GoPanic ''makeslice: len out of range''), []))
           } else do {
             res \<leftarrow> copyBuffer fuel E X werr g
                      (replicate (nat (bufSize (oi_Size (gr_ObjInfo g)))) CHR 0x00) [];
             case res of
               None \<Rightarrow> State_Monad.return None
             | Some (g, out, err) \<Rightarrow> do {
                 GetObjectReader_Close E g;
                 State_Monad.return (Some (err, concat out))
               }
           }
     }"

text \<open>The S3 handler copies with a buffer that is one byte larger than the object, the web handler with the
  32 KiB of \<^verbatim>\<open>io.Copy\<close> and without a range.\<close>

definition GetObjectHandler where
  "GetObjectHandler = serve_object (\<lambda>sz. sz + 1)"

definition Download where
  "Download fuel E X bucket object h werr = serve_object (\<lambda>sz. 32768) fuel E X bucket object None h werr"

end
