(* ===== verification/Kinetic_Download.thy ===== *)
theory Kinetic_Download
  imports Kinetic_Read Object_Store
begin

text \<open>
  What a client receives: downloads of objects stored in one piece and in parts, by range and as a
  whole, through the S3 handler and through the web handler.

  The state of a download lives in the client of the connection that \<^verbatim>\<open>GetKineticConnection\<close> hands
  out, and survives it. The lemmas follow that client (\<open>with_client\<close>) through \<^verbatim>\<open>Client.Read\<close> and the
  copy loop.
\<close>

section \<open>The client of a connection\<close>

definition with_client :: "nat \<Rightarrow> Client \<Rightarrow> ('d, 'm) world \<Rightarrow> ('d, 'm) world" where
  "with_client kc c w = w\<lparr>w_pool := set_client kc (\<lambda>_. c) (w_pool w)\<rparr>"

definition connected :: "nat \<Rightarrow> ('d, 'm) world \<Rightarrow> bool" where
  "connected kc w = (kc < length (kp_kcs (w_pool w)))"

lemma with_client_simps [simp]:
  "w_drive (with_client kc c w) = w_drive w" "w_skinny (with_client kc c w) = w_skinny w"
  "w_ns (with_client kc c w) = w_ns w" "w_readers (with_client kc c w) = w_readers w"
  "with_client kc c' (with_client kc c w) = with_client kc c' w"
  "connected kc (with_client kc c w) = connected kc w"
  by (simp_all add: with_client_def set_client_def connected_def)

lemma client_with_client [simp]: "connected kc w \<Longrightarrow> client kc (with_client kc c w) = c"
  by (simp add: client_def with_client_def set_client_def connected_def)

lemma run_modify_client [run]:
  "connected kc w \<Longrightarrow> run_state (modify_client kc f) (with_client kc c w) = ((), with_client kc (f c) w)"
  by (simp add: modify_client_def run with_client_def set_client_def connected_def)

lemma Opts0_data [simp]: "\<not> op_MetaDataOnly Opts0"
  by (simp add: Opts0_def)

lemma copy_into_same [simp]: "length bs = length value \<Longrightarrow> copy_into value bs = bs"
  by (simp add: copy_into_def)

lemma copy_value_Raw:
  "length bs \<le> 1073741824 \<Longrightarrow> copy_value E value (Raw bs) = (copy_into value bs, int (length bs), None)"
  by (simp add: copy_value_def)

section \<open>Reading through a client\<close>

text \<open>An object stored in one piece, as \<^verbatim>\<open>putObject\<close> leaves it.\<close>

definition whole_at :: "('d, 'm) env \<Rightarrow> kstore \<Rightarrow> string \<Rightarrow> fsMetaV1 \<Rightarrow> bytes \<Rightarrow> bool" where
  "whole_at E s k m bs =
     (s (C_CString k) = Some (Json m, Raw bs) \<and> fits16 E (Json m) \<and> fm_Parts m = [] \<and>
      fst (ParseInt (mget (fm_Meta (decoded m)) ''size'')) = int (length bs) \<and> int (length bs) \<le> 1073741824)"

text \<open>An object stored in parts, as \<^verbatim>\<open>CompleteMultipartUpload\<close> leaves it: the bodies of the parts are the
  values of the keys its part list stands for.\<close>

definition part_at :: "kstore \<Rightarrow> string \<Rightarrow> ObjectPartInfo \<Rightarrow> bytes \<Rightarrow> bool" where
  "part_at s pre p body =
     ((\<exists>pm. s (C_CString (pre @ ''.'' @ encodePartFile (op_Number p) (op_ETag p) (op_ActualSize p))) =
          Some (pm, Raw body)) \<and>
      op_Size p = int (length body) \<and> body \<noteq> [] \<and> int (length body) \<le> 1073741824)"

definition parts_at :: "('d, 'm) env \<Rightarrow> kstore \<Rightarrow> string \<Rightarrow> fsMetaV1 \<Rightarrow> bytes list \<Rightarrow> bool" where
  "parts_at E s k m bodies =
     ((\<exists>v. s (C_CString k) = Some (Json m, v)) \<and> fits16 E (Json m) \<and> fm_Parts m \<noteq> [] \<and>
      list_all2 (part_at s (k @ ''.'' @ mget (fm_Meta (decoded m)) ''version'')) (fm_Parts m) bodies \<and>
      fst (ParseInt (mget (fm_Meta (decoded m)) ''size'')) = int (length (concat bodies)))"

context kinetic_layer
begin

lemma CGet_slice:
  assumes "store w (C_CString k) = Some (m, Raw bs)" "int (length bs) \<le> 1073741824"
    "0 \<le> off" "0 < n" "off + n \<le> int (length bs)"
  shows "CGet (e_ops E) k (int (length bs)) Opts0 off n (w_drive w) = (Some (Raw (take (nat n) (drop (nat off) bs))), None)"
proof (cases "off = 0 \<and> n = int (length bs)")
  case True
  then show ?thesis
    using CGet_whole [OF assms(1), of Opts0 n "int (length bs)"] assms(4) by auto
next
  case False
  then show ?thesis
    using CGet_part [OF assms(1), of Opts0 off n "int (length bs)"] assms(2-5) by auto
qed

lemma Client_Read_whole:
  assumes "connected kc w" "whole_at E (store w) (cl_Key c) m bs"
    "0 \<le> cl_DataOffset c" "value \<noteq> []" "cl_DataOffset c + int (length value) \<le> int (length bs)"
  shows "run_state (Client_Read E kc value) (with_client kc c w) =
     ((take (length value) (drop (nat (cl_DataOffset c)) bs), int (length value), None),
      with_client kc (c\<lparr>cl_LastPartNumber := 0\<rparr>) w)"
proof -
  let ?off = "cl_DataOffset c" and ?k = "cl_Key c" and ?n = "length value"
  have st: "store w (C_CString ?k) = Some (Json m, Raw bs)" and f: "fits16 E (Json m)"
    and ps: "fm_Parts m = []" and sz: "fst (Atoi (mget (fm_Meta (decoded m)) ''size'')) = int (length bs)"
    and b: "int (length bs) \<le> 1073741824"
    using assms(2) by (auto simp: whole_at_def Atoi_def)
  have get: "CGet (e_ops E) ?k (int (length bs)) Opts0 ?off (int ?n) (w_drive w) =
     (Some (Raw (take ?n (drop (nat ?off) bs))), None)"
    using CGet_slice [OF st b assms(3), of "int ?n"] assms(4,5) by simp
  have l: "length (take ?n (drop (nat ?off) bs)) = ?n" using assms(3,5) by simp
  have "run_state (kc_CGetMeta E ?k Opts0) (with_client kc c w) = ((Some (Json m), None), with_client kc c w)"
    using CGetMeta_hit [OF st] by (simp add: kc_CGetMeta_def run)
  then show ?thesis
    using assms(1) f ps get l b
    by (simp add: Client_Read_def run kc_CGet_def json_Unmarshal_def decoded_def [symmetric] sz copy_value_Raw Let_def)
qed

text \<open>The loop over the parts acts on the part the client's counter names.\<close>

lemma Read_parts_at:
  assumes "connected kc w" "value \<noteq> []" "cl_NextPartNumber c = int (i + j)" "j < length ps"
    "part_at (store w) pre (ps ! j) body"
    "0 \<le> cl_DataOffset c" "cl_DataOffset c + int (min (length value) (length body)) \<le> int (length body)"
  shows "run_state (Read_parts E kc pre n i ps value err) (with_client kc c w) =
     (let d = take (min (length value) (length body)) (drop (nat (cl_DataOffset c)) body)
      in ((copy_into value d, int (length d), None),
          with_client kc (c\<lparr>cl_NextPartNumber := (if i + j = n - 1 then 0 else int (i + j) + 1)\<rparr>) w))"
  using assms(3-5)
proof (induction ps arbitrary: i j)
  case (Cons p ps)
  show ?case
  proof (cases j)
    case 0
    let ?r = "min (length value) (length body)" and ?off = "cl_DataOffset c"
    obtain pm where st: "store w (C_CString (pre @ ''.'' @ encodePartFile (op_Number p) (op_ETag p) (op_ActualSize p))) =
        Some (pm, Raw body)" and sz: "op_Size p = int (length body)" and b: "body \<noteq> []" "int (length body) \<le> 1073741824"
      using Cons.prems(3) 0 by (auto simp: part_at_def)
    have req: "(if int (length value) > op_Size p then op_Size p else int (length value)) = int ?r"
      using sz by (simp add: min_def)
    have "0 < int ?r" using assms(2) b(1) by simp
    from CGet_slice [OF st b(2) assms(6) this assms(7)] sz req
    have get: "CGet (e_ops E) (pre @ ''.'' @ encodePartFile (op_Number p) (op_ETag p) (op_ActualSize p)) (op_Size p) Opts0
        ?off (if int (length value) > op_Size p then op_Size p else int (length value)) (w_drive w) =
       (Some (Raw (take ?r (drop (nat ?off) body))), None)" by simp
    have "int (length (take ?r (drop (nat ?off) body))) \<le> 1073741824" using b(2) by simp
    then have "copy_value E value (Raw (take ?r (drop (nat ?off) body))) =
       (copy_into value (take ?r (drop (nat ?off) body)), int (length (take ?r (drop (nat ?off) body))), None)"
      by (intro copy_value_Raw) linarith
    with get 0 Cons.prems(1) assms(1,2) show ?thesis
      by (simp add: run kc_CGet_def Let_def del: length_take length_drop cong: if_cong split del: if_split)
  next
    case (Suc j')
    then have "int i \<noteq> cl_NextPartNumber c" using Cons.prems(1) by simp
    then show ?thesis
      using Cons.IH [of "Suc i" j'] Cons.prems Suc assms(1,2) by (simp add: run)
  qed
qed simp

lemma Read_parts_none:
  assumes "connected kc w" "\<forall>j < length ps. cl_NextPartNumber c \<noteq> int (i + j)"
  shows "run_state (Read_parts E kc pre n i ps value err) (with_client kc c w) = ((value, 0, err), with_client kc c w)"
  using assms(2)
proof (induction ps arbitrary: i)
  case (Cons p ps)
  have "int i \<noteq> cl_NextPartNumber c" using Cons.prems [rule_format, of 0] by auto
  moreover have "\<forall>j < length ps. cl_NextPartNumber c \<noteq> int (Suc i + j)"
    using Cons.prems by (metis Suc_less_eq add_Suc_shift length_Cons)
  ultimately show ?case using Cons.IH [of "Suc i"] assms(1) by (simp add: run)
qed simp

lemma run_read_meta:
  assumes "parts_at E (store w) (cl_Key c) m bodies" "connected kc w"
  shows "run_state (Client_Read E kc value) (with_client kc c w) =
     run_state (Read_parts E kc (cl_Key c @ ''.'' @ mget (fm_Meta (decoded m)) ''version'') (length bodies) 0
        (fm_Parts m) value None) (with_client kc (c\<lparr>cl_LastPartNumber := int (length bodies)\<rparr>) w)"
proof -
  obtain v where st: "store w (C_CString (cl_Key c)) = Some (Json m, v)" and f: "fits16 E (Json m)" "fm_Parts m \<noteq> []"
    using assms(1) by (auto simp: parts_at_def)
  have len: "length (fm_Parts m) = length bodies"
    using assms(1) by (auto simp: parts_at_def dest: list_all2_lengthD)
  have "run_state (kc_CGetMeta E (cl_Key c) Opts0) (with_client kc c w) = ((Some (Json m), None), with_client kc c w)"
    using CGetMeta_hit [OF st] by (simp add: kc_CGetMeta_def run)
  then show ?thesis
    using assms(2) f len
    by (simp add: Client_Read_def run json_Unmarshal_def decoded_def [symmetric] Let_def)
qed

lemma Client_Read_part:
  assumes "connected kc w" "parts_at E (store w) (cl_Key c) m bodies" "value \<noteq> []"
    "cl_NextPartNumber c = int j" "j < length bodies" "0 \<le> cl_DataOffset c"
    "cl_DataOffset c + int (min (length value) (length (bodies ! j))) \<le> int (length (bodies ! j))"
  shows "run_state (Client_Read E kc value) (with_client kc c w) =
     (let d = take (min (length value) (length (bodies ! j))) (drop (nat (cl_DataOffset c)) (bodies ! j))
      in ((copy_into value d, int (length d), None),
          with_client kc (c\<lparr>cl_LastPartNumber := int (length bodies),
                            cl_NextPartNumber := (if j = length bodies - 1 then 0 else int j + 1)\<rparr>) w))"
proof -
  have "length (fm_Parts m) = length bodies"
    "part_at (store w) (cl_Key c @ ''.'' @ mget (fm_Meta (decoded m)) ''version'') (fm_Parts m ! j) (bodies ! j)"
    using assms(2,5) by (auto simp: parts_at_def list_all2_conv_all_nth)
  then show ?thesis
    using Read_parts_at [OF assms(1,3), of "c\<lparr>cl_LastPartNumber := int (length bodies)\<rparr>" 0 j "fm_Parts m"] assms(4-7)
    unfolding run_read_meta [OF assms(2,1)] by simp
qed

lemma Client_Read_stale:
  assumes "connected kc w" "parts_at E (store w) (cl_Key c) m bodies" "cl_NextPartNumber c \<ge> int (length bodies)"
  shows "run_state (Client_Read E kc value) (with_client kc c w) =
     ((value, 0, None), with_client kc (c\<lparr>cl_LastPartNumber := int (length bodies)\<rparr>) w)"
proof -
  have "length (fm_Parts m) = length bodies" using assms(2) by (auto simp: parts_at_def dest: list_all2_lengthD)
  then show ?thesis
    using assms(3) unfolding run_read_meta [OF assms(2,1)] by (intro Read_parts_none [OF assms(1)]) auto
qed

end

section \<open>The copy loop\<close>

lemma not_panic [simp]: "\<not> is_panic None" "\<not> is_panic (Some (Lib e))" "\<not> is_panic (Some (Storage f))"
  by (simp_all add: is_panic_def)

lemma copy_step:
  assumes "gr_pReader g = Limited kc n" "0 < n" "take (nat n) buf = q"
    "run_state (Client_Read E kc q) w = ((q', int k, None), w')" "0 < k" "k \<le> length q" "length q' = length q"
    "werr (length out) = None"
  shows "run_state (copyBuffer (Suc fuel) E X werr g buf out) w =
     run_state (copyBuffer fuel E X werr (g\<lparr>gr_pReader := Limited kc (n - int k)\<rparr>) (q' @ drop (nat n) buf)
       (out @ [take k q'])) w'"
proof -
  have "k \<le> length buf" "length (q' @ drop (nat n) buf) = length buf" using assms(3,6,7) by auto
  with assms show ?thesis
    by (simp add: GetObjectReader_Read_def pReader_Read_def Let_def)
qed

lemma copy_end:
  assumes "gr_pReader g = Limited kc n" "n \<le> 0" "\<not> gr_once g"
  shows "run_state (copyBuffer (Suc fuel) E X werr g buf out) w =
     (Some (g\<lparr>gr_once := True\<rparr>, out, None), snd (run_state (run_cleanups E (gr_cleanUpFns g)) w))"
  using assms
  by (simp add: GetObjectReader_Read_def pReader_Read_def GetObjectReader_Close_def split_beta)


text \<open>A copy through a buffer of \<open>B\<close> bytes of an object stored in one piece: \<^verbatim>\<open>DataOffset\<close> stays where it is, so
  every read starts at the same byte.\<close>

definition repeated :: "nat \<Rightarrow> nat \<Rightarrow> bytes \<Rightarrow> bytes" where
  "repeated B n ds = concat (replicate (n div B) (take B ds)) @ take (n mod B) ds"

lemma repeated_less: "n < B \<Longrightarrow> repeated B n ds = take n ds"
  by (simp add: repeated_def)

lemma repeated_step: "0 < B \<Longrightarrow> B \<le> n \<Longrightarrow> repeated B n ds = take B ds @ repeated B (n - B) ds"
  by (simp add: repeated_def le_div_geq le_mod_geq)

definition closed_at :: "'x GetObjectReader \<Rightarrow> nat \<Rightarrow> 'x GetObjectReader" where
  "closed_at g kc = g\<lparr>gr_pReader := Limited kc 0, gr_once := True\<rparr>"

lemma closed_at_Limited [simp]: "closed_at (g\<lparr>gr_pReader := r\<rparr>) kc = closed_at g kc"
  by (simp add: closed_at_def)

context kinetic_layer
begin

lemma copy_repeats:
  assumes "connected kc w" "whole_at E (store w) (cl_Key c) m bs" "0 \<le> cl_DataOffset c"
    "cl_DataOffset c + int n \<le> int (length bs)" "buf \<noteq> []" "\<forall>i. werr i = None"
    "gr_pReader g = Limited kc (int n)" "\<not> gr_once g" "(n + length buf - 1) div length buf < fuel"
  shows "\<exists>chunks c'. run_state (copyBuffer fuel E X werr g buf out) (with_client kc c w) =
       (Some (closed_at g kc, out @ chunks, None),
        snd (run_state (run_cleanups E (gr_cleanUpFns g)) (with_client kc c' w))) \<and>
     concat chunks = repeated (length buf) n (drop (nat (cl_DataOffset c)) bs) \<and>
     cl_NextPartNumber c' = cl_NextPartNumber c"
  using assms(2-5,7-9)
proof (induction n arbitrary: c g buf out fuel rule: less_induct)
  case (less n)
  obtain f where f: "fuel = Suc f" using less.prems(7) by (cases fuel) auto
  let ?ds = "drop (nat (cl_DataOffset c)) bs"
  show ?case
  proof (cases "n = 0")
    case True
    then show ?thesis
      using less.prems copy_end [of g kc 0 f E X werr buf out "with_client kc c w"]
      by (intro exI [of _ "[]"] exI [of _ c]) (simp add: f repeated_def closed_at_def)
  next
    case False
    define q k where "q = take (nat (int n)) buf" and "k = min n (length buf)"
    define ds c1 where "ds = drop (nat (cl_DataOffset c)) bs" and "c1 = c\<lparr>cl_LastPartNumber := 0\<rparr>"
    have k: "0 < k" "length q = k" "q \<noteq> []" "k \<le> n"
      using False less.prems(4) by (auto simp: q_def k_def)
    have off: "cl_DataOffset c + int (length q) \<le> int (length bs)" using less.prems(3) k by simp
    from Client_Read_whole [OF assms(1) less.prems(1,2) k(3) off]
    have r: "run_state (Client_Read E kc q) (with_client kc c w) = ((take k ds, int k, None), with_client kc c1 w)"
      unfolding k(2) ds_def c1_def .
    have len: "length (take k ds) = length q" using less.prems(2,3) k by (simp add: ds_def)
    define g1 buf1 where "g1 = g\<lparr>gr_pReader := Limited kc (int (n - k))\<rparr>" and "buf1 = take k ds @ drop (nat (int n)) buf"
    have bl: "length buf1 = length buf" using len k by (simp add: buf1_def q_def)
    have step: "run_state (copyBuffer fuel E X werr g buf out) (with_client kc c w) =
        run_state (copyBuffer f E X werr g1 buf1 (out @ [take k ds])) (with_client kc c1 w)"
      using copy_step [OF less.prems(5) _ q_def [symmetric] r k(1) _ len, of werr out f X] k False assms(6)
      by (simp add: f of_nat_diff g1_def buf1_def)
    have fuel: "(n - k + length buf1 - 1) div length buf1 < f"
    proof (cases "n < length buf")
      case True
      then show ?thesis using less.prems(4,7) f False by (simp add: bl k_def div_if split: if_splits)
    next
      case nb: False
      then have "n + length buf - 1 = (n - length buf + length buf - 1) + length buf"
        using less.prems(4) by (cases buf) auto
      then have "(n + length buf - 1) div length buf = Suc ((n - length buf + length buf - 1) div length buf)"
        using less.prems(4) by (metis div_add_self2 length_0_conv Suc_eq_plus1)
      then show ?thesis using less.prems(7) f nb by (simp add: bl k_def min_def)
    qed
    have smaller: "n - k < n" using k(1,4) by simp
    have c1: "whole_at E (store w) (cl_Key c1) m bs" "0 \<le> cl_DataOffset c1"
      "cl_DataOffset c1 + int (n - k) \<le> int (length bs)" "buf1 \<noteq> []"
      using less.prems(1-4) bl by (auto simp: c1_def)
    have g1: "gr_pReader g1 = Limited kc (int (n - k))" "\<not> gr_once g1" using less.prems(6) by (simp_all add: g1_def)
    obtain chunks c' where IH: "run_state (copyBuffer f E X werr g1 buf1 (out @ [take k ds])) (with_client kc c1 w) =
       (Some (closed_at g1 kc, (out @ [take k ds]) @ chunks, None),
        snd (run_state (run_cleanups E (gr_cleanUpFns g1)) (with_client kc c' w)))"
     "concat chunks = repeated (length buf1) (n - k) (drop (nat (cl_DataOffset c1)) bs)"
     "cl_NextPartNumber c' = cl_NextPartNumber c1"
      using less.IH [OF smaller c1 g1 fuel, of "out @ [take k ds]"] by blast
    have rep: "take k ds @ repeated (length buf) (n - k) ds = repeated (length buf) n ds"
      using repeated_step [of "length buf" n ds] repeated_less [of n "length buf" ds] less.prems(4)
      by (cases "n < length buf") (auto simp: repeated_def k_def)
    show ?thesis
      unfolding step ds_def [symmetric] IH(1)
      using IH(2,3) rep [unfolded ds_def]
      by (intro exI [of _ "take k ds # chunks"] exI [of _ c']) (simp add: g1_def bl c1_def ds_def)
  qed
qed

end

text \<open>A copy of an object stored in parts, with a buffer for all of it: the parts are read in the order of the
  counter, around the end of the list.\<close>

context kinetic_layer
begin

lemma copy_parts:
  assumes "connected kc w" "parts_at E (store w) (cl_Key c) m bodies" "cl_DataOffset c = 0"
    "\<forall>i. werr i = None" "k < length bodies" "cl_NextPartNumber c = int k"
    "n = (\<Sum>i < l. length (bodies ! ((k + i) mod length bodies)))" "n < length buf"
    "gr_pReader g = Limited kc (int n)" "\<not> gr_once g" "l < fuel"
  shows "\<exists>c'. run_state (copyBuffer fuel E X werr g buf out) (with_client kc c w) =
       (Some (closed_at g kc, out @ map (\<lambda>i. bodies ! ((k + i) mod length bodies)) [0..<l], None),
        snd (run_state (run_cleanups E (gr_cleanUpFns g)) (with_client kc c' w))) \<and>
     cl_NextPartNumber c' = int ((k + l) mod length bodies)"
  using assms(2,3,5-11)
proof (induction l arbitrary: c k n g buf out fuel)
  case 0
  obtain f where f: "fuel = Suc f" using "0.prems"(9) by (cases fuel) auto
  show ?case
    using "0.prems" copy_end [of g kc 0 f E X werr buf out "with_client kc c w"]
    by (intro exI [of _ c]) (simp add: f closed_at_def)
next
  case (Suc l)
  obtain f where f: "fuel = Suc f" using Suc.prems(9) by (cases fuel) auto
  define N where "N = length bodies"
  define body where "body = bodies ! k"
  define k' where "k' = Suc k mod N"
  define n' where "n' = (\<Sum>i < l. length (bodies ! ((k' + i) mod N)))"
  have kN: "k mod N = k" using Suc.prems(3) by (simp add: N_def)
  have idx: "(k' + i) mod N = (k + Suc i) mod N" for i by (simp add: k'_def mod_simps)
  have n: "n = length body + n'"
    unfolding Suc.prems(5) sum.lessThan_Suc_shift n'_def N_def [symmetric] idx by (simp add: kN body_def)
  have body: "body \<noteq> []"
    using Suc.prems(1,3) by (auto simp: parts_at_def part_at_def list_all2_conv_all_nth body_def)
  define q where "q = take (nat (int n)) buf"
  define c1 where "c1 = c\<lparr>cl_LastPartNumber := int N, cl_NextPartNumber := (if k = N - 1 then 0 else int k + 1)\<rparr>"
  have ql: "length q = n" using Suc.prems(6) by (simp add: q_def)
  then have q: "length q = n" "q \<noteq> []" "min (length q) (length body) = length body"
    using n body by auto
  have r: "run_state (Client_Read E kc q) (with_client kc c w) =
      ((copy_into q body, int (length body), None), with_client kc c1 w)"
    using Client_Read_part [OF assms(1) Suc.prems(1) q(2) Suc.prems(4,3), folded body_def] Suc.prems(2)
    unfolding q(3) by (simp add: c1_def N_def)
  have len: "length (copy_into q body) = length q" "take (length body) (copy_into q body) = body"
    using q(1) n by (simp_all add: copy_into_def)
  define g1 where "g1 = g\<lparr>gr_pReader := Limited kc (int n')\<rparr>"
  define buf1 where "buf1 = copy_into q body @ drop (nat (int n)) buf"
  have step: "run_state (copyBuffer fuel E X werr g buf out) (with_client kc c w) =
      run_state (copyBuffer f E X werr g1 buf1 (out @ [body])) (with_client kc c1 w)"
    using copy_step [OF Suc.prems(7) _ q_def [symmetric] r _ _ len(1), of werr out f X] body q(1) n assms(4)
    by (simp add: f len(2) g1_def buf1_def)
  have next_k: "cl_NextPartNumber c1 = int k'" "k' < length bodies"
    using Suc.prems(3) by (auto simp: mod_Suc kN c1_def k'_def N_def)
  have buf: "n' < length buf1" using Suc.prems(6) n len(1) q(1) by (simp add: buf1_def)
  have fuel: "l < f" using Suc.prems(9) f by simp
  have c1: "parts_at E (store w) (cl_Key c1) m bodies" "cl_DataOffset c1 = 0"
    using Suc.prems(1,2) by (simp_all add: c1_def)
  have g1: "gr_pReader g1 = Limited kc (int n')" "\<not> gr_once g1" using Suc.prems(8) by (simp_all add: g1_def)
  obtain c' where "run_state (copyBuffer f E X werr g1 buf1 (out @ [body])) (with_client kc c1 w) =
      (Some (closed_at g1 kc, (out @ [body]) @ map (\<lambda>i. bodies ! ((k' + i) mod N)) [0..<l], None),
       snd (run_state (run_cleanups E (gr_cleanUpFns g1)) (with_client kc c' w)))"
    "cl_NextPartNumber c' = int ((k' + l) mod N)"
    using Suc.IH [OF c1 next_k(2,1) n'_def [unfolded N_def] buf g1 fuel, of "out @ [body]"] by (auto simp: N_def)
  moreover have "map (\<lambda>i. bodies ! ((k + i) mod N)) [0..<Suc l] =
      body # map (\<lambda>i. bodies ! ((k + Suc i) mod N)) [0..<l]"
    unfolding upt_conv_Cons [OF zero_less_Suc] map_Suc_upt [symmetric] by (simp add: kN comp_def body_def)
  ultimately show ?case
    unfolding step idx N_def [symmetric] by (intro exI [of _ c']) (simp add: g1_def del: upt_Suc)
qed

lemma copy_stale:
  assumes "connected kc w" "parts_at E (store w) (cl_Key c) m bodies" "cl_NextPartNumber c \<ge> int (length bodies)"
    "gr_pReader g = Limited kc n" "0 < n"
  shows "fst (run_state (copyBuffer fuel E X werr g buf out) (with_client kc c w)) = None"
  using assms(2-5)
proof (induction fuel arbitrary: c g buf)
  case (Suc fuel)
  let ?c = "c\<lparr>cl_LastPartNumber := int (length bodies)\<rparr>"
  have "run_state (copyBuffer (Suc fuel) E X werr g buf out) (with_client kc c w) =
      run_state (copyBuffer fuel E X werr (g\<lparr>gr_pReader := Limited kc n\<rparr>) (take (nat n) buf @ drop (nat n) buf) out)
        (with_client kc ?c w)"
    using Suc.prems Client_Read_stale [OF assms(1) Suc.prems(1,2)]
    by (simp add: GetObjectReader_Read_def pReader_Read_def Let_def)
  then show ?case using Suc.IH [of ?c] Suc.prems by simp
qed simp

end


section \<open>Opening an object\<close>

text \<open>The file that \<^verbatim>\<open>GetObjectNInfo\<close> locks for other processes: a short enough path, which is there or not.\<close>

definition file_lockable :: "('d, 'm) env \<Rightarrow> ('d, 'm) world \<Rightarrow> string \<Rightarrow> string \<Rightarrow> bool" where
  "file_lockable E w b x =
     (checkPathLength (fsMetaPath b x) = None \<and> e_open E (fsMetaPath b x) \<in> {None, Some ENotExist} \<and>
      map_of (w_readers w) (fsMetaPath b x) = None)"

text \<open>Neither compressed nor encrypted.\<close>

definition untransformed :: "ObjectInfo \<Rightarrow> bool" where
  "untransformed oi = (\<not> IsCompressed oi \<and> \<not> IsEncrypted (oi_UserDefined oi))"

abbreviation (input) transform_keys :: "string list" where
  "transform_keys \<equiv> [compression_key, SSEIV, SSESealAlgorithm, SSEMultipart, S3SealedKey, S3KMSKeyID, S3KMSSealedKey,
     SSECSealedKey]"

lemma object_user_keys:
  "fst ` set (oi_UserDefined (object_info E b x m)) \<subseteq> fst ` set (fm_Meta m) \<union> {''content-type'', ''etag''}"
proof -
  have c: "fst ` set (cleanMetadata meta) \<subseteq> fst ` set meta" for meta
    by (auto simp: cleanMetadata_def cleanMetadataKeys_def removeStandardStorageClass_def AList.delete_eq split: if_splits)
  have g: "fst ` set (guess_meta env x meta) \<subseteq> fst ` set meta \<union> {''content-type'', ''etag''}" for env meta
    by (simp add: guess_meta_def Let_def keys_mset split: if_split) blast
  have d: "fst ` set (fm_Meta (decoded m)) = fst ` set (fm_Meta m)"
    by (simp add: decoded_def json_merge_def fsMetaV1_0_def keys_mcopy)
  have "oi_UserDefined (object_info E b x m) = cleanMetadata (guess_meta (e_meta E) x (fm_Meta (decoded m)))"
    by (simp add: object_info_def KVInfoToObjectInfo_def Let_def)
  then show ?thesis using subset_trans [OF c g, of "e_meta E" "fm_Meta (decoded m)"] unfolding d by simp
qed

lemma untransformed_meta:
  assumes "\<forall>k \<in> set transform_keys. k \<notin> fst ` set (fm_Meta m)"
  shows "untransformed (object_info E b x m)"
proof -
  have "map_of (oi_UserDefined (object_info E b x m)) k = None" if "k \<in> set transform_keys" for k
  proof -
    have "k \<notin> {''content-type'', ''etag''}" using that by auto
    moreover have "k \<notin> fst ` set (fm_Meta m)" using assms that by blast
    ultimately show ?thesis using object_user_keys [of E b x m] unfolding map_of_eq_None_iff by blast
  qed
  from this [of compression_key] this [of SSEIV] this [of SSESealAlgorithm] this [of SSEMultipart] this [of S3SealedKey]
    this [of S3KMSKeyID] this [of S3KMSSealedKey] this [of SSECSealedKey]
  show ?thesis
    by (simp add: untransformed_def IsCompressed_def IsEncrypted_def IsMultiPart_def S3_IsEncrypted_def SSEC_IsEncrypted_def)
qed

definition requested :: "('d, 'm) env \<Rightarrow> ('d, 'm) world \<Rightarrow> string \<Rightarrow> string \<Rightarrow> bool" where
  "requested E w b x =
     (ready w \<and> fresh (w_ns w) b x \<and> checkGetObjArgs (e_valid_bucket E) b x = None \<and> b \<noteq> [] \<and>
      \<not> HasSuffix x SlashSeparator \<and> (b \<noteq> ''.minio.sys'' \<longrightarrow> file_lockable E w b x))"

lemma reader_plan_plain:
  "untransformed oi \<Longrightarrow> GetOffsetLength rs (oi_Size oi) = r \<Longrightarrow>
   reader_plan E X rs oi fns = (case r of Inl e \<Rightarrow> Inl e | Inr (off, len) \<Rightarrow> Inr (plain_fn E oi fns, off, len))"
  by (auto simp: reader_plan_def untransformed_def IsCompressed_def IsCompressedOK_def split: sum.splits)

definition rw_cleanup :: "string \<Rightarrow> string \<Rightarrow> cleanup" where
  "rw_cleanup b x = (if b \<noteq> ''.minio.sys'' then RwPoolClose (fsMetaPath b x) else NoCleanup)"

lemma run_take_rwPool:
  assumes "b \<noteq> ''.minio.sys'' \<longrightarrow> file_lockable E w b x"
  shows "\<exists>r. run_state (take_rwPool E readLock b x) w = (Inr (rw_cleanup b x), w\<lparr>w_readers := r\<rparr>) \<and>
     (\<forall>w'. w_readers w' = r \<longrightarrow> run_state (run_cleanup E (rw_cleanup b x)) w' = ((), w'\<lparr>w_readers := w_readers w\<rparr>))"
proof (cases "b = ''.minio.sys''")
  case True
  then show ?thesis
    by (intro exI [of _ "w_readers w"]) (simp add: take_rwPool_def rw_cleanup_def run_cleanup_def)
next
  case False
  let ?p = "fsMetaPath b x"
  obtain err r where o: "fsIOPool_Open (e_open E) ?p (w_readers w) = (err, r)" by fastforce
  have l: "checkPathLength ?p = None" "e_open E ?p \<in> {None, Some ENotExist}" "map_of (w_readers w) ?p = None"
    using assms False by (auto simp: file_lockable_def)
  then have e: "err = None \<or> err = Some (Storage errFileNotFound)"
    using o by (auto simp: fsIOPool_Open_def lookupToRead_def open_error_def)
  then have "snd (fsIOPool_Close ?p r) = w_readers w"
    using Open_Close [OF _ o] l(3) by auto
  then show ?thesis
    using False o e by (intro exI [of _ r]) (auto simp: take_rwPool_def rw_cleanup_def run_cleanup_def run)
qed

text \<open>The world while an object is being read on connection \<open>kc\<close>, and the one afterwards.\<close>

definition streaming :: "('d, 'm) env \<Rightarrow> string \<Rightarrow> string \<Rightarrow> readersMap \<Rightarrow> ('d, 'm) world \<Rightarrow> ('d, 'm) world" where
  "streaming E b x r w =
     w\<lparr>w_ns := locked (e_lrw E) (w_ns w) b x True, w_pool := taken (touch (w_pool w)), w_readers := r\<rparr>"

lemma streaming_drive [simp]: "w_drive (streaming E b x r w) = w_drive w"
  by (simp add: streaming_def)

abbreviation reader_of :: "ObjectInfo \<Rightarrow> nat \<Rightarrow> int \<Rightarrow> string \<Rightarrow> string \<Rightarrow> 'x GetObjectReader" where
  "reader_of oi kc len b x \<equiv>
     \<lparr>gr_ObjInfo = oi, gr_pReader = Limited kc len,
      gr_cleanUpFns = [NsRUnlock b x, rw_cleanup b x, ReleaseConn kc], gr_once = False\<rparr>"

context kinetic_layer
begin

lemma streaming_cleanup:
  assumes "ready w" "fresh (w_ns w) b x"
    "\<forall>w'. w_readers w' = r \<longrightarrow> run_state (run_cleanup E (rw_cleanup b x)) w' = ((), w'\<lparr>w_readers := w_readers w\<rparr>)"
  shows "run_state (run_cleanups E [NsRUnlock b x, rw_cleanup b x, ReleaseConn (slot (w_pool w))])
       (with_client (slot (w_pool w)) c (streaming E b x r w)) =
     ((), with_client (slot (w_pool w)) c (touched w))"
proof -
  let ?kc = "slot (w_pool w)" and ?w = "with_client (slot (w_pool w)) c (streaming E b x r w)"
  have p: "pool_free (w_pool w)" using assms(1) by (simp add: ready_def)
  have rel: "run_state (releaseConn ?kc) ?w = ((), ?w\<lparr>w_pool := set_client ?kc (\<lambda>_. c) (touch (w_pool w))\<rparr>)"
  proof -
    have "w_pool ?w = set_client ?kc (\<lambda>_. c) (taken (touch (w_pool w)))"
      by (simp add: with_client_def streaming_def)
    from run_releaseConn_keyed [OF this pool_touch(2) [OF p], of ?kc] show ?thesis
      by (simp add: slot_touch [OF p] touch_touch [OF p])
  qed
  define w1 where "w1 = ?w\<lparr>w_pool := set_client ?kc (\<lambda>_. c) (touch (w_pool w))\<rparr>"
  define w2 where "w2 = w1\<lparr>w_readers := w_readers w\<rparr>"
  have "w_readers w1 = r" "w_ns w2 = locked (e_lrw E) (w_ns w) b x True"
    by (simp_all add: w1_def w2_def streaming_def)
  then have "run_state (run_cleanup E (rw_cleanup b x)) w1 = ((), w2)"
    "run_state (ns_RUnlock E b x) w2 = ((), w2\<lparr>w_ns := w_ns w\<rparr>)"
    using assms(3) run_ns_RUnlock [OF _ assms(2)] by (simp_all add: w2_def)
  moreover have "w2\<lparr>w_ns := w_ns w\<rparr> = with_client ?kc c (touched w)"
    by (simp add: w2_def w1_def with_client_def streaming_def touched_def)
  ultimately show ?thesis
    using rel [folded w1_def]
    by (simp add: run_cleanup_def [of E "ReleaseConn ?kc"] run_cleanup_def [of E "NsRUnlock b x"])
qed

end


text \<open>The client as \<^verbatim>\<open>GetObjectNInfo\<close> leaves it for the reader: the key and the offset are set, the part counter is
  the one the connection already had.\<close>

definition opened_client :: "('d, 'm) world \<Rightarrow> string \<Rightarrow> int \<Rightarrow> Client" where
  "opened_client w k off =
     (kp_kcs (taken (touch (w_pool w))) ! slot (w_pool w))\<lparr>cl_Key := k, cl_DataOffset := off\<rparr>"

lemma taken_explicit:
  assumes "pool_free p"
  shows "kp_kcs (taken p) = (kp_kcs p)[slot p := (kp_kcs p ! slot p)\<lparr>cl_Idx := slot p\<rparr>]"
    "slot p < length (kp_kcs p)"
proof -
  have ff: "first_free (kp_inUsed p) = Some (slot p)" by (rule touch_explicit(1) [OF assms])
  have "taken p = p\<lparr>kp_kcs := (kp_kcs p)[slot p := (kp_kcs p ! slot p)\<lparr>cl_Idx := slot p\<rparr>],
       kp_inUsed := (kp_inUsed p)[slot p := True], kp_totalInUsed := kp_totalInUsed p + 1,
       kp_totalInUsedMax := max (kp_totalInUsedMax p) (kp_totalInUsed p + 1)\<rparr>"
    using pool_get [OF assms] ff by (auto simp: GetKineticConnection_def Let_def split: if_splits)
  then show "kp_kcs (taken p) = (kp_kcs p)[slot p := (kp_kcs p ! slot p)\<lparr>cl_Idx := slot p\<rparr>]"
    by simp
  show "slot p < length (kp_kcs p)"
    using ff first_free_Some assms by (auto simp: pool_free_def pool_inv_def)
qed

lemma opened_client_simps [simp]:
  assumes "ready w"
  shows "cl_Key (opened_client w k off) = k" "cl_DataOffset (opened_client w k off) = off"
    "cl_NextPartNumber (opened_client w k off) = cl_NextPartNumber (client (slot (w_pool w)) w)"
    "connected (slot (w_pool w)) (streaming E b x r w)"
proof -
  have p: "pool_free (w_pool w)" "pool_free (touch (w_pool w))" using assms pool_touch by (auto simp: ready_def)
  note t = taken_explicit [OF p(2), unfolded slot_touch [OF p(1)]] and u = taken_explicit [OF p(1)]
  show "cl_Key (opened_client w k off) = k" "cl_DataOffset (opened_client w k off) = off"
    by (simp_all add: opened_client_def)
  show "connected (slot (w_pool w)) (streaming E b x r w)"
    using t by (simp add: connected_def streaming_def)
  show "cl_NextPartNumber (opened_client w k off) = cl_NextPartNumber (client (slot (w_pool w)) w)"
    using t(2) u(2) by (simp add: opened_client_def client_def t(1)) (simp add: touch_explicit(2) [OF p(1)])
qed

text \<open>The world once \<^verbatim>\<open>GetObjectNInfo\<close> holds the read lock.\<close>

definition counted :: "('d, 'm) world \<Rightarrow> ('d, 'm) world" where
  "counted w = w\<lparr>w_activeIO := w_activeIO w + 1\<rparr>"

definition reading :: "('d, 'm) env \<Rightarrow> string \<Rightarrow> string \<Rightarrow> ('d, 'm) world \<Rightarrow> ('d, 'm) world" where
  "reading E b x w = (counted w)\<lparr>w_ns := locked (e_lrw E) (w_ns w) b x True\<rparr>"

lemma reading_simps [simp]:
  "w_drive (reading E b x w) = w_drive w" "w_readers (reading E b x w) = w_readers w"
  "w_pool (reading E b x w) = w_pool w" "w_ns (reading E b x w) = locked (e_lrw E) (w_ns w) b x True"
  "ready (reading E b x w) = ready w"
  by (simp_all add: reading_def counted_def)

context kinetic_layer
begin

lemma run_take_rlock:
  "fresh (w_ns w) b x \<Longrightarrow> run_state (take_lock E readLock b x) (counted w) = (Inr (NsRUnlock b x), reading E b x w)"
  using run_ns_GetRLock [of "counted w" b x] by (simp add: take_lock_def reading_def counted_def)

lemma run_runlock:
  "fresh m b x \<Longrightarrow> w_ns w = locked (e_lrw E) m b x True \<Longrightarrow>
   run_state (run_cleanup E (NsRUnlock b x)) w = ((), w\<lparr>w_ns := m\<rparr>)"
  using run_ns_RUnlock [of w m b x] by (simp add: run_cleanup_def)

lemma run_rw_reading:
  assumes "b \<noteq> ''.minio.sys'' \<longrightarrow> file_lockable E w b x"
  obtains r where
    "run_state (take_rwPool E readLock b x) (touched (reading E b x w)) =
       (Inr (rw_cleanup b x), (touched (reading E b x w))\<lparr>w_readers := r\<rparr>)"
    "\<forall>w'. w_readers w' = r \<longrightarrow> run_state (run_cleanup E (rw_cleanup b x)) w' = ((), w'\<lparr>w_readers := w_readers w\<rparr>)"
  using run_take_rwPool [of b E "touched (reading E b x w)" x] assms by (auto simp: file_lockable_def)

end

lemma set_client_const: "set_client i f p = set_client i (\<lambda>_. f (kp_kcs p ! i)) p"
  by (simp add: set_client_def)

context kinetic_layer
begin

lemma run_open_reader:
  assumes "pool_free (w_pool w)" "w_pool w = touch p" "pool_free p" "untransformed oi"
    "GetOffsetLength rs (oi_Size oi) = Inr (off, len)" "off \<le> oi_Size oi" "off + len \<le> oi_Size oi"
  shows "run_state (open_reader E X b x rs h None oi fns) w =
     (Inr \<lparr>gr_ObjInfo = oi, gr_pReader = Limited (slot p) len, gr_cleanUpFns = fns @ [ReleaseConn (slot p)], gr_once = False\<rparr>,
      w\<lparr>w_pool := set_client (slot p) (\<lambda>_. (kp_kcs (taken (touch p)) ! slot p)\<lparr>cl_Key := makeKey b x, cl_DataOffset := off\<rparr>)
           (taken (touch p))\<rparr>)"
proof -
  have plan: "reader_plan E X rs oi fns = Inr (plain_fn E oi fns, off, len)"
    using reader_plan_plain [OF assms(4,5)] by simp
  show ?thesis
    using assms run_getConn [OF assms(1)]
    by (simp add: open_reader_def NewGetObjectReader_def plan modify_client_def run plain_fn_def assemble_def makeKey_eq
        slot_touch [OF assms(3)] set_client_const [where f = "\<lambda>c. c\<lparr>cl_Key := makeKey b x, cl_DataOffset := off\<rparr>"])
qed

lemma run_GetObjectNInfo:
  assumes "requested E w b x" "store w (C_CString (makeKey b x)) = Some (Json m, v)" "fits16 E (Json m)"
    "untransformed (object_info E b x m)" "GetOffsetLength rs (oi_Size (object_info E b x m)) = Inr (off, len)"
    "off \<le> oi_Size (object_info E b x m)" "off + len \<le> oi_Size (object_info E b x m)"
  shows "\<exists>r. run_state (GetObjectNInfo E X b x rs h readLock None) w =
       (Inr (reader_of (object_info E b x m) (slot (w_pool w)) len b x),
        with_client (slot (w_pool w)) (opened_client w (makeKey b x) off) (streaming E b x r w)) \<and>
     (\<forall>w'. w_readers w' = r \<longrightarrow> run_state (run_cleanup E (rw_cleanup b x)) w' = ((), w'\<lparr>w_readers := w_readers w\<rparr>))"
proof -
  have w: "ready w" "fresh (w_ns w) b x" "checkGetObjArgs (e_valid_bucket E) b x = None" "b \<noteq> []"
    "\<not> HasSuffix x SlashSeparator" "b \<noteq> ''.minio.sys'' \<longrightarrow> file_lockable E w b x"
    using assms(1) by (auto simp: requested_def)
  have p: "pool_free (w_pool w)" "pool_free (touch (w_pool w))" using w(1) pool_touch by (auto simp: ready_def)
  let ?w2 = "reading E b x w"
  note r1 = run_take_rlock [OF w(2)]
  have r2: "run_state (getObjectInfo E b x) ?w2 = (Inr (object_info E b x m), touched ?w2)"
    using run_getObjectInfo_hit [of ?w2 b x m v] w(1,4) assms(2,3) by simp
  obtain r where r: "run_state (take_rwPool E readLock b x) (touched ?w2) = (Inr (rw_cleanup b x), (touched ?w2)\<lparr>w_readers := r\<rparr>)"
    "\<forall>w'. w_readers w' = r \<longrightarrow> run_state (run_cleanup E (rw_cleanup b x)) w' = ((), w'\<lparr>w_readers := w_readers w\<rparr>)"
    by (rule run_rw_reading [OF w(6)])
  define w3 where "w3 = (touched ?w2)\<lparr>w_readers := r\<rparr>"
  have w3: "w_pool w3 = touch (w_pool w)" by (simp add: w3_def reading_def counted_def touched_def)
  note r3 = run_open_reader [of w3 "w_pool w", unfolded w3, OF p(2) refl p(1) assms(4-7), of X b x h
      "[NsRUnlock b x, rw_cleanup b x]"]
  have "run_state (GetObjectNInfo E X b x rs h readLock None) w =
       (Inr (reader_of (object_info E b x m) (slot (w_pool w)) len b x),
        with_client (slot (w_pool w)) (opened_client w (makeKey b x) off) (streaming E b x r w))"
    using w(3,5) r1 r2 r(1) r3
    by (simp add: GetObjectNInfo_def run counted_def [symmetric] w3_def [symmetric])
      (simp add: w3_def reading_def counted_def touched_def with_client_def streaming_def opened_client_def)
  with r(2) show ?thesis by blast
qed

end


section \<open>Serving a request\<close>

lemma length_rotated: "sum_list (map length (rotate k xs)) = sum_list (map length xs)"
proof -
  have "sum_list (map length xs) = sum_list (map length (take (k mod length xs) xs)) + sum_list (map length (drop (k mod length xs) xs))"
    by (metis append_take_drop_id map_append sum_list_append)
  then show ?thesis by (simp add: rotate_drop_take)
qed

definition wf_rs :: "HTTPRangeSpec option \<Rightarrow> bool" where
  "wf_rs rs = (case rs of None \<Rightarrow> True | Some h \<Rightarrow> wf_range h)"

lemma range_inside:
  assumes "wf_rs rs" "0 \<le> sz" "GetOffsetLength rs sz = Inr (off, len)"
  shows "0 \<le> off" "0 \<le> len" "off + len \<le> sz"
  using assms GetOffsetLength_selects [of _ sz off len]
  by (cases rs; auto simp: wf_rs_def GetOffsetLength_def [of None])+

lemma settled_with_client:
  "ready w \<Longrightarrow> settled w (with_client kc c (touched w)) \<and> w_drive (with_client kc c (touched w)) = w_drive w \<and>
   w_readers (with_client kc c (touched w)) = w_readers w"
  by (simp add: settled_def ready_def with_client_def set_client_inv touched_def pool_touch)

lemma slot_with_client: "ready w \<Longrightarrow> slot (w_pool (with_client kc c (touched w))) = slot (w_pool w)"
proof -
  assume "ready w"
  then have p: "pool_free (w_pool w)" by (simp add: ready_def)
  then have "pool_free (set_client kc (\<lambda>_. c) (touch (w_pool w)))" by (simp add: set_client_inv pool_touch)
  from touch_explicit(1) [OF this] touch_explicit(1) [OF p] show ?thesis
    by (simp add: set_client_inv pool_touch [OF p] with_client_def touched_def)
qed

context kinetic_layer
begin

text \<open>From an open reader to the end of the request, for a copy that ends by reading everything.\<close>

lemma run_serve:
  assumes "requested E w b x" "store w (C_CString (makeKey b x)) = Some (Json m, v)" "fits16 E (Json m)"
    "untransformed (object_info E b x m)" "oi_Size (object_info E b x m) = sz" "0 \<le> bufSize sz"
    "wf_rs rs" "0 \<le> sz" "GetOffsetLength rs sz = Inr (off, len)"
    and copy: "\<And>r. run_state (copyBuffer fuel E X werr (reader_of (object_info E b x m) (slot (w_pool w)) len b x)
         (replicate (nat (bufSize sz)) CHR 0x00) [])
         (with_client (slot (w_pool w)) (opened_client w (makeKey b x) off) (streaming E b x r w)) =
       (Some (closed_at (reader_of (object_info E b x m) (slot (w_pool w)) len b x) (slot (w_pool w)), out r, None),
        snd (run_state (run_cleanups E [NsRUnlock b x, rw_cleanup b x, ReleaseConn (slot (w_pool w))])
          (with_client (slot (w_pool w)) (c r) (streaming E b x r w))))"
  shows "\<exists>r. run_state (serve_object bufSize fuel E X b x rs h werr) w =
     (Some (None, concat (out r)), with_client (slot (w_pool w)) (c r) (touched w))"
proof -
  have b: "off \<le> sz" "off + len \<le> sz" using range_inside [OF assms(7-9)] by auto
  obtain r where r: "run_state (GetObjectNInfo E X b x rs h readLock None) w =
       (Inr (reader_of (object_info E b x m) (slot (w_pool w)) len b x),
        with_client (slot (w_pool w)) (opened_client w (makeKey b x) off) (streaming E b x r w))"
     "\<forall>w'. w_readers w' = r \<longrightarrow> run_state (run_cleanup E (rw_cleanup b x)) w' = ((), w'\<lparr>w_readers := w_readers w\<rparr>)"
    using run_GetObjectNInfo [OF assms(1-4), of rs off len X h] assms(5,9) b by auto
  have "ready w" "fresh (w_ns w) b x" using assms(1) by (auto simp: requested_def)
  note cl = streaming_cleanup [OF this r(2), of "c r"]
  show ?thesis
    using r(1) copy [of r] cl assms(5,6)
    by (intro exI [of _ r]) (simp add: serve_object_def GetObjectReader_Close_def closed_at_def)
qed

end


context kinetic_layer
begin

lemma serve_whole:
  assumes req: "requested E w b x" and whole: "whole_at E (store w) (makeKey b x) m bs"
    and plain: "untransformed (object_info E b x m)" and buf: "0 < bufSize (int (length bs))"
    and rs: "wf_rs rs" "GetOffsetLength rs (int (length bs)) = Inr (off, len)" and werr: "\<forall>i. werr i = None"
    and fuel: "(nat len + nat (bufSize (int (length bs))) - 1) div nat (bufSize (int (length bs))) < fuel"
  shows "\<exists>c'. run_state (serve_object bufSize fuel E X b x rs h werr) w =
       (Some (None, repeated (nat (bufSize (int (length bs)))) (nat len) (drop (nat off) bs)),
        with_client (slot (w_pool w)) c' (touched w)) \<and>
     cl_NextPartNumber c' = cl_NextPartNumber (client (slot (w_pool w)) w)"
proof -
  let ?kc = "slot (w_pool w)" and ?oi = "object_info E b x m" and ?B = "nat (bufSize (int (length bs)))"
  let ?c = "opened_client w (makeKey b x) off" and ?buf = "replicate ?B CHR 0x00"
  have w: "ready w" using req by (simp add: requested_def)
  have st: "store w (C_CString (makeKey b x)) = Some (Json m, Raw bs)" "fits16 E (Json m)"
    and sz: "oi_Size ?oi = int (length bs)"
    using whole by (auto simp: whole_at_def object_info_size)
  note inside = range_inside [OF rs(1) _ rs(2), simplified]
  have "\<exists>chunks c'. run_state (copyBuffer fuel E X werr (reader_of ?oi ?kc len b x) ?buf [])
         (with_client ?kc ?c (streaming E b x r w)) =
       (Some (closed_at (reader_of ?oi ?kc len b x) ?kc, chunks, None),
        snd (run_state (run_cleanups E [NsRUnlock b x, rw_cleanup b x, ReleaseConn ?kc])
          (with_client ?kc c' (streaming E b x r w)))) \<and>
       concat chunks = repeated ?B (nat len) (drop (nat off) bs) \<and>
       cl_NextPartNumber c' = cl_NextPartNumber (client ?kc w)" for r
    using copy_repeats [of ?kc "streaming E b x r w" ?c m bs "nat len" ?buf werr "reader_of ?oi ?kc len b x" fuel X "[]"]
      w whole inside buf werr fuel by simp
  then obtain out c where copy: "\<And>r. run_state (copyBuffer fuel E X werr (reader_of ?oi ?kc len b x) ?buf [])
         (with_client ?kc ?c (streaming E b x r w)) =
       (Some (closed_at (reader_of ?oi ?kc len b x) ?kc, out r, None),
        snd (run_state (run_cleanups E [NsRUnlock b x, rw_cleanup b x, ReleaseConn ?kc])
          (with_client ?kc (c r) (streaming E b x r w))))"
      "\<And>r. concat (out r) = repeated ?B (nat len) (drop (nat off) bs)"
      "\<And>r. cl_NextPartNumber (c r) = cl_NextPartNumber (client ?kc w)"
    by metis
  show ?thesis
    using run_serve [where bufSize = bufSize and out = out and c = c, OF req st plain sz _ rs(1) _ rs(2) copy(1), of h]
      buf copy(2,3) by auto
qed

lemma serve_parts:
  assumes req: "requested E w b x" and parts: "parts_at E (store w) (makeKey b x) m bodies"
    and plain: "untransformed (object_info E b x m)" and werr: "\<forall>i. werr i = None"
    and k: "cl_NextPartNumber (client (slot (w_pool w)) w) = int k" "k < length bodies"
    and fuel: "length bodies < fuel"
  shows "\<exists>c'. run_state (serve_object (\<lambda>sz. sz + 1) fuel E X b x None h werr) w =
       (Some (None, concat (rotate k bodies)), with_client (slot (w_pool w)) c' (touched w)) \<and>
     cl_NextPartNumber c' = int k"
proof -
  let ?kc = "slot (w_pool w)" and ?oi = "object_info E b x m" and ?n = "length bodies"
  let ?sz = "length (concat bodies)"
  let ?c = "opened_client w (makeKey b x) 0" and ?buf = "replicate (nat (int ?sz + 1)) CHR 0x00"
  have w: "ready w" using req by (simp add: requested_def)
  obtain v where st: "store w (C_CString (makeKey b x)) = Some (Json m, v)" "fits16 E (Json m)"
    and sz: "oi_Size ?oi = int ?sz"
    using parts by (auto simp: parts_at_def object_info_size)
  have rot: "map (\<lambda>i. bodies ! ((k + i) mod ?n)) [0..<?n] = rotate k bodies"
    by (rule nth_equalityI) (simp_all add: nth_rotate)
  have total: "?sz = (\<Sum>i < ?n. length (bodies ! ((k + i) mod ?n)))"
  proof -
    have "?sz = sum_list (map length (rotate k bodies))"
      by (simp add: length_concat length_rotated)
    also have "\<dots> = (\<Sum>i < ?n. length (rotate k bodies ! i))"
      by (simp add: sum_list_sum_nth atLeast0LessThan)
    finally show ?thesis by (simp add: nth_rotate)
  qed
  have "\<exists>c'. run_state (copyBuffer fuel E X werr (reader_of ?oi ?kc (int ?sz) b x) ?buf [])
         (with_client ?kc ?c (streaming E b x r w)) =
       (Some (closed_at (reader_of ?oi ?kc (int ?sz) b x) ?kc, rotate k bodies, None),
        snd (run_state (run_cleanups E [NsRUnlock b x, rw_cleanup b x, ReleaseConn ?kc])
          (with_client ?kc c' (streaming E b x r w)))) \<and> cl_NextPartNumber c' = int k" for r
    using copy_parts [of ?kc "streaming E b x r w" ?c m bodies werr k ?sz ?n ?buf
        "reader_of ?oi ?kc (int ?sz) b x" fuel X "[]", OF _ _ _ werr k(2) _ total]
      w parts k fuel by (simp add: rot)
  then obtain c where copy: "\<And>r. run_state (copyBuffer fuel E X werr (reader_of ?oi ?kc (int ?sz) b x) ?buf [])
         (with_client ?kc ?c (streaming E b x r w)) =
       (Some (closed_at (reader_of ?oi ?kc (int ?sz) b x) ?kc, rotate k bodies, None),
        snd (run_state (run_cleanups E [NsRUnlock b x, rw_cleanup b x, ReleaseConn ?kc])
          (with_client ?kc (c r) (streaming E b x r w))))"
      "\<And>r. cl_NextPartNumber (c r) = int k"
    by metis
  show ?thesis
    using run_serve [where bufSize = "\<lambda>sz. sz + 1" and out = "\<lambda>_. rotate k bodies" and c = c and rs = None and off = 0,
        OF req st plain sz _ _ _ _ copy(1), of h] copy(2) by (auto simp: wf_rs_def GetOffsetLength_def)
qed

end


text \<open>A range that lies inside the part the counter names is answered from that part, and moves the counter on.\<close>

definition next_part :: "nat \<Rightarrow> nat \<Rightarrow> nat" where
  "next_part n k = (if k = n - 1 then 0 else Suc k)"

context kinetic_layer
begin

lemma copy_range_part:
  assumes "connected kc w" "parts_at E (store w) (cl_Key c) m bodies" "\<forall>i. werr i = None" "k < length bodies"
    "cl_NextPartNumber c = int k" "0 < n" "0 \<le> cl_DataOffset c"
    "cl_DataOffset c + int n \<le> int (length (bodies ! k))" "n < length buf"
    "gr_pReader g = Limited kc (int n)" "\<not> gr_once g"
  shows "\<exists>c'. run_state (copyBuffer (Suc (Suc fuel)) E X werr g buf []) (with_client kc c w) =
       (Some (closed_at g kc, [take n (drop (nat (cl_DataOffset c)) (bodies ! k))], None),
        snd (run_state (run_cleanups E (gr_cleanUpFns g)) (with_client kc c' w))) \<and>
     cl_NextPartNumber c' = int (next_part (length bodies) k)"
proof -
  define q where "q = take (nat (int n)) buf"
  define d where "d = take n (drop (nat (cl_DataOffset c)) (bodies ! k))"
  define c1 where "c1 = c\<lparr>cl_LastPartNumber := int (length bodies),
     cl_NextPartNumber := (if k = length bodies - 1 then 0 else int k + 1)\<rparr>"
  have q: "length q = n" "q \<noteq> []" "min (length q) (length (bodies ! k)) = n" using assms(6-9) by (auto simp: q_def)
  have d: "length d = n" using assms(7,8) by (simp add: d_def)
  have r: "run_state (Client_Read E kc q) (with_client kc c w) = ((copy_into q d, int n, None), with_client kc c1 w)"
    using Client_Read_part [OF assms(1,2) q(2) assms(5,4,7)] assms(8) d
    unfolding q(3) by (simp add: d_def c1_def)
  have len: "length (copy_into q d) = length q" "take n (copy_into q d) = d" using d q(1) by simp_all
  have "run_state (copyBuffer (Suc (Suc fuel)) E X werr g buf []) (with_client kc c w) =
      run_state (copyBuffer (Suc fuel) E X werr (g\<lparr>gr_pReader := Limited kc 0\<rparr>) (copy_into q d @ drop (nat (int n)) buf) [d])
        (with_client kc c1 w)"
    using copy_step [OF assms(10) _ q_def [symmetric] r assms(6) _ len(1), of werr "[]" "Suc fuel" X] assms(3,6) q(1)
    by (simp add: len(2))
  also have "\<dots> = (Some (closed_at g kc, [d], None),
      snd (run_state (run_cleanups E (gr_cleanUpFns g)) (with_client kc c1 w)))"
    using assms(11) by (subst copy_end [of _ kc 0]) (simp_all add: closed_at_def)
  finally show ?thesis
    by (intro exI [of _ c1]) (simp add: d_def c1_def next_part_def)
qed

lemma serve_range_part:
  assumes req: "requested E w b x" and parts: "parts_at E (store w) (makeKey b x) m bodies"
    and plain: "untransformed (object_info E b x m)" and werr: "\<forall>i. werr i = None"
    and k: "cl_NextPartNumber (client (slot (w_pool w)) w) = int k" "k < length bodies"
    and rs: "wf_range hs" "GetOffsetLength (Some hs) (int (length (concat bodies))) = Inr (off, len)" "0 < len"
      "off + len \<le> int (length (bodies ! k))"
  shows "\<exists>c'. run_state (serve_object (\<lambda>sz. sz + 1) (Suc (Suc fuel)) E X b x (Some hs) h werr) w =
       (Some (None, take (nat len) (drop (nat off) (bodies ! k))), with_client (slot (w_pool w)) c' (touched w)) \<and>
     cl_NextPartNumber c' = int (next_part (length bodies) k)"
proof -
  let ?kc = "slot (w_pool w)" and ?oi = "object_info E b x m" and ?sz = "int (length (concat bodies))"
  let ?c = "opened_client w (makeKey b x) off" and ?buf = "replicate (nat (?sz + 1)) CHR 0x00"
  have w: "ready w" using req by (simp add: requested_def)
  obtain v where st: "store w (C_CString (makeKey b x)) = Some (Json m, v)" "fits16 E (Json m)"
    and sz: "oi_Size ?oi = ?sz"
    using parts by (auto simp: parts_at_def object_info_size)
  note inside = range_inside [of "Some hs", OF _ _ rs(2)]
  have i: "0 \<le> off" "off + len \<le> ?sz" using inside rs(1) by (auto simp: wf_rs_def)
  have "\<exists>c'. run_state (copyBuffer (Suc (Suc fuel)) E X werr (reader_of ?oi ?kc len b x) ?buf [])
         (with_client ?kc ?c (streaming E b x r w)) =
       (Some (closed_at (reader_of ?oi ?kc len b x) ?kc, [take (nat len) (drop (nat off) (bodies ! k))], None),
        snd (run_state (run_cleanups E [NsRUnlock b x, rw_cleanup b x, ReleaseConn ?kc])
          (with_client ?kc c' (streaming E b x r w)))) \<and> cl_NextPartNumber c' = int (next_part (length bodies) k)" for r
    using copy_range_part [of ?kc "streaming E b x r w" ?c m bodies werr k "nat len" ?buf "reader_of ?oi ?kc len b x" fuel X]
      w parts werr k rs(3,4) i by simp
  then obtain c where copy: "\<And>r. run_state (copyBuffer (Suc (Suc fuel)) E X werr (reader_of ?oi ?kc len b x) ?buf [])
         (with_client ?kc ?c (streaming E b x r w)) =
       (Some (closed_at (reader_of ?oi ?kc len b x) ?kc, [take (nat len) (drop (nat off) (bodies ! k))], None),
        snd (run_state (run_cleanups E [NsRUnlock b x, rw_cleanup b x, ReleaseConn ?kc])
          (with_client ?kc (c r) (streaming E b x r w))))"
      "\<And>r. cl_NextPartNumber (c r) = int (next_part (length bodies) k)"
    by metis
  show ?thesis
    using run_serve [where bufSize = "\<lambda>sz. sz + 1" and out = "\<lambda>_. [take (nat len) (drop (nat off) (bodies ! k))]" and c = c,
        OF req st plain sz _ _ _ rs(2) copy(1), of h] copy(2) rs(1) by (auto simp: wf_rs_def)
qed

text \<open>A counter beyond the last part: the reader returns nothing and no error, again and again.\<close>

lemma serve_stale:
  assumes req: "requested E w b x" and parts: "parts_at E (store w) (makeKey b x) m bodies"
    and plain: "untransformed (object_info E b x m)"
    and k: "cl_NextPartNumber (client (slot (w_pool w)) w) \<ge> int (length bodies)"
  shows "fst (run_state (serve_object (\<lambda>sz. sz + 1) fuel E X b x None h werr) w) = None"
proof -
  let ?kc = "slot (w_pool w)" and ?oi = "object_info E b x m" and ?sz = "int (length (concat bodies))"
  let ?c = "opened_client w (makeKey b x) 0"
  have w: "ready w" using req by (simp add: requested_def)
  obtain v where st: "store w (C_CString (makeKey b x)) = Some (Json m, v)" "fits16 E (Json m)"
    and sz: "oi_Size ?oi = ?sz"
    using parts by (auto simp: parts_at_def object_info_size)
  obtain r where r: "run_state (GetObjectNInfo E X b x None h readLock None) w =
       (Inr (reader_of ?oi ?kc ?sz b x), with_client ?kc ?c (streaming E b x r w))"
    using run_GetObjectNInfo [OF req st plain, of None 0 ?sz X h] sz by (auto simp: GetOffsetLength_def)
  have "bodies \<noteq> []" "\<forall>body \<in> set bodies. body \<noteq> []"
    using parts by (auto simp: parts_at_def part_at_def list_all2_conv_all_nth in_set_conv_nth)
  then have "concat bodies \<noteq> []" by (cases bodies) auto
  then have "0 < ?sz" by simp
  then have "fst (run_state (copyBuffer fuel E X werr (reader_of ?oi ?kc ?sz b x)
      (replicate (nat (?sz + 1)) CHR 0x00) []) (with_client ?kc ?c (streaming E b x r w))) = None"
    using copy_stale [of ?kc "streaming E b x r w" ?c m bodies "reader_of ?oi ?kc ?sz b x" ?sz] w parts k by simp
  then show ?thesis
    using r sz by (simp add: serve_object_def split_beta)
qed

end


section \<open>Refused requests\<close>

text \<open>The path of the file that is locked for other processes is made of the segments of the name.\<close>

lemma Join_splice:
  "cs \<noteq> [] \<Longrightarrow> strings_Join (xs @ strings_Join cs c # ys) c = strings_Join (xs @ cs @ ys) c"
proof (induction xs)
  case Nil
  then show ?case by (cases ys) (simp_all add: Join_append)
next
  case (Cons x xs)
  obtain u us v vs where "xs @ strings_Join cs c # ys = u # us" "xs @ cs @ ys = v # vs"
    using Cons.prems by (metis append_is_Nil_conv list.exhaust list.simps(3))
  then show ?case using Cons by simp
qed

lemma fsMetaPath_segments:
  assumes "plain_component b" "IsValidObjectPrefix x" "\<not> HasPrefix x SlashSeparator" "x \<noteq> []"
    "\<not> HasSuffix x SlashSeparator"
  shows "fsMetaPath b x = strings_Join ([''.minio.sys'', ''buckets'', b] @ strings_Split x CHR ''/'' @ [metaJSONFile]) CHR ''/''"
    "\<forall>c \<in> set ([''.minio.sys'', ''buckets'', b] @ strings_Split x CHR ''/'' @ [metaJSONFile]). plain_component c"
proof -
  let ?cs = "[''.minio.sys'', ''buckets'', b] @ strings_Split x CHR ''/'' @ [metaJSONFile]"
  have "\<forall>c \<in> set (strings_Split x CHR ''/''). plain_component c"
    using object_components [OF assms(2,3,4)] assms(5) by auto
  then show plain: "\<forall>c \<in> set ?cs. plain_component c"
    using assms(1) by (auto simp: plain_component_def)
  have "strings_Join [''.minio.sys'', ''buckets'', b, x, metaJSONFile] CHR ''/'' = strings_Join ?cs CHR ''/''"
    using Join_splice [of "strings_Split x CHR ''/''" "[''.minio.sys'', ''buckets'', b]" "CHR ''/''" "[metaJSONFile]"]
    by (simp add: Join_Split Split_not_Nil)
  then show "fsMetaPath b x = strings_Join ?cs CHR ''/''"
    using path_Clean_plain [OF _ plain]
    by (simp add: fsMetaPath_def pathJoin_def path_Join_def HasSuffix_def HasSuffix_iff)
qed

lemma fsMetaPath_length:
  assumes "plain_component b" "length b \<le> 255" "IsValidObjectPrefix x" "\<not> HasPrefix x SlashSeparator" "x \<noteq> []"
    "\<not> HasSuffix x SlashSeparator"
  shows "checkPathLength (fsMetaPath b x) =
     (if \<exists>c \<in> set (strings_Split x CHR ''/''). 255 < length c then Some (Storage errFileNameTooLong) else None)"
  using checkPathLength_plain [OF fsMetaPath_segments(2) [OF assms(1,3-6)]] assms(2)
  unfolding fsMetaPath_segments(1) [OF assms(1,3-6)] by auto

context kinetic_layer
begin

lemma serve_missing:
  assumes "ready w" "fresh (w_ns w) b x" "checkGetObjArgs (e_valid_bucket E) b x = None" "b \<noteq> []"
    "store w (C_CString (makeKey b x)) = None"
  shows "run_state (serve_object bufSize fuel E X b x rs h werr) w =
     (Some (Some (Name (ObjectNotFound b x)), []), touched w)"
proof -
  let ?w2 = "reading E b x w"
  note r1 = run_take_rlock [OF assms(2)]
  have r2: "run_state (getObjectInfo E b x) ?w2 = (Inl (Storage errFileNotFound), touched ?w2)"
    using run_getObjectInfo_miss [of ?w2 b x] assms by simp
  note r3 = run_runlock [OF assms(2), of "touched ?w2", simplified]
  show ?thesis
    using assms(3) r1 r2 r3
    by (simp add: serve_object_def GetObjectNInfo_def run counted_def [symmetric] toObjectErr_def)
      (simp add: reading_def counted_def touched_def)
qed

text \<open>An object that is there but whose reader is not opened: every lock is given back.\<close>

lemma serve_unopened:
  assumes "ready w" "fresh (w_ns w) b x" "checkGetObjArgs (e_valid_bucket E) b x = None" "b \<noteq> []" "b \<noteq> ''.minio.sys''"
    "\<not> HasSuffix x SlashSeparator" "store w (C_CString (makeKey b x)) = Some (Json m, v)" "fits16 E (Json m)"
    "checkPathLength (fsMetaPath b x) = Some e"
  shows "run_state (serve_object bufSize fuel E X b x rs h werr) w =
     (Some (toObjectErr (Some e) [b, x], []), touched w) \<or> e = Storage errFileNotFound"
proof -
  let ?w2 = "reading E b x w"
  note r1 = run_take_rlock [OF assms(2)]
  have r2: "run_state (getObjectInfo E b x) ?w2 = (Inr (object_info E b x m), touched ?w2)"
    using run_getObjectInfo_hit [of ?w2 b x m v] assms by simp
  note r3 = run_runlock [OF assms(2), of "touched ?w2", simplified]
  have r4: "run_state (take_rwPool E readLock b x) (touched ?w2) = (Inl e, touched ?w2)" if "e \<noteq> Storage errFileNotFound"
    using assms(5,9) that by (simp add: take_rwPool_def fsIOPool_Open_def)
  show ?thesis
    using assms(3,6) r1 r2 r3 r4
    by (cases "e = Storage errFileNotFound")
      (simp_all add: serve_object_def GetObjectNInfo_def run counted_def [symmetric], simp add: reading_def counted_def touched_def)
qed

lemma serve_bad_range:
  assumes req: "requested E w b x" and st: "store w (C_CString (makeKey b x)) = Some (Json m, v)" "fits16 E (Json m)"
    and plain: "untransformed (object_info E b x m)"
    and rs: "GetOffsetLength rs (oi_Size (object_info E b x m)) = Inl e"
  shows "run_state (serve_object bufSize fuel E X b x rs h werr) w = (Some (Some e, []), touched w)"
proof -
  have w: "ready w" "fresh (w_ns w) b x" "checkGetObjArgs (e_valid_bucket E) b x = None" "b \<noteq> []"
    "\<not> HasSuffix x SlashSeparator" "b \<noteq> ''.minio.sys'' \<longrightarrow> file_lockable E w b x"
    using req by (auto simp: requested_def)
  let ?w2 = "reading E b x w"
  note r1 = run_take_rlock [OF w(2)]
  have r2: "run_state (getObjectInfo E b x) ?w2 = (Inr (object_info E b x m), touched ?w2)"
    using run_getObjectInfo_hit [of ?w2 b x m v] w(1,4) st by simp
  obtain r where r: "run_state (take_rwPool E readLock b x) (touched ?w2) = (Inr (rw_cleanup b x), (touched ?w2)\<lparr>w_readers := r\<rparr>)"
    "\<forall>w'. w_readers w' = r \<longrightarrow> run_state (run_cleanup E (rw_cleanup b x)) w' = ((), w'\<lparr>w_readers := w_readers w\<rparr>)"
    by (rule run_rw_reading [OF w(6)])
  define w3 where "w3 = (touched ?w2)\<lparr>w_readers := r\<rparr>"
  define w4 where "w4 = w3\<lparr>w_readers := w_readers w\<rparr>"
  have r3: "run_state (run_cleanup E (rw_cleanup b x)) w3 = ((), w4)"
    using r(2) by (simp add: w3_def w4_def)
  have r4: "run_state (run_cleanup E (NsRUnlock b x)) w4 = ((), w4\<lparr>w_ns := w_ns w\<rparr>)"
    using run_runlock [OF w(2), of w4] by (simp add: w3_def w4_def)
  have plan: "reader_plan E X rs (object_info E b x m) fns = Inl e" for fns
    using reader_plan_plain [OF plain rs] by simp
  show ?thesis
    using w(3,5) r1 r2 r(1) r3 r4
    by (simp add: serve_object_def GetObjectNInfo_def open_reader_def NewGetObjectReader_def plan run counted_def [symmetric] w3_def [symmetric])
      (simp add: w4_def w3_def reading_def counted_def touched_def)
qed

end

end
