(* ===== verification/Download_Properties.thy ===== *)
theory Download_Properties
  imports Kinetic_Download
begin

text \<open>
  The properties of downloads, over \<^verbatim>\<open>GetObjectHandler\<close> and \<^verbatim>\<open>Download\<close>, with an instance of each on the
  drive in memory.
\<close>

section \<open>Example objects\<close>

definition no_codec :: "(mem_drive, nat \<times> bool, unit) codec" where
  "no_codec = \<lparr>s2_Open = (\<lambda>kc n off. State_Monad.return (Inl (Lib (ErrOther ''s2'')))),
     DecryptBlocks = (\<lambda>kc n h off len sq ps oi cs skip. State_Monad.return (Inl (Lib (ErrOther ''sio'')))),
     getDecryptedETag = (\<lambda>h oi cs. oi_ETag oi),
     x_Read = (\<lambda>x p. State_Monad.return (x, p, 0, Some (Lib ErrEOF))), x_sio = dare_ops\<rparr>"

definition dl_meta :: "int \<Rightarrow> ObjectPartInfo list \<Rightarrow> fsMetaV1" where
  "dl_meta sz ps = newFSMetaV1\<lparr>fm_Meta := [(''version'', ''00001''), (''size'', FormatInt sz)], fm_Parts := ps\<rparr>"

definition dl_parts :: "ObjectPartInfo list" where
  "dl_parts = [\<lparr>op_ETag = ''e1'', op_Number = 1, op_Size = 3, op_ActualSize = 3\<rparr>,
               \<lparr>op_ETag = ''e2'', op_Number = 2, op_Size = 2, op_ActualSize = 2\<rparr>]"

definition dl_drive :: mem_drive where
  "dl_drive = [(makeKey ''bkt'' ''a'', (Json (dl_meta 5 []), Raw ''hello'')),
     (makeKey ''bkt'' ''m'', (Json (dl_meta 5 dl_parts), Raw [])),
     (makeKey ''bkt'' ''m'' @ ''.00001.00001.e1.3'', (Json (dl_meta 3 []), Raw ''abc'')),
     (makeKey ''bkt'' ''m'' @ ''.00001.00002.e2.2'', (Json (dl_meta 2 []), Raw ''de''))]"

text \<open>The world whose first connection was left with the part counter at \<open>k\<close>.\<close>

definition dl_world :: "int \<Rightarrow> (mem_drive, nat \<times> bool) world" where
  "dl_world k = with_client 0 ((Client0 0)\<lparr>cl_NextPartNumber := k\<rparr>) (mem_world dl_drive)"

lemma slot_new_pool [simp]: "slot new_pool = 0"
proof -
  have "pool_free new_pool" using ready_mem_world [of "[]"] by (simp add: ready_def)
  then have "first_free (kp_inUsed new_pool) = Some (slot new_pool)" by (rule touch_explicit(1))
  moreover have "first_free (kp_inUsed new_pool) = Some 0"
    by (simp add: first_free_def new_pool_def upt_conv_Cons)
  ultimately show ?thesis by simp
qed

lemma dl_world_simps [simp]:
  "w_drive (dl_world k) = dl_drive" "w_ns (dl_world k) = []" "w_readers (dl_world k) = []" "ready (dl_world k)"
  "slot (w_pool (dl_world k)) = 0" "cl_NextPartNumber (client 0 (dl_world k)) = k"
proof -
  show "w_drive (dl_world k) = dl_drive" "w_ns (dl_world k) = []" "w_readers (dl_world k) = []"
    by (simp_all add: dl_world_def)
  show "cl_NextPartNumber (client 0 (dl_world k)) = k"
    by (simp add: dl_world_def client_def with_client_def set_client_def new_pool_def)
  show r: "ready (dl_world k)"
    using ready_mem_world [of dl_drive] by (simp add: dl_world_def with_client_def ready_def set_client_inv)
  have "pool_free (w_pool (mem_world dl_drive))" using ready_mem_world by (simp add: ready_def)
  from touch_explicit(1) [OF this] touch_explicit(1) [of "w_pool (dl_world k)"] r
  show "slot (w_pool (dl_world k)) = 0"
    by (simp add: ready_def dl_world_def with_client_def set_client_inv)
qed

lemma dl_names: "checkGetObjArgs (\<lambda>b. 3 \<le> length b) ''bkt'' ''m'' = None" "\<not> HasSuffix ''m'' SlashSeparator"
  by (simp_all add: names_eval)

lemma dl_lockable: "x = ''a'' \<or> x = ''m'' \<Longrightarrow> file_lockable mem_env (dl_world k) ''bkt'' x"
proof -
  assume x: "x = ''a'' \<or> x = ''m''"
  have v: "IsValidObjectPrefix x" "\<not> HasPrefix x SlashSeparator" "x \<noteq> []" "\<not> HasSuffix x SlashSeparator"
    using x by (auto simp: names_eval)
  have "strings_Split x CHR ''/'' = [x]" using x by auto
  then have "checkPathLength (fsMetaPath ''bkt'' x) = None"
    using x fsMetaPath_length [OF _ _ v, of "''bkt''"] by (auto simp: plain_component_def)
  then show ?thesis by (simp add: file_lockable_def)
qed

lemma dl_requested: "x = ''a'' \<or> x = ''m'' \<Longrightarrow> requested mem_env (dl_world k) ''bkt'' x"
  using dl_lockable [of x k] dl_names example_names by (auto simp: requested_def)

lemma dl_decoded: "mget (fm_Meta (decoded (dl_meta sz ps))) ''size'' = FormatInt sz"
  "mget (fm_Meta (decoded (dl_meta sz ps))) ''version'' = ''00001''" "fm_Parts (dl_meta sz ps) = ps"
  by (simp_all add: decoded_mget dl_meta_def) (simp_all add: mget_def)

lemma dl_size: "fst (ParseInt (FormatInt 5)) = 5"
  by (simp add: ParseInt_FormatInt)

lemma dl_untransformed: "untransformed (object_info mem_env ''bkt'' x (dl_meta sz ps))"
  by (rule untransformed_meta) (simp add: dl_meta_def)

lemma dl_whole: "whole_at mem_env (map_of dl_drive) (makeKey ''bkt'' ''a'') (dl_meta 5 []) ''hello''"
  by (simp add: whole_at_def dl_decoded dl_size nul_free_def) (simp add: dl_drive_def)

lemma dl_parts_at: "parts_at mem_env (map_of dl_drive) (makeKey ''bkt'' ''m'') (dl_meta 5 dl_parts) [''abc'', ''de'']"
proof -
  have "encodePartFile 1 ''e1'' 3 = ''00001.e1.3''" "encodePartFile 2 ''e2'' 2 = ''00002.e2.2''" by code_simp+
  then show ?thesis
    by (simp add: parts_at_def dl_decoded dl_size nul_free_def part_at_def dl_parts_def) (simp add: dl_drive_def makeKey_def dl_parts_def)
qed


section \<open>Objects stored in one piece\<close>

text \<open>C2. A download of an object that was stored in one piece, with or without a range header, sends the client
  exactly the requested bytes, and gives back every lock, the connection and the file reference; nothing on the
  drive changes. One read of the drive and one more for the end of the file are enough.\<close>

theorem download_returns_requested_bytes:
  assumes "kinetic_layer E contents readers writer" "requested E w b x"
    "whole_at E (contents (w_drive w)) (makeKey b x) m bs" "untransformed (object_info E b x m)"
    "wf_rs rs" "GetOffsetLength rs (int (length bs)) = Inr (off, len)" "\<forall>i. werr i = None" "2 \<le> fuel"
  shows "\<exists>w'. run_state (GetObjectHandler fuel E X b x rs h werr) w =
       (Some (None, take (nat len) (drop (nat off) bs)), w') \<and>
     settled w w' \<and> w_drive w' = w_drive w \<and> w_readers w' = w_readers w"
proof -
  let ?B = "nat (int (length bs) + 1)"
  have len: "nat len < ?B" using range_inside [OF assms(5) _ assms(6)] by simp
  have fuel: "(nat len + ?B - 1) div ?B < fuel"
  proof -
    have "nat len + ?B - 1 < 2 * ?B" using len by simp
    then have "(nat len + ?B - 1) div ?B < 2" by (simp add: div_less_iff_less_mult)
    then show ?thesis using assms(8) by simp
  qed
  obtain c' where "run_state (serve_object (\<lambda>sz. sz + 1) fuel E X b x rs h werr) w =
      (Some (None, repeated ?B (nat len) (drop (nat off) bs)), with_client (slot (w_pool w)) c' (touched w))"
    using kinetic_layer.serve_whole [OF assms(1-4) _ assms(5-7), of "\<lambda>sz. sz + 1" fuel X h] fuel by auto
  moreover have "ready w" using assms(2) by (simp add: requested_def)
  ultimately show ?thesis
    using settled_with_client repeated_less [OF len, of "drop (nat off) bs"] by (auto simp: GetObjectHandler_def)
qed

theorem download_returns_requested_bytes_witness:
  "\<exists>w'. run_state (GetObjectHandler 2 mem_env no_codec ''bkt'' ''a''
       (Some \<lparr>IsSuffixLength = False, Start = 1, End = 3\<rparr>) (\<lambda>k. []) (\<lambda>i. None)) (dl_world 0) = (Some (None, ''ell''), w')"
proof -
  let ?rs = "Some \<lparr>IsSuffixLength = False, Start = 1, End = 3\<rparr>"
  have "wf_rs ?rs" "GetOffsetLength ?rs (int (length ''hello'')) = Inr (1, 3)"
    by (simp_all add: wf_rs_def wf_range_def GetOffsetLength_def GetLength_def)
  then show ?thesis
    using download_returns_requested_bytes [OF mem_layer.kinetic_layer_axioms [of base_env] dl_requested,
        of "''a''" 0 "dl_meta 5 []" "''hello''" ?rs 1 3 "\<lambda>i. None" 2 no_codec "\<lambda>k. []"]
      dl_whole dl_untransformed by auto
qed

text \<open>The web download copies an object through a buffer of 32 KiB, and the reader starts every read at the same
  offset: of an object stored in one piece the client receives the first 32 KiB over and over, as many bytes as
  the object has.\<close>

theorem web_download_repeats_first_block:
  assumes "kinetic_layer E contents readers writer" "requested E w b x"
    "whole_at E (contents (w_drive w)) (makeKey b x) m bs" "untransformed (object_info E b x m)"
    "\<forall>i. werr i = None" "(length bs + 32767) div 32768 < fuel"
  shows "\<exists>w'. run_state (Download fuel E X b x h werr) w =
       (Some (None, concat (replicate (length bs div 32768) (take 32768 bs)) @ take (length bs mod 32768) bs), w')"
proof -
  have "(nat (int (length bs)) + nat 32768 - 1) div nat 32768 < fuel" using assms(6) by (simp add: add.commute)
  then show ?thesis
    using kinetic_layer.serve_whole [OF assms(1-4) _ _ _ assms(5), of "\<lambda>sz. 32768" None 0 "int (length bs)" fuel X h]
    by (auto simp: Download_def wf_rs_def GetOffsetLength_def repeated_def)
qed

theorem web_download_repeats_first_block_witness:
  "\<exists>w'. run_state (Download 2 mem_env no_codec ''bkt'' ''a'' (\<lambda>k. []) (\<lambda>i. None)) (dl_world 0) = (Some (None, ''hello''), w')"
  using web_download_repeats_first_block [OF mem_layer.kinetic_layer_axioms [of base_env] dl_requested,
      of "''a''" 0 "dl_meta 5 []" "''hello''" "\<lambda>i. None" 2 no_codec "\<lambda>k. []"] dl_whole dl_untransformed by auto

section \<open>Objects stored in parts\<close>

lemma requested_again: "requested E w b x \<Longrightarrow> requested E (with_client kc c (touched w)) b x"
  using settled_with_client [of w kc c] by (auto simp: requested_def settled_def file_lockable_def)

lemma client_again:
  "ready w \<Longrightarrow> client (slot (w_pool (with_client (slot (w_pool w)) c (touched w)))) (with_client (slot (w_pool w)) c (touched w)) = c"
proof -
  assume w: "ready w"
  then have p: "pool_free (w_pool w)" by (simp add: ready_def)
  have "connected (slot (w_pool w)) (touched w)"
    using taken_explicit(2) [OF p] touch_explicit(2) [OF p] by (simp add: connected_def touched_def)
  then show ?thesis using slot_with_client [OF w] by simp
qed

text \<open>C18. A download of an object stored in parts starts with the part that the counter of its connection names, and
  goes around: the client receives the parts rotated by the counter, hence the object itself if the counter is
  zero, and the counter has the same value afterwards.\<close>

theorem multipart_download_rotated:
  assumes "kinetic_layer E contents readers writer" "requested E w b x"
    "parts_at E (contents (w_drive w)) (makeKey b x) m bodies" "untransformed (object_info E b x m)"
    "\<forall>i. werr i = None" "cl_NextPartNumber (client (slot (w_pool w)) w) = int k" "k < length bodies"
    "length bodies < fuel"
  shows "\<exists>w'. run_state (GetObjectHandler fuel E X b x None h werr) w = (Some (None, concat (rotate k bodies)), w') \<and>
     settled w w' \<and> w_drive w' = w_drive w \<and> w_readers w' = w_readers w \<and>
     cl_NextPartNumber (client (slot (w_pool w')) w') = int k"
proof -
  have w: "ready w" using assms(2) by (simp add: requested_def)
  obtain c' where "run_state (serve_object (\<lambda>sz. sz + 1) fuel E X b x None h werr) w =
       (Some (None, concat (rotate k bodies)), with_client (slot (w_pool w)) c' (touched w))" "cl_NextPartNumber c' = int k"
    using kinetic_layer.serve_parts [OF assms, of X h] by blast
  then show ?thesis
    using settled_with_client [OF w] client_again [OF w, of c'] by (auto simp: GetObjectHandler_def)
qed

theorem multipart_download_rotated_witness:
  "(\<exists>w'. run_state (GetObjectHandler 3 mem_env no_codec ''bkt'' ''m'' None (\<lambda>k. []) (\<lambda>i. None)) (dl_world 0) =
      (Some (None, ''abcde''), w')) \<and>
   (\<exists>w'. run_state (GetObjectHandler 3 mem_env no_codec ''bkt'' ''m'' None (\<lambda>k. []) (\<lambda>i. None)) (dl_world 1) =
      (Some (None, ''deabc''), w'))"
  using multipart_download_rotated [OF mem_layer.kinetic_layer_axioms [of base_env] dl_requested,
      of "''m''" 0 "dl_meta 5 dl_parts" "[''abc'', ''de'']" "\<lambda>i. None" 0 3 no_codec "\<lambda>k. []"]
    multipart_download_rotated [OF mem_layer.kinetic_layer_axioms [of base_env] dl_requested,
      of "''m''" 1 "dl_meta 5 dl_parts" "[''abc'', ''de'']" "\<lambda>i. None" 1 3 no_codec "\<lambda>k. []"]
    dl_parts_at dl_untransformed by auto

text \<open>C38. A range request inside the first part of an object stored in parts is answered with the right bytes, but leaves
  the counter of the connection at the second part: the next download of the whole object starts there, and the
  client receives the first part last.\<close>

theorem range_request_shifts_downloads:
  assumes "kinetic_layer E contents readers writer" "requested E w b x"
    "parts_at E (contents (w_drive w)) (makeKey b x) m bodies" "untransformed (object_info E b x m)"
    "\<forall>i. werr i = None" "cl_NextPartNumber (client (slot (w_pool w)) w) = 0" "1 < length bodies" "length bodies < fuel"
    "wf_range hs" "GetOffsetLength (Some hs) (int (length (concat bodies))) = Inr (off, len)" "0 < len"
    "off + len \<le> int (length (bodies ! 0))"
  shows "\<exists>w' w''. run_state (GetObjectHandler fuel E X b x (Some hs) h werr) w =
       (Some (None, take (nat len) (drop (nat off) (concat bodies))), w') \<and>
     run_state (GetObjectHandler fuel E X b x None h werr) w' = (Some (None, concat (tl bodies) @ hd bodies), w'')"
proof -
  have w: "ready w" using assms(2) by (simp add: requested_def)
  define f where "f = fuel - 2"
  have f: "fuel = Suc (Suc f)" using assms(7,8) by (simp add: f_def)
  have ne: "bodies \<noteq> []" using assms(7) by auto
  have k0: "cl_NextPartNumber (client (slot (w_pool w)) w) = int 0" "0 < length bodies" using assms(6,7) by auto
  have inside: "0 \<le> off" using range_inside [of "Some hs", OF _ _ assms(10)] assms(9) by (simp add: wf_rs_def)
  obtain c' where r: "run_state (serve_object (\<lambda>sz. sz + 1) fuel E X b x (Some hs) h werr) w =
       (Some (None, take (nat len) (drop (nat off) (bodies ! 0))), with_client (slot (w_pool w)) c' (touched w))"
     "cl_NextPartNumber c' = int (next_part (length bodies) 0)"
    using kinetic_layer.serve_range_part [OF assms(1-5) k0 assms(9-12), of f X h] unfolding f by blast
  let ?w = "with_client (slot (w_pool w)) c' (touched w)"
  have c': "cl_NextPartNumber (client (slot (w_pool ?w)) ?w) = int 1"
    using r(2) client_again [OF w, of c'] assms(7) by (simp add: next_part_def)
  have d: "parts_at E (contents (w_drive ?w)) (makeKey b x) m bodies" using assms(3) by simp
  obtain w'' where r2: "run_state (serve_object (\<lambda>sz. sz + 1) fuel E X b x None h werr) ?w =
       (Some (None, concat (rotate 1 bodies)), w'')"
    using kinetic_layer.serve_parts [OF assms(1) requested_again [OF assms(2)] d assms(4,5) c' assms(7,8), of X h] by blast
  have "take (nat len) (drop (nat off) (bodies ! 0)) = take (nat len) (drop (nat off) (concat bodies))"
  proof -
    have l: "nat off + nat len \<le> length (hd bodies)" using assms(11,12) inside ne by (simp add: hd_conv_nth)
    have "concat bodies = hd bodies @ concat (tl bodies)" using ne by (cases bodies) simp_all
    then show ?thesis using l ne by (simp add: hd_conv_nth)
  qed
  moreover have "concat (rotate 1 bodies) = concat (tl bodies) @ hd bodies"
    using ne by (cases bodies) auto
  ultimately show ?thesis using r(1) r2 unfolding GetObjectHandler_def by metis
qed

theorem range_request_shifts_downloads_witness:
  "\<exists>w' w''. run_state (GetObjectHandler 3 mem_env no_codec ''bkt'' ''m''
       (Some \<lparr>IsSuffixLength = False, Start = 0, End = 1\<rparr>) (\<lambda>k. []) (\<lambda>i. None)) (dl_world 0) = (Some (None, ''ab''), w') \<and>
     run_state (GetObjectHandler 3 mem_env no_codec ''bkt'' ''m'' None (\<lambda>k. []) (\<lambda>i. None)) w' = (Some (None, ''deabc''), w'')"
proof -
  let ?h = "\<lparr>IsSuffixLength = False, Start = 0, End = 1\<rparr>"
  have "wf_range ?h" "GetOffsetLength (Some ?h) (int (length (concat [''abc'', ''de'']))) = Inr (0, 2)"
    by (simp_all add: wf_range_def GetOffsetLength_def GetLength_def)
  then show ?thesis
    using range_request_shifts_downloads [OF mem_layer.kinetic_layer_axioms [of base_env] dl_requested,
      of "''m''" 0 "dl_meta 5 dl_parts" "[''abc'', ''de'']" "\<lambda>i. None" 3 ?h 0 2 no_codec "\<lambda>k. []"]
      dl_parts_at dl_untransformed by simp
qed

text \<open>C40. If the counter of the connection is behind the last part of the object, as an interrupted download of an object
  with more parts leaves it, the download never ends: the reader returns no bytes and no error for ever.\<close>

theorem stale_counter_never_ends:
  assumes "kinetic_layer E contents readers writer" "requested E w b x"
    "parts_at E (contents (w_drive w)) (makeKey b x) m bodies" "untransformed (object_info E b x m)"
    "int (length bodies) \<le> cl_NextPartNumber (client (slot (w_pool w)) w)"
  shows "fst (run_state (GetObjectHandler fuel E X b x None h werr) w) = None"
  using kinetic_layer.serve_stale [OF assms] by (simp add: GetObjectHandler_def)

theorem stale_counter_never_ends_witness:
  "\<forall>fuel. fst (run_state (GetObjectHandler fuel mem_env no_codec ''bkt'' ''m'' None (\<lambda>k. []) (\<lambda>i. None)) (dl_world 2)) = None"
proof
  fix fuel
  show "fst (run_state (GetObjectHandler fuel mem_env no_codec ''bkt'' ''m'' None (\<lambda>k. []) (\<lambda>i. None)) (dl_world 2)) = None"
    using stale_counter_never_ends [OF mem_layer.kinetic_layer_axioms [of base_env] dl_requested,
      of "''m''" 2 "dl_meta 5 dl_parts" "[''abc'', ''de'']" fuel no_codec "\<lambda>k. []" "\<lambda>i. None"]
      dl_parts_at dl_untransformed by simp
qed

section \<open>Requests that are refused\<close>

definition refusal :: "('d, 'm) env \<Rightarrow> kstore \<Rightarrow> string \<Rightarrow> string \<Rightarrow> HTTPRangeSpec option \<Rightarrow> error \<Rightarrow> bool" where
  "refusal E s b x rs err =
     (s (C_CString (makeKey b x)) = None \<and> err = Name (ObjectNotFound b x) \<or>
      (\<exists>m v. s (C_CString (makeKey b x)) = Some (Json m, v) \<and> fits16 E (Json m) \<and>
         untransformed (object_info E b x m) \<and> GetOffsetLength rs (oi_Size (object_info E b x m)) = Inl err))"

text \<open>C26. An object that does not exist is reported as not found, and a range that selects nothing as the error of the range
  computation; in both cases the client receives no byte and every lock is given back.\<close>

theorem refused_download_releases_locks:
  assumes "kinetic_layer E contents readers writer" "requested E w b x" "refusal E (contents (w_drive w)) b x rs err"
  shows "\<exists>w'. run_state (GetObjectHandler fuel E X b x rs h werr) w = (Some (Some err, []), w') \<and>
     settled w w' \<and> w_drive w' = w_drive w"
proof -
  have w: "ready w" "fresh (w_ns w) b x" "checkGetObjArgs (e_valid_bucket E) b x = None" "b \<noteq> []"
    using assms(2) by (auto simp: requested_def)
  have "run_state (serve_object (\<lambda>sz. sz + 1) fuel E X b x rs h werr) w = (Some (Some err, []), touched w)"
    using assms(3) kinetic_layer.serve_missing [OF assms(1) w, of "\<lambda>sz. sz + 1" fuel X rs h werr]
      kinetic_layer.serve_bad_range [OF assms(1,2), of _ _ rs err "\<lambda>sz. sz + 1" fuel X h werr]
    unfolding refusal_def by blast
  then show ?thesis using settled_touched [OF w(1)] by (simp add: GetObjectHandler_def)
qed

theorem refused_download_releases_locks_witness:
  "\<exists>w'. run_state (GetObjectHandler 2 mem_env no_codec ''bkt'' ''a''
       (Some \<lparr>IsSuffixLength = False, Start = 9, End = 12\<rparr>) (\<lambda>k. []) (\<lambda>i. None)) (dl_world 0) =
     (Some (Some (Storage errInvalidRange), []), w')"
proof -
  let ?rs = "Some \<lparr>IsSuffixLength = False, Start = 9, End = 12\<rparr>"
  have "refusal mem_env (map_of dl_drive) ''bkt'' ''a'' ?rs (Storage errInvalidRange)"
    using dl_whole dl_untransformed [of "''a''" 5 "[]"] unfolding refusal_def
    by (intro disjI2 exI [of _ "dl_meta 5 []"] exI [of _ "Raw ''hello''"])
      (simp add: whole_at_def object_info_size GetOffsetLength_def GetLength_def)
  then show ?thesis
    using refused_download_releases_locks [OF mem_layer.kinetic_layer_axioms [of base_env] dl_requested,
        of "''a''" 0 ?rs "Storage errInvalidRange" 2 no_codec "\<lambda>k. []" "\<lambda>i. None"] by auto
qed

text \<open>An object one of whose name's segments has more than 255 bytes cannot be downloaded, whatever is stored: the name
  is reported as invalid, because the path of a file that is never written is checked.\<close>

theorem long_segment_not_served:
  assumes "kinetic_layer E contents readers writer" "ready w" "fresh (w_ns w) b x"
    "checkGetObjArgs (e_valid_bucket E) b x = None" "plain_component b" "length b \<le> 255" "b \<noteq> ''.minio.sys''"
    "IsValidObjectPrefix x" "\<not> HasPrefix x SlashSeparator" "x \<noteq> []" "\<not> HasSuffix x SlashSeparator"
    "contents (w_drive w) (C_CString (makeKey b x)) = Some (Json m, v)" "fits16 E (Json m)"
    "\<exists>c \<in> set (strings_Split x CHR ''/''). 255 < length c"
  shows "run_state (GetObjectHandler fuel E X b x rs h werr) w = (Some (Some (Name (ObjectNameInvalid b x)), []), touched w)"
proof -
  have b: "b \<noteq> []" using assms(5) by (auto simp: plain_component_def)
  have "checkPathLength (fsMetaPath b x) = Some (Storage errFileNameTooLong)"
    using fsMetaPath_length [OF assms(5,6,8-11)] assms(14) by simp
  from kinetic_layer.serve_unopened [OF assms(1-4) b assms(7,11-13) this] show ?thesis
    by (simp add: GetObjectHandler_def toObjectErr_def)
qed


lemma plain_name:
  fixes x :: string
  assumes set: "set x = {CHR ''z''}"
  shows "IsValidObjectPrefix x" "\<not> HasPrefix x SlashSeparator" "x \<noteq> []" "\<not> HasSuffix x SlashSeparator"
    "strings_Split x CHR ''/'' = [x]" "nul_free x"
proof -
  have infix_free: "x \<noteq> l @ t @ r" if "CHR ''z'' \<notin> set t" "t \<noteq> []" for l t r
  proof
    assume "x = l @ t @ r"
    then have "set t \<subseteq> set x" by fastforce
    then show False unfolding set using that by (cases t) simp_all
  qed
  have slash: "CHR ''/'' \<notin> set x" and "CHR 0x00 \<notin> set x" and graph: "list_all graph_char x"
    by (simp_all add: set list_all_iff graph_char_def byte_def)
  then show "nul_free x" by (simp add: nul_free_def)
  show sp: "strings_Split x CHR ''/'' = [x]" using slash by (rule Split_no_sep)
  have dots: "x \<noteq> ''.''" "x \<noteq> ''..''" using infix_free [of "''.''" "[]" "[]"] infix_free [of "''..''" "[]" "[]"] by simp_all
  have "\<not> strings_Contains x ''//''" unfolding Contains_iff using infix_free [of "''//''"] by simp
  then show "IsValidObjectPrefix x" using dots unfolding IsValidObjectPrefix_graph [OF graph] sp by simp
  show "x \<noteq> []" using set by (cases x) simp_all
  show "\<not> HasPrefix x SlashSeparator" "\<not> HasSuffix x SlashSeparator"
    unfolding HasPrefix_def HasSuffix_def HasSuffix_iff HasPrefix_iff_prefix prefix_def
    using infix_free [of SlashSeparator "[]"] infix_free [of SlashSeparator _ "[]"] by simp_all
qed

definition long_name :: string where
  "long_name = replicate 300 CHR ''z''"

lemma long_name_chars: "set long_name = {CHR ''z''}" "length long_name = 300"
  by (simp_all add: long_name_def)

lemmas long_name_ok = plain_name [OF long_name_chars(1)] long_name_chars(2)

theorem long_segment_not_served_witness:
  "run_state (GetObjectHandler 2 mem_env no_codec ''bkt'' long_name None (\<lambda>k. []) (\<lambda>i. None))
     (mem_world [(makeKey ''bkt'' long_name, (Json (dl_meta 5 []), Raw ''hello''))]) =
   (Some (Some (Name (ObjectNameInvalid ''bkt'' long_name)), []),
    touched (mem_world [(makeKey ''bkt'' long_name, (Json (dl_meta 5 []), Raw ''hello''))]))"
proof (rule long_segment_not_served [OF mem_layer.kinetic_layer_axioms [of base_env]])
  show "checkGetObjArgs (e_valid_bucket mem_env) ''bkt'' long_name = None"
    using long_name_ok by (simp add: checkGetObjArgs_def checkBucketAndObjectNames_def)
  show "map_of (w_drive (mem_world [(makeKey ''bkt'' long_name, (Json (dl_meta 5 []), Raw ''hello''))]))
      (C_CString (makeKey ''bkt'' long_name)) = Some (Json (dl_meta 5 []), Raw ''hello'')"
    using long_name_ok(6) by (simp add: nul_free_def)
  show "\<exists>c \<in> set (strings_Split long_name CHR ''/''). 255 < length c" using long_name_ok(5,7) by simp
qed (use long_name_ok in \<open>simp_all add: plain_component_def\<close>)

end
