(* ===== verification/Wildcard.thy ===== *)
theory Wildcard
  imports Go_Text Object_Errors
begin

text \<open>
  The pattern matcher of \<^verbatim>\<open>pkg/wildcard/match.go\<close>: \<^verbatim>\<open>deepMatchRune\<close>, \<^verbatim>\<open>MatchSimple\<close> and \<^verbatim>\<open>Match\<close>, on the
  runes of pattern and name. The slice expression \<^verbatim>\<open>str[1:]\<close> panics on an empty slice, so the result is a
  sum.

  \<open>glob_match\<close> says declaratively which names a pattern denotes. The lemmas show that \<^verbatim>\<open>Match\<close> never panics and
  decides it, and that \<^verbatim>\<open>MatchSimple\<close> does so for patterns without a question mark.
\<close>

abbreviation (input) QUESTION :: rune where "QUESTION \<equiv> 63"
abbreviation (input) STAR :: rune where "STAR \<equiv> 42"

abbreviation tailPanic :: error where "tailPanic \<equiv> GoPanic ''slice bounds out of range''"

fun deepMatchRune :: "rune list \<Rightarrow> rune list \<Rightarrow> bool \<Rightarrow> error + bool" where
  "deepMatchRune str [] simple = Inr (length str = 0)"
| "deepMatchRune str (p # pattern) simple =
     (if p = QUESTION then
        (if length str = 0 \<and> \<not> simple then Inr False
         else (case str of [] \<Rightarrow> Inl tailPanic | _ # str' \<Rightarrow> deepMatchRune str' pattern simple))
      else if p = STAR then
        (case deepMatchRune str pattern simple of
           Inl e \<Rightarrow> Inl e
         | Inr True \<Rightarrow> Inr True
         | Inr False \<Rightarrow> (case str of [] \<Rightarrow> Inr False | _ # str' \<Rightarrow> deepMatchRune str' (p # pattern) simple))
      else (case str of
           [] \<Rightarrow> Inr False
         | c # str' \<Rightarrow> if c \<noteq> p then Inr False else deepMatchRune str' pattern simple))"

definition MatchSimple :: "string \<Rightarrow> string \<Rightarrow> error + bool" where
  "MatchSimple pattern name =
     (if pattern = [] then Inr (name = pattern)
      else if pattern = ''*'' then Inr True
      else deepMatchRune (runes name) (runes pattern) True)"

definition Match :: "string \<Rightarrow> string \<Rightarrow> error + bool" where
  "Match pattern name =
     (if pattern = [] then Inr (name = pattern)
      else if pattern = ''*'' then Inr True
      else deepMatchRune (runes name) (runes pattern) False)"

section \<open>What a pattern denotes\<close>

lemma runes_Cons_ascii: "byte c < 128 \<Longrightarrow> runes (c # s) = byte c # runes s"
  by (simp add: DecodeRune_ascii)

declare runes.simps(2) [simp del] runes_Cons_ascii [simp]

inductive glob_match :: "rune list \<Rightarrow> rune list \<Rightarrow> bool" where
  glob_end: "glob_match [] []"
| glob_rune: "p \<noteq> QUESTION \<Longrightarrow> p \<noteq> STAR \<Longrightarrow> glob_match pat s \<Longrightarrow> glob_match (p # pat) (p # s)"
| glob_any: "glob_match pat s \<Longrightarrow> glob_match (QUESTION # pat) (c # s)"
| glob_star: "glob_match pat s \<Longrightarrow> glob_match (STAR # pat) (pre @ s)"

inductive_simps glob_Nil [simp]: "glob_match [] s"
inductive_simps glob_Cons: "glob_match (p # pat) s"

lemma glob_rune_iff [simp]:
  assumes "p \<noteq> QUESTION" "p \<noteq> STAR"
  shows "glob_match (p # pat) s \<longleftrightarrow> (\<exists>s'. s = p # s' \<and> glob_match pat s')"
  using assms by (auto simp: glob_Cons)

lemma glob_any_iff [simp]: "glob_match (QUESTION # pat) s \<longleftrightarrow> (\<exists>c s'. s = c # s' \<and> glob_match pat s')"
  by (auto simp: glob_Cons)

lemma glob_star_iff: "glob_match (STAR # pat) s \<longleftrightarrow> (\<exists>pre s'. s = pre @ s' \<and> glob_match pat s')"
  by (auto simp: glob_Cons)

text \<open>The two ways the code looks at a star: it stands for nothing, or takes one more rune.\<close>

lemma glob_star_step:
  "glob_match (STAR # pat) s \<longleftrightarrow> glob_match pat s \<or> (\<exists>c s'. s = c # s' \<and> glob_match (STAR # pat) s')"
proof
  assume "glob_match (STAR # pat) s"
  then obtain pre s' where s: "s = pre @ s'" "glob_match pat s'" unfolding glob_star_iff by blast
  then show "glob_match pat s \<or> (\<exists>c s'. s = c # s' \<and> glob_match (STAR # pat) s')"
    by (cases pre) (auto simp: glob_star_iff)
next
  assume "glob_match pat s \<or> (\<exists>c s'. s = c # s' \<and> glob_match (STAR # pat) s')"
  then show "glob_match (STAR # pat) s"
    unfolding glob_star_iff by (metis append_Cons append_Nil)
qed

lemma deepMatchRune_glob:
  assumes "simple \<longrightarrow> QUESTION \<notin> set pattern"
  shows "deepMatchRune str pattern simple = Inr (glob_match pattern str)"
  using assms
proof (induction str pattern simple rule: deepMatchRune.induct)
  case (1 str simple)
  then show ?case by simp
next
  case (2 str p pattern simple)
  show ?case
  proof (cases "p = STAR")
    case True
    then have "deepMatchRune str pattern simple = Inr (glob_match pattern str)"
      "\<And>c str'. str = c # str' \<Longrightarrow> \<not> glob_match pattern str \<Longrightarrow>
         deepMatchRune str' (p # pattern) simple = Inr (glob_match (p # pattern) str')"
      using 2 by auto
    then show ?thesis using True glob_star_step [of pattern str]
      by (auto split: bool.split list.split)
  next
    case False
    then show ?thesis using 2 by (auto split: list.split)
  qed
qed

lemma Match_glob: "Match pattern name = Inr (glob_match (runes pattern) (runes name))"
proof -
  have "runes ''*'' = [STAR]" by (simp add: byte_def)
  moreover have "glob_match [STAR] s" for s using glob_star [OF glob_end, of s] by simp
  ultimately show ?thesis by (auto simp: Match_def deepMatchRune_glob)
qed

lemma MatchSimple_glob:
  assumes "QUESTION \<notin> set (runes pattern)"
  shows "MatchSimple pattern name = Inr (glob_match (runes pattern) (runes name))"
  using assms Match_glob [of pattern name]
  by (auto simp: MatchSimple_def Match_def deepMatchRune_glob split: if_splits)

text \<open>C16. A pattern is matched exactly by the names it denotes: a question mark stands for one rune, a star for
  any sequence of runes, and every other rune for itself. The simple matcher agrees on patterns without a
  question mark. A question mark is not an ordinary rune for it, as its comment says: it stands for one rune,
  and makes it panic at the end of the name.\<close>

theorem wildcard_matches_denoted_names:
  "Match pattern name = Inr (glob_match (runes pattern) (runes name)) \<and>
   (QUESTION \<notin> set (runes pattern) \<longrightarrow> MatchSimple pattern name = Match pattern name) \<and>
   MatchSimple ''a?'' ''ab'' = Inr True \<and> MatchSimple ''a?'' ''a'' = Inl tailPanic"
  using MatchSimple_glob [of pattern name] Match_glob [of pattern name]
  by (simp add: MatchSimple_def byte_def)

theorem wildcard_matches_denoted_names_witness:
  "QUESTION \<notin> set (runes ''bucket/*.txt'') \<and>
   Match ''bucket/*.txt'' ''bucket/a/b.txt'' = Inr (glob_match (runes ''bucket/*.txt'') (runes ''bucket/a/b.txt'')) \<and>
   MatchSimple ''bucket/*.txt'' ''bucket/a/b.txt'' = Match ''bucket/*.txt'' ''bucket/a/b.txt''"
proof -
  have "QUESTION \<notin> set (runes ''bucket/*.txt'')" by (simp add: byte_def)
  then show ?thesis using wildcard_matches_denoted_names [of "''bucket/*.txt''" "''bucket/a/b.txt''"] by simp
qed

end
