(* ===== verification/Policy_Conditions.thy ===== *)
theory Policy_Conditions
  imports Wildcard "HOL-Library.Word"
begin

text \<open>
  The conditions of policy statements, \<^verbatim>\<open>pkg/bucket/policy/condition\<close>: keys, values, the eleven condition functions
  with their construction from decoded JSON, and their evaluation on the values of a request.

  A \<^verbatim>\<open>map[string][]string\<close> is an association list. The sets of strings come from the package
  \<^verbatim>\<open>github.com/minio/minio-go/v6/pkg/set\<close>: a \<^verbatim>\<open>StringSet\<close> is the list of its elements in some order, and the
  methods are parameters (\<open>policy_lib\<close>) whose documented behaviour is stated in the locale \<open>string_sets\<close>. The
  same record holds the bucket name check of minio-go and what the code takes from \<^verbatim>\<open>net\<close>, \<^verbatim>\<open>encoding/base64\<close> and
  the Unicode tables. Testing an address against a network is modelled on the bytes of both.

  Evaluation can panic: on an address that does not parse, and on the first element of an empty list. The
  locale shows when it does not, and what it then decides (\<open>holds\<close>).
\<close>

unbundle bit_operations_syntax

section \<open>From the standard library\<close>

text \<open>\<^verbatim>\<open>strings.Replace(s, old, new, -1)\<close> for a non-empty \<open>old\<close>, the only use in the code.\<close>

function strings_ReplaceAll :: "string \<Rightarrow> string \<Rightarrow> string \<Rightarrow> string" where
  "strings_ReplaceAll [] old new = []"
| "strings_ReplaceAll (c # s) old new =
     (if strings_HasPrefix (c # s) old then new @ strings_ReplaceAll (drop (length old - 1) s) old new
      else c # strings_ReplaceAll s old new)"
  by pat_completeness auto

termination
  by (relation "measure (length \<circ> fst)") auto

text \<open>\<^verbatim>\<open>http.CanonicalHeaderKey\<close>: the first letter and every letter after a hyphen in upper case, the others in
  lower case; a string that is not a header key is left alone.\<close>

definition validHeaderFieldByte :: "char \<Rightarrow> bool" where
  "validHeaderFieldByte c =
     (c \<in> set ''!#$%&*+-.^_`|~'' \<or> byte c = 39 \<or>
      (48 \<le> byte c \<and> byte c \<le> 57) \<or> (65 \<le> byte c \<and> byte c \<le> 90) \<or> (97 \<le> byte c \<and> byte c \<le> 122))"

definition to_upper :: "char \<Rightarrow> char" where
  "to_upper c = (if 97 \<le> byte c \<and> byte c \<le> 122 then char_of (byte c - 32) else c)"

definition to_lower :: "char \<Rightarrow> char" where
  "to_lower c = (if 65 \<le> byte c \<and> byte c \<le> 90 then char_of (byte c + 32) else c)"

fun canonical_loop :: "bool \<Rightarrow> string \<Rightarrow> string" where
  "canonical_loop upper [] = []"
| "canonical_loop upper (c # s) = (if upper then to_upper c else to_lower c) # canonical_loop (c = CHR ''-'') s"

definition CanonicalHeaderKey :: "string \<Rightarrow> string" where
  "CanonicalHeaderKey s = (if list_all validHeaderFieldByte s then canonical_loop True s else s)"

definition ParseBool :: "string \<Rightarrow> bool option" where
  "ParseBool s =
     (if s \<in> {''1'', ''t'', ''T'', ''true'', ''TRUE'', ''True''} then Some True
      else if s \<in> {''0'', ''f'', ''F'', ''false'', ''FALSE'', ''False''} then Some False
      else None)"

definition FormatBool :: "bool \<Rightarrow> string" where
  "FormatBool b = (if b then ''true'' else ''false'')"

text \<open>How \<^verbatim>\<open>fmt\<close> prints a slice of strings.\<close>

definition fmt_slice :: "string list \<Rightarrow> string" where
  "fmt_slice xs = ''['' @ strings_Join xs CHR '' '' @ '']''"

text \<open>\<^verbatim>\<open>net.IPNet.Contains\<close>. An address has 4 or 16 bytes.\<close>

type_synonym IP = "8 word list"

record IPNet =
  net_IP :: IP
  net_Mask :: IP

definition To4 :: "IP \<Rightarrow> IP option" where
  "To4 ip =
     (if length ip = 4 then Some ip
      else if length ip = 16 \<and> take 12 ip = replicate 10 0 @ [0xFF, 0xFF] then Some (drop 12 ip)
      else None)"

definition networkNumberAndMask :: "IPNet \<Rightarrow> IP \<times> IP" where
  "networkNumberAndMask n =
     (let ip = (case To4 (net_IP n) of Some x \<Rightarrow> x | None \<Rightarrow> net_IP n);
          m = net_Mask n
      in if length ip \<noteq> 4 \<and> length ip \<noteq> 16 then ([], [])
         else if length m = 4 then (if length ip \<noteq> 4 then ([], []) else (ip, m))
         else if length m = 16 then (ip, if length ip = 4 then drop 12 m else m)
         else ([], []))"

definition IPNet_Contains :: "IPNet \<Rightarrow> IP \<Rightarrow> bool" where
  "IPNet_Contains n ip =
     (let (nn, m) = networkNumberAndMask n;
          ip = (case To4 ip of Some x \<Rightarrow> x | None \<Rightarrow> ip)
      in length ip = length nn \<and> list_all (\<lambda>i. nn ! i AND m ! i = ip ! i AND m ! i) [0..<length ip])"

section \<open>Third-party code\<close>

type_synonym StringSet = "string list"

record policy_lib =
  CreateStringSet :: "string list \<Rightarrow> StringSet"
  set_Add :: "string \<Rightarrow> StringSet \<Rightarrow> StringSet"
  set_Remove :: "string \<Rightarrow> StringSet \<Rightarrow> StringSet"
  ApplyFunc :: "(string \<Rightarrow> string) \<Rightarrow> StringSet \<Rightarrow> StringSet"
  Intersection :: "StringSet \<Rightarrow> StringSet \<Rightarrow> StringSet"
  FuncMatch :: "(string \<Rightarrow> string \<Rightarrow> bool) \<Rightarrow> string \<Rightarrow> StringSet \<Rightarrow> StringSet"
  set_Equals :: "StringSet \<Rightarrow> StringSet \<Rightarrow> bool"
  set_Difference :: "StringSet \<Rightarrow> StringSet \<Rightarrow> StringSet"
  set_Contains :: "StringSet \<Rightarrow> string \<Rightarrow> bool"
  ToSlice :: "StringSet \<Rightarrow> string list"
  CheckValidBucketName :: "string \<Rightarrow> bool"
  ParseIP :: "string \<Rightarrow> IP option"
  ParseCIDR :: "string \<Rightarrow> IPNet option"
  IPNet_String :: "IPNet \<Rightarrow> string"
  base64_Decode :: "string \<Rightarrow> string option"
  base64_Encode :: "string \<Rightarrow> string"
  simple_fold :: "rune \<Rightarrow> rune"

text \<open>\<^verbatim>\<open>strings.EqualFold\<close>, with a representative of the runes that fold to each other.\<close>

definition EqualFold :: "policy_lib \<Rightarrow> string \<Rightarrow> string \<Rightarrow> bool" where
  "EqualFold L s t = (map (simple_fold L) (runes s) = map (simple_fold L) (runes t))"

locale string_sets =
  fixes L :: policy_lib
  assumes create: "set (CreateStringSet L xs) = set xs"
    and add: "set (set_Add L x s) = insert x (set s)"
    and remove: "set (set_Remove L x s) = set s - {x}"
    and apply_func: "set (ApplyFunc L f s) = f ` set s"
    and intersection: "set (Intersection L s t) = set s \<inter> set t"
    and func_match: "set (FuncMatch L g x s) = {k \<in> set s. g k x}"
    and equals: "set_Equals L s t \<longleftrightarrow> set s = set t"
    and difference: "set (set_Difference L s t) = set s - set t"
    and contains: "set_Contains L s x \<longleftrightarrow> x \<in> set s"
    and to_slice: "set (ToSlice L s) = set s"

section \<open>Keys\<close>

type_synonym Key = string
type_synonym values_map = "(string \<times> string list) list"

abbreviation S3XAmzCopySource :: Key where "S3XAmzCopySource \<equiv> ''s3:x-amz-copy-source''"
abbreviation S3XAmzServerSideEncryption :: Key where
  "S3XAmzServerSideEncryption \<equiv> ''s3:x-amz-server-side-encryption''"
abbreviation S3XAmzServerSideEncryptionCustomerAlgorithm :: Key where
  "S3XAmzServerSideEncryptionCustomerAlgorithm \<equiv> ''s3:x-amz-server-side-encryption-customer-algorithm''"
abbreviation S3XAmzMetadataDirective :: Key where "S3XAmzMetadataDirective \<equiv> ''s3:x-amz-metadata-directive''"
abbreviation S3XAmzStorageClass :: Key where "S3XAmzStorageClass \<equiv> ''s3:x-amz-storage-class''"
abbreviation S3LocationConstraint :: Key where "S3LocationConstraint \<equiv> ''s3:LocationConstraint''"
abbreviation S3Prefix :: Key where "S3Prefix \<equiv> ''s3:prefix''"
abbreviation S3Delimiter :: Key where "S3Delimiter \<equiv> ''s3:delimiter''"
abbreviation S3MaxKeys :: Key where "S3MaxKeys \<equiv> ''s3:max-keys''"
abbreviation AWSSourceIP :: Key where "AWSSourceIP \<equiv> ''aws:SourceIp''"
abbreviation AWSSecureTransport :: Key where "AWSSecureTransport \<equiv> ''aws:SecureTransport''"

definition JWTKeys :: "Key list" where
  "JWTKeys =
     [''jwt:sub'', ''jwt:iss'', ''jwt:aud'', ''jwt:jti'', ''jwt:name'', ''jwt:given_name'', ''jwt:family_name'',
      ''jwt:middle_name'', ''jwt:nickname'', ''jwt:preferred_username'', ''jwt:profile'', ''jwt:picture'',
      ''jwt:website'', ''jwt:email'', ''jwt:gender'', ''jwt:birthdate'', ''jwt:phone_number'', ''jwt:address'',
      ''jwt:scope'', ''jwt:client_id'']"

definition CommonKeys :: "Key list" where
  "CommonKeys =
     [''aws:Referer'', AWSSourceIP, ''aws:UserAgent'', AWSSecureTransport, ''aws:CurrentTime'', ''aws:EpochTime'',
      ''aws:principaltype'', ''aws:userid'', ''aws:username''] @ JWTKeys"

definition AllSupportedKeys :: "Key list" where
  "AllSupportedKeys =
     [S3XAmzCopySource, S3XAmzServerSideEncryption, S3XAmzServerSideEncryptionCustomerAlgorithm,
      S3XAmzMetadataDirective, S3XAmzStorageClass, S3LocationConstraint, S3Prefix, S3Delimiter, S3MaxKeys,
      ''aws:Referer'', AWSSourceIP, ''aws:UserAgent'', AWSSecureTransport, ''aws:CurrentTime'', ''aws:EpochTime'',
      ''aws:principaltype'', ''aws:userid'', ''aws:username''] @ JWTKeys"

definition Key_IsValid :: "Key \<Rightarrow> bool" where
  "Key_IsValid key = list_ex (\<lambda>supKey. supKey = key) AllSupportedKeys"

definition VarName :: "Key \<Rightarrow> string" where
  "VarName key = ''${'' @ key @ ''}''"

definition Key_Name :: "Key \<Rightarrow> string" where
  "Key_Name key =
     (if strings_HasPrefix key ''aws:'' then strings_TrimPrefix key ''aws:''
      else if strings_HasPrefix key ''jwt:'' then strings_TrimPrefix key ''jwt:''
      else strings_TrimPrefix key ''s3:'')"

definition parseKey :: "string \<Rightarrow> error + Key" where
  "parseKey s = (if Key_IsValid s then Inr s else Inl (Lib (ErrOther ''invalid condition key'')))"

text \<open>\<^verbatim>\<open>KeySet\<close> is a Go map used as a set.\<close>

type_synonym KeySet = "Key list"

definition NewKeySet :: "Key list \<Rightarrow> KeySet" where
  "NewKeySet keys = remdups keys"

definition KeySet_Difference :: "KeySet \<Rightarrow> KeySet \<Rightarrow> KeySet" where
  "KeySet_Difference s sset = filter (\<lambda>k. k \<notin> set sset) s"

text \<open>The loop that replaces the policy variables of a string; \<^verbatim>\<open>rvalues[0]\<close> panics on an empty list.\<close>

abbreviation indexPanic :: error where "indexPanic \<equiv> GoPanic ''index out of range''"

fun subst_vars :: "values_map \<Rightarrow> Key list \<Rightarrow> string \<Rightarrow> error + string" where
  "subst_vars values [] v = Inr v"
| "subst_vars values (key # keys) v =
     (case map_of values (Key_Name key) of
        None \<Rightarrow> subst_vars values keys v
      | Some [] \<Rightarrow> Inl indexPanic
      | Some (rvalue # _) \<Rightarrow>
          subst_vars values keys (if rvalue \<noteq> [] then strings_ReplaceAll v (VarName key) rvalue else v))"

definition substFuncFromValues :: "values_map \<Rightarrow> string \<Rightarrow> error + string" where
  "substFuncFromValues values v = subst_vars values CommonKeys v"

text \<open>The lookup at the start of every \<^verbatim>\<open>evaluate\<close>: the canonical header key first.\<close>

definition request_value :: "values_map \<Rightarrow> Key \<Rightarrow> string list" where
  "request_value values k =
     (case map_of values (CanonicalHeaderKey (Key_Name k)) of
        Some vs \<Rightarrow> vs
      | None \<Rightarrow> (case map_of values (Key_Name k) of Some vs \<Rightarrow> vs | None \<Rightarrow> []))"

section \<open>Condition functions\<close>

datatype Value = StringValue string | IntValue int | BoolValue bool

definition Value_String :: "Value \<Rightarrow> string" where
  "Value_String v = (case v of StringValue s \<Rightarrow> s | IntValue i \<Rightarrow> FormatInt i | BoolValue b \<Rightarrow> FormatBool b)"

type_synonym ValueSet = "Value list"

datatype Function =
    stringEqualsFunc Key StringSet
  | stringNotEqualsFunc Key StringSet
  | stringEqualsIgnoreCaseFunc Key StringSet
  | stringNotEqualsIgnoreCaseFunc Key StringSet
  | binaryEqualsFunc Key StringSet
  | stringLikeFunc Key StringSet
  | stringNotLikeFunc Key StringSet
  | ipAddressFunc Key "IPNet list"
  | notIPAddressFunc Key "IPNet list"
  | nullFunc Key bool
  | booleanFunc Key string

fun Function_key :: "Function \<Rightarrow> Key" where
  "Function_key (stringEqualsFunc k _) = k"
| "Function_key (stringNotEqualsFunc k _) = k"
| "Function_key (stringEqualsIgnoreCaseFunc k _) = k"
| "Function_key (stringNotEqualsIgnoreCaseFunc k _) = k"
| "Function_key (binaryEqualsFunc k _) = k"
| "Function_key (stringLikeFunc k _) = k"
| "Function_key (stringNotLikeFunc k _) = k"
| "Function_key (ipAddressFunc k _) = k"
| "Function_key (notIPAddressFunc k _) = k"
| "Function_key (nullFunc k _) = k"
| "Function_key (booleanFunc k _) = k"

text \<open>\<^verbatim>\<open>f.values.ApplyFunc(substFuncFromValues(values))\<close>.\<close>

definition subst_set :: "policy_lib \<Rightarrow> values_map \<Rightarrow> StringSet \<Rightarrow> error + StringSet" where
  "subst_set L values fvalues =
     (case find (\<lambda>v. isl (substFuncFromValues values v)) fvalues of
        Some v \<Rightarrow> Inl (projl (substFuncFromValues values v))
      | None \<Rightarrow> Inr (ApplyFunc L (\<lambda>v. projr (substFuncFromValues values v)) fvalues))"

definition eval_equals :: "policy_lib \<Rightarrow> values_map \<Rightarrow> Key \<Rightarrow> StringSet \<Rightarrow> error + bool" where
  "eval_equals L values k fvalues =
     (let requestValue = request_value values k in
      case subst_set L values fvalues of
        Inl e \<Rightarrow> Inl e
      | Inr fvalues \<Rightarrow> Inr (Intersection L fvalues (CreateStringSet L requestValue) \<noteq> []))"

definition eval_match ::
  "policy_lib \<Rightarrow> (string \<Rightarrow> string \<Rightarrow> bool) \<Rightarrow> values_map \<Rightarrow> Key \<Rightarrow> StringSet \<Rightarrow> error + bool" where
  "eval_match L matchFn values k fvalues =
     (let requestValue = request_value values k in
      case subst_set L values fvalues of
        Inl e \<Rightarrow> Inl e
      | Inr fvalues \<Rightarrow> Inr (list_ex (\<lambda>v. FuncMatch L matchFn v fvalues \<noteq> []) requestValue))"

definition eval_address :: "policy_lib \<Rightarrow> values_map \<Rightarrow> Key \<Rightarrow> IPNet list \<Rightarrow> error + bool" where
  "eval_address L values k nets =
     (let requestValue = request_value values k in
      if list_ex (\<lambda>s. ParseIP L s = None) requestValue then Inl (GoPanic ''invalid IP address'')
      else Inr (list_ex (\<lambda>s. list_ex (\<lambda>n. IPNet_Contains n (the (ParseIP L s))) nets) requestValue))"

definition eval_null :: "values_map \<Rightarrow> Key \<Rightarrow> bool \<Rightarrow> error + bool" where
  "eval_null values k value =
     Inr (if value then length (request_value values k) = 0 else length (request_value values k) \<noteq> 0)"

definition eval_boolean :: "values_map \<Rightarrow> Key \<Rightarrow> string \<Rightarrow> error + bool" where
  "eval_boolean values k value =
     (case request_value values k of [] \<Rightarrow> Inl indexPanic | v # _ \<Rightarrow> Inr (value = v))"

definition negated :: "error + bool \<Rightarrow> error + bool" where
  "negated r = (case r of Inl e \<Rightarrow> Inl e | Inr b \<Rightarrow> Inr (\<not> b))"

text \<open>\<^verbatim>\<open>wildcard.Match\<close> as a predicate; it never panics.\<close>

definition wildcard_Match :: "string \<Rightarrow> string \<Rightarrow> bool" where
  "wildcard_Match pattern name = (Match pattern name = Inr True)"

fun evaluate :: "policy_lib \<Rightarrow> values_map \<Rightarrow> Function \<Rightarrow> error + bool" where
  "evaluate L values (stringEqualsFunc k fv) = eval_equals L values k fv"
| "evaluate L values (stringNotEqualsFunc k fv) = negated (eval_equals L values k fv)"
| "evaluate L values (stringEqualsIgnoreCaseFunc k fv) = eval_match L (EqualFold L) values k fv"
| "evaluate L values (stringNotEqualsIgnoreCaseFunc k fv) = negated (eval_match L (EqualFold L) values k fv)"
| "evaluate L values (binaryEqualsFunc k fv) = eval_equals L values k fv"
| "evaluate L values (stringLikeFunc k fv) = eval_match L wildcard_Match values k fv"
| "evaluate L values (stringNotLikeFunc k fv) = negated (eval_match L wildcard_Match values k fv)"
| "evaluate L values (ipAddressFunc k nets) = eval_address L values k nets"
| "evaluate L values (notIPAddressFunc k nets) = negated (eval_address L values k nets)"
| "evaluate L values (nullFunc k value) = eval_null values k value"
| "evaluate L values (booleanFunc k value) = eval_boolean values k value"

fun Functions_Evaluate :: "policy_lib \<Rightarrow> values_map \<Rightarrow> Function list \<Rightarrow> error + bool" where
  "Functions_Evaluate L values [] = Inr True"
| "Functions_Evaluate L values (f # fs) =
     (case evaluate L values f of
        Inl e \<Rightarrow> Inl e
      | Inr False \<Rightarrow> Inr False
      | Inr True \<Rightarrow> Functions_Evaluate L values fs)"

definition Functions_Keys :: "Function list \<Rightarrow> KeySet" where
  "Functions_Keys fs = NewKeySet (map Function_key fs)"

section \<open>Construction from decoded JSON\<close>

abbreviation (input) condition_error :: "string \<Rightarrow> error" where
  "condition_error msg \<equiv> Lib (ErrOther msg)"

definition path2BucketAndObject :: "string \<Rightarrow> string \<times> string" where
  "path2BucketAndObject path =
     (case strings_SplitN2 (strings_TrimPrefix path ''/'') CHR ''/'' of
        [bucket] \<Rightarrow> (bucket, [])
      | [bucket, object] \<Rightarrow> (bucket, object)
      | _ \<Rightarrow> ([], []))"

fun valuesToStringSlice :: "ValueSet \<Rightarrow> error + string list" where
  "valuesToStringSlice [] = Inr []"
| "valuesToStringSlice (StringValue s # values) =
     (case valuesToStringSlice values of Inl e \<Rightarrow> Inl e | Inr ss \<Rightarrow> Inr (s # ss))"
| "valuesToStringSlice (_ # values) = Inl (condition_error ''value must be a string'')"

definition copy_source_error :: "policy_lib \<Rightarrow> string \<Rightarrow> error option" where
  "copy_source_error L s =
     (let (bucket, object) = path2BucketAndObject s in
      if object = [] then Some (condition_error ''invalid value'')
      else if \<not> CheckValidBucketName L bucket then Some (condition_error ''invalid bucket name'')
      else None)"

definition equals_value_error :: "policy_lib \<Rightarrow> Key \<Rightarrow> string \<Rightarrow> error option" where
  "equals_value_error L key s =
     (if key = S3XAmzCopySource then copy_source_error L s
      else if key = S3XAmzServerSideEncryption \<or> key = S3XAmzServerSideEncryptionCustomerAlgorithm then
        (if s \<noteq> ''AES256'' then Some (condition_error ''invalid value'') else None)
      else if key = S3XAmzMetadataDirective then
        (if s \<noteq> ''COPY'' \<and> s \<noteq> ''REPLACE'' then Some (condition_error ''invalid value'') else None)
      else None)"

fun first_error :: "('a \<Rightarrow> error option) \<Rightarrow> 'a list \<Rightarrow> error option" where
  "first_error f [] = None"
| "first_error f (x # xs) = (case f x of Some e \<Rightarrow> Some e | None \<Rightarrow> first_error f xs)"

definition validateStringEqualsValues :: "policy_lib \<Rightarrow> Key \<Rightarrow> StringSet \<Rightarrow> error option" where
  "validateStringEqualsValues L key values = first_error (equals_value_error L key) values"

definition validateStringLikeValues :: "policy_lib \<Rightarrow> Key \<Rightarrow> StringSet \<Rightarrow> error option" where
  "validateStringLikeValues L key values =
     first_error (\<lambda>s. if key = S3XAmzCopySource then copy_source_error L s else None) values"

text \<open>The loop of \<^verbatim>\<open>validateBinaryEqualsValues\<close> over the slice, which decodes the set in place.\<close>

fun binary_loop :: "policy_lib \<Rightarrow> Key \<Rightarrow> string list \<Rightarrow> StringSet \<Rightarrow> error + StringSet" where
  "binary_loop L key [] values = Inr values"
| "binary_loop L key (s # vslice) values =
     (case base64_Decode L s of
        None \<Rightarrow> Inl (condition_error ''illegal base64 data'')
      | Some sbytes \<Rightarrow>
          (let values = set_Remove L s values in
           case equals_value_error L key sbytes of
             Some e \<Rightarrow> Inl e
           | None \<Rightarrow> binary_loop L key vslice (set_Add L sbytes values)))"

definition validateBinaryEqualsValues :: "policy_lib \<Rightarrow> Key \<Rightarrow> StringSet \<Rightarrow> error + StringSet" where
  "validateBinaryEqualsValues L key values = binary_loop L key values values"

fun valuesToIPNets :: "policy_lib \<Rightarrow> ValueSet \<Rightarrow> error + IPNet list" where
  "valuesToIPNets L [] = Inr []"
| "valuesToIPNets L (StringValue s # values) =
     (case ParseCIDR L s of
        None \<Rightarrow> Inl (condition_error ''value must be CIDR string'')
      | Some n \<Rightarrow> (case valuesToIPNets L values of Inl e \<Rightarrow> Inl e | Inr ns \<Rightarrow> Inr (n # ns)))"
| "valuesToIPNets L (_ # values) = Inl (condition_error ''value must be string representation of CIDR'')"

definition new_string_func ::
  "policy_lib \<Rightarrow> (policy_lib \<Rightarrow> Key \<Rightarrow> StringSet \<Rightarrow> error option) \<Rightarrow> (Key \<Rightarrow> StringSet \<Rightarrow> Function) \<Rightarrow> Key \<Rightarrow> ValueSet \<Rightarrow>
   error + Function" where
  "new_string_func L validate mk key values =
     (case valuesToStringSlice values of
        Inl e \<Rightarrow> Inl e
      | Inr ss \<Rightarrow>
          (let sset = CreateStringSet L ss in
           case validate L key sset of Some e \<Rightarrow> Inl e | None \<Rightarrow> Inr (mk key sset)))"

definition newBinaryEqualsFunc :: "policy_lib \<Rightarrow> Key \<Rightarrow> ValueSet \<Rightarrow> error + Function" where
  "newBinaryEqualsFunc L key values =
     (case valuesToStringSlice values of
        Inl e \<Rightarrow> Inl e
      | Inr ss \<Rightarrow>
          (case validateBinaryEqualsValues L key (CreateStringSet L ss) of
             Inl e \<Rightarrow> Inl e
           | Inr sset \<Rightarrow> Inr (binaryEqualsFunc key sset)))"

definition new_address_func ::
  "policy_lib \<Rightarrow> (Key \<Rightarrow> IPNet list \<Rightarrow> Function) \<Rightarrow> Key \<Rightarrow> ValueSet \<Rightarrow> error + Function" where
  "new_address_func L mk key values =
     (case valuesToIPNets L values of
        Inl e \<Rightarrow> Inl e
      | Inr nets \<Rightarrow>
          if key \<noteq> AWSSourceIP then Inl (condition_error ''only aws:SourceIp key is allowed'')
          else Inr (mk key nets))"

definition newNullFunc :: "Key \<Rightarrow> ValueSet \<Rightarrow> error + Function" where
  "newNullFunc key values =
     (case values of
        [BoolValue b] \<Rightarrow> Inr (nullFunc key b)
      | [StringValue s] \<Rightarrow>
          (case ParseBool s of
             None \<Rightarrow> Inl (condition_error ''value must be a boolean string for Null condition'')
           | Some b \<Rightarrow> Inr (nullFunc key b))
      | [_] \<Rightarrow> Inl (condition_error ''value must be a boolean for Null condition'')
      | _ \<Rightarrow> Inl (condition_error ''only one value is allowed for Null condition''))"

definition newBooleanFunc :: "Key \<Rightarrow> ValueSet \<Rightarrow> error + Function" where
  "newBooleanFunc key values =
     (if key \<noteq> AWSSecureTransport then Inl (condition_error ''only aws:SecureTransport key is allowed'')
      else case values of
        [BoolValue b] \<Rightarrow> Inr (booleanFunc key (Value_String (BoolValue b)))
      | [StringValue s] \<Rightarrow>
          (if ParseBool s = None then Inl (condition_error ''value must be a boolean string for boolean condition'')
           else Inr (booleanFunc key (Value_String (StringValue s))))
      | [_] \<Rightarrow> Inl (condition_error ''value must be a boolean for boolean condition'')
      | _ \<Rightarrow> Inl (condition_error ''only one value is allowed for boolean condition''))"

text \<open>\<^verbatim>\<open>parseName\<close> and \<^verbatim>\<open>conditionFuncMap\<close>.\<close>

definition conditionFunc :: "policy_lib \<Rightarrow> string \<Rightarrow> Key \<Rightarrow> ValueSet \<Rightarrow> error + Function" where
  "conditionFunc L n =
     (if n = ''StringEquals'' then new_string_func L validateStringEqualsValues stringEqualsFunc
      else if n = ''StringNotEquals'' then new_string_func L validateStringEqualsValues stringNotEqualsFunc
      else if n = ''StringEqualsIgnoreCase'' then
        new_string_func L validateStringEqualsValues stringEqualsIgnoreCaseFunc
      else if n = ''StringNotEqualsIgnoreCase'' then
        new_string_func L validateStringEqualsValues stringNotEqualsIgnoreCaseFunc
      else if n = ''BinaryEquals'' then newBinaryEqualsFunc L
      else if n = ''StringLike'' then new_string_func L validateStringLikeValues stringLikeFunc
      else if n = ''StringNotLike'' then new_string_func L validateStringLikeValues stringNotLikeFunc
      else if n = ''IpAddress'' then new_address_func L ipAddressFunc
      else if n = ''NotIpAddress'' then new_address_func L notIPAddressFunc
      else if n = ''Null'' then newNullFunc
      else if n = ''Bool'' then newBooleanFunc
      else (\<lambda>key values. Inl (condition_error ''invalid condition name'')))"

definition name_IsValid :: "string \<Rightarrow> bool" where
  "name_IsValid n =
     (n \<in> {''StringEquals'', ''StringNotEquals'', ''StringEqualsIgnoreCase'', ''StringNotEqualsIgnoreCase'',
           ''BinaryEquals'', ''StringLike'', ''StringNotLike'', ''IpAddress'', ''NotIpAddress'', ''Null'', ''Bool''})"

fun decode_args :: "policy_lib \<Rightarrow> string \<Rightarrow> (string \<times> ValueSet) list \<Rightarrow> error + Function list" where
  "decode_args L n [] = Inr []"
| "decode_args L n ((keyString, values) # args) =
     (case parseKey keyString of
        Inl e \<Rightarrow> Inl e
      | Inr key \<Rightarrow>
          (case conditionFunc L n key values of
             Inl e \<Rightarrow> Inl e
           | Inr f \<Rightarrow> (case decode_args L n args of Inl e \<Rightarrow> Inl e | Inr fs \<Rightarrow> Inr (f # fs))))"

fun decode_names :: "policy_lib \<Rightarrow> (string \<times> (string \<times> ValueSet) list) list \<Rightarrow> error + Function list" where
  "decode_names L [] = Inr []"
| "decode_names L ((nameString, args) # nm) =
     (if \<not> name_IsValid nameString then Inl (condition_error ''invalid condition name'')
      else case decode_args L nameString args of
          Inl e \<Rightarrow> Inl e
        | Inr fs \<Rightarrow> (case decode_names L nm of Inl e \<Rightarrow> Inl e | Inr gs \<Rightarrow> Inr (fs @ gs)))"

text \<open>\<^verbatim>\<open>Functions.UnmarshalJSON\<close> once the JSON text is a map.\<close>

definition Functions_Unmarshal ::
  "policy_lib \<Rightarrow> (string \<times> (string \<times> ValueSet) list) list \<Rightarrow> error + Function list" where
  "Functions_Unmarshal L nm =
     (if length nm = 0 then Inl (condition_error ''condition must not be empty'') else decode_names L nm)"

section \<open>What a condition decides\<close>

definition substituted :: "values_map \<Rightarrow> string \<Rightarrow> string" where
  "substituted values x = projr (substFuncFromValues values x)"

fun holds :: "policy_lib \<Rightarrow> values_map \<Rightarrow> Function \<Rightarrow> bool" where
  "holds L values (stringEqualsFunc k fv) \<longleftrightarrow> (\<exists>x \<in> set fv. substituted values x \<in> set (request_value values k))"
| "holds L values (stringNotEqualsFunc k fv) \<longleftrightarrow> (\<forall>x \<in> set fv. substituted values x \<notin> set (request_value values k))"
| "holds L values (stringEqualsIgnoreCaseFunc k fv) \<longleftrightarrow>
     (\<exists>v \<in> set (request_value values k). \<exists>x \<in> set fv. EqualFold L (substituted values x) v)"
| "holds L values (stringNotEqualsIgnoreCaseFunc k fv) \<longleftrightarrow>
     (\<forall>v \<in> set (request_value values k). \<forall>x \<in> set fv. \<not> EqualFold L (substituted values x) v)"
| "holds L values (binaryEqualsFunc k fv) \<longleftrightarrow> (\<exists>x \<in> set fv. substituted values x \<in> set (request_value values k))"
| "holds L values (stringLikeFunc k fv) \<longleftrightarrow>
     (\<exists>v \<in> set (request_value values k). \<exists>x \<in> set fv. glob_match (runes (substituted values x)) (runes v))"
| "holds L values (stringNotLikeFunc k fv) \<longleftrightarrow>
     (\<forall>v \<in> set (request_value values k). \<forall>x \<in> set fv. \<not> glob_match (runes (substituted values x)) (runes v))"
| "holds L values (ipAddressFunc k nets) \<longleftrightarrow>
     (\<exists>s \<in> set (request_value values k). \<exists>n \<in> set nets. IPNet_Contains n (the (ParseIP L s)))"
| "holds L values (notIPAddressFunc k nets) \<longleftrightarrow>
     (\<forall>s \<in> set (request_value values k). \<forall>n \<in> set nets. \<not> IPNet_Contains n (the (ParseIP L s)))"
| "holds L values (nullFunc k value) \<longleftrightarrow> value = (request_value values k = [])"
| "holds L values (booleanFunc k value) \<longleftrightarrow> hd (request_value values k) = value"

text \<open>The requests on which nothing panics.\<close>

definition values_ok :: "values_map \<Rightarrow> bool" where
  "values_ok values = (\<forall>key \<in> set CommonKeys. map_of values (Key_Name key) \<noteq> Some [])"

fun answerable :: "policy_lib \<Rightarrow> values_map \<Rightarrow> Function \<Rightarrow> bool" where
  "answerable L values (ipAddressFunc k _) \<longleftrightarrow> (\<forall>s \<in> set (request_value values k). ParseIP L s \<noteq> None)"
| "answerable L values (notIPAddressFunc k _) \<longleftrightarrow> (\<forall>s \<in> set (request_value values k). ParseIP L s \<noteq> None)"
| "answerable L values (booleanFunc k _) \<longleftrightarrow> request_value values k \<noteq> []"
| "answerable L values _ \<longleftrightarrow> True"

lemma subst_vars_total:
  "\<forall>key \<in> set keys. map_of values (Key_Name key) \<noteq> Some [] \<Longrightarrow> \<exists>v'. subst_vars values keys v = Inr v'"
proof (induction keys arbitrary: v)
  case (Cons key keys)
  then show ?case
    by (cases "map_of values (Key_Name key)") (auto split: list.split)
qed simp

lemma subst_substituted:
  assumes "values_ok values"
  shows "substFuncFromValues values v = Inr (substituted values v)"
proof -
  obtain v' where "substFuncFromValues values v = Inr v'"
    using subst_vars_total [of CommonKeys "values" v] assms by (auto simp: values_ok_def substFuncFromValues_def)
  then show ?thesis by (simp add: substituted_def)
qed

lemma subst_set_ok:
  assumes "values_ok values"
  shows "subst_set L values fv = Inr (ApplyFunc L (substituted values) fv)"
proof -
  have "find (\<lambda>v. isl (substFuncFromValues values v)) fv = None"
    by (simp only: find_None_iff) (simp add: subst_substituted [OF assms])
  then show ?thesis by (simp add: subst_set_def subst_substituted [OF assms])
qed

lemma negated_Inr [simp]: "negated (Inr b) = Inr (\<not> b)" "negated r = Inr b \<longleftrightarrow> r = Inr (\<not> b)"
  by (auto simp: negated_def split: sum.split)

lemma list_eq_Nil_set: "xs \<noteq> [] \<longleftrightarrow> set xs \<noteq> {}"
  by simp

context string_sets
begin

lemmas set_laws = create add remove apply_func intersection func_match equals difference contains to_slice

lemma eval_equals_ok:
  assumes "values_ok values"
  shows "eval_equals L values k fv = Inr (\<exists>x \<in> set fv. substituted values x \<in> set (request_value values k))"
proof -
  have "Intersection L (ApplyFunc L (substituted values) fv) (CreateStringSet L (request_value values k)) \<noteq> [] \<longleftrightarrow>
      (\<exists>x \<in> set fv. substituted values x \<in> set (request_value values k))"
    unfolding list_eq_Nil_set set_laws by blast
  then show ?thesis using assms by (simp add: eval_equals_def subst_set_ok)
qed

lemma eval_match_ok:
  assumes "values_ok values"
  shows "eval_match L g values k fv =
    Inr (\<exists>v \<in> set (request_value values k). \<exists>x \<in> set fv. g (substituted values x) v)"
proof -
  have "FuncMatch L g v (ApplyFunc L (substituted values) fv) \<noteq> [] \<longleftrightarrow> (\<exists>x \<in> set fv. g (substituted values x) v)" for v
    unfolding list_eq_Nil_set set_laws by blast
  then show ?thesis using assms by (simp add: eval_match_def subst_set_ok list_ex_iff)
qed

lemma evaluate_holds:
  assumes "values_ok values" "answerable L values f"
  shows "evaluate L values f = Inr (holds L values f)"
proof (cases f)
  case (booleanFunc k v)
  then show ?thesis using assms by (cases "request_value values k") (auto simp: eval_boolean_def)
qed (use assms in \<open>auto simp: eval_null_def eval_equals_ok eval_match_ok eval_address_def Let_def list_ex_iff wildcard_Match_def Match_glob\<close>)

lemma Functions_Evaluate_holds:
  assumes "values_ok values" "list_all (answerable L values) fs"
  shows "Functions_Evaluate L values fs = Inr (list_all (holds L values) fs)"
  using assms(2) by (induction fs) (simp_all add: evaluate_holds [OF assms(1)] split: bool.split)

end

text \<open>Decoding only builds address conditions on the source address and Boolean conditions on the transport.\<close>

fun well_keyed :: "Function \<Rightarrow> bool" where
  "well_keyed (ipAddressFunc k _) \<longleftrightarrow> k = AWSSourceIP"
| "well_keyed (notIPAddressFunc k _) \<longleftrightarrow> k = AWSSourceIP"
| "well_keyed (booleanFunc k _) \<longleftrightarrow> k = AWSSecureTransport"
| "well_keyed _ \<longleftrightarrow> True"

lemma new_string_func_well_keyed:
  "new_string_func L v mk key values = Inr f \<Longrightarrow> \<forall>k s. well_keyed (mk k s) \<Longrightarrow> well_keyed f"
  by (auto simp: new_string_func_def Let_def split: sum.splits option.splits)

lemma conditionFunc_well_keyed: "conditionFunc L n key values = Inr f \<Longrightarrow> well_keyed f"
  by (auto simp: conditionFunc_def newBinaryEqualsFunc_def new_address_func_def newNullFunc_def newBooleanFunc_def
      dest: new_string_func_well_keyed split: if_splits sum.splits list.splits Value.splits option.splits)

lemma decode_args_well_keyed: "decode_args L n args = Inr fs \<Longrightarrow> list_all well_keyed fs"
  by (induction L n args arbitrary: fs rule: decode_args.induct)
    (auto dest: conditionFunc_well_keyed split: sum.splits)

lemma decode_names_well_keyed: "decode_names L nm = Inr fs \<Longrightarrow> list_all well_keyed fs"
  by (induction L nm arbitrary: fs rule: decode_names.induct)
    (auto dest: decode_args_well_keyed split: sum.splits if_splits)

end
