(* ===== verification/Bucket_Policy.thy ===== *)
theory Bucket_Policy
  imports Policy_Conditions "HOL-Library.AList"
begin

text \<open>
  Bucket policies, \<^verbatim>\<open>pkg/bucket/policy\<close> and \<^verbatim>\<open>cmd/policy.go\<close>: effects, actions, resources, principals, statements
  and policies with their decoding, validation and evaluation; the policy of each bucket (\<^verbatim>\<open>PolicySys\<close>); and the
  condition values a request is evaluated with (\<^verbatim>\<open>getConditionValues\<close>, and \<^verbatim>\<open>GetSourceIP\<close> of
  \<^verbatim>\<open>pkg/handlers/proxy.go\<close>).

  JSON text is decoded by the standard library; the model starts at the decoded fields (\<open>raw_statement\<close>).
  Sets that the code represents as Go maps are lists, and a loop over such a map runs over the list.

  The lemmas show which requests a policy allows, that policies which passed decoding evaluate without a
  panic on the values of a request, and which parts of those values the client controls.
\<close>

section \<open>Effects, actions, resources and principals\<close>

type_synonym Effect = string

abbreviation Allow :: Effect where "Allow \<equiv> ''Allow''"
abbreviation Deny :: Effect where "Deny \<equiv> ''Deny''"

definition Effect_IsAllowed :: "Effect \<Rightarrow> bool \<Rightarrow> bool" where
  "Effect_IsAllowed effect b = (if effect = Allow then b else \<not> b)"

definition Effect_IsValid :: "Effect \<Rightarrow> bool" where
  "Effect_IsValid effect = (effect = Allow \<or> effect = Deny)"

type_synonym Action = string

definition supportedObjectActions :: "Action list" where
  "supportedObjectActions =
     [''s3:AbortMultipartUpload'', ''s3:DeleteObject'', ''s3:GetObject'', ''s3:ListMultipartUploadParts'', ''s3:PutObject'',
      ''s3:BypassGovernanceMode'', ''s3:BypassGovernanceRetention'', ''s3:PutObjectRetention'', ''s3:GetObjectRetention'',
      ''s3:PutObjectLegalHold'', ''s3:GetObjectLegalHold'', ''s3:GetObjectTagging'', ''s3:PutObjectTagging'',
      ''s3:DeleteObjectTagging'']"

definition supportedActions :: "Action list" where
  "supportedActions =
     [''s3:AbortMultipartUpload'', ''s3:CreateBucket'', ''s3:DeleteBucket'', ''s3:DeleteBucketPolicy'', ''s3:DeleteObject'',
      ''s3:GetBucketLocation'', ''s3:GetBucketNotification'', ''s3:GetBucketPolicy'', ''s3:GetObject'', ''s3:HeadBucket'',
      ''s3:ListAllMyBuckets'', ''s3:ListBucket'', ''s3:ListBucketMultipartUploads'', ''s3:ListenBucketNotification'',
      ''s3:ListMultipartUploadParts'', ''s3:PutBucketNotification'', ''s3:PutBucketPolicy'', ''s3:PutObject'',
      ''s3:GetLifecycleConfiguration'', ''s3:PutLifecycleConfiguration'', ''s3:PutObjectRetention'',
      ''s3:GetObjectRetention'', ''s3:GetObjectLegalHold'', ''s3:PutObjectLegalHold'',
      ''s3:PutBucketObjectLockConfiguration'', ''s3:GetBucketObjectLockConfiguration'', ''s3:BypassGovernanceMode'',
      ''s3:BypassGovernanceRetention'', ''s3:GetObjectTagging'', ''s3:PutObjectTagging'', ''s3:DeleteObjectTagging'',
      ''s3:PutEncryptionConfiguration'', ''s3:GetEncryptionConfiguration'']"

definition isObjectAction :: "Action \<Rightarrow> bool" where
  "isObjectAction action = (action \<in> set supportedObjectActions)"

definition Action_IsValid :: "Action \<Rightarrow> bool" where
  "Action_IsValid action = (action \<in> set supportedActions)"

text \<open>A missing entry of the map is the empty set.\<close>

definition actionConditionKeyMap :: "Action \<Rightarrow> KeySet" where
  "actionConditionKeyMap action =
     (if action = ''s3:GetObject'' then
        NewKeySet ([S3XAmzServerSideEncryption, S3XAmzServerSideEncryptionCustomerAlgorithm, S3XAmzStorageClass] @ CommonKeys)
      else if action = ''s3:ListBucket'' then NewKeySet ([S3Prefix, S3Delimiter, S3MaxKeys] @ CommonKeys)
      else if action = ''s3:PutObject'' then
        NewKeySet ([S3XAmzCopySource, S3XAmzServerSideEncryption, S3XAmzServerSideEncryptionCustomerAlgorithm,
                    S3XAmzMetadataDirective, S3XAmzStorageClass] @ CommonKeys)
      else if action \<in> {''s3:AbortMultipartUpload'', ''s3:CreateBucket'', ''s3:DeleteObject'', ''s3:GetBucketLocation'',
          ''s3:HeadBucket'', ''s3:ListAllMyBuckets'', ''s3:ListBucketMultipartUploads'', ''s3:ListMultipartUploadParts'',
          ''s3:PutObjectRetention'', ''s3:GetObjectRetention'', ''s3:BypassGovernanceMode'', ''s3:BypassGovernanceRetention'',
          ''s3:PutObjectLegalHold'', ''s3:GetObjectLegalHold'', ''s3:GetBucketObjectLockConfiguration'',
          ''s3:PutBucketObjectLockConfiguration'', ''s3:PutObjectTagging'', ''s3:GetObjectTagging'',
          ''s3:DeleteObjectTagging''} then NewKeySet CommonKeys
      else [])"

type_synonym ActionSet = "Action list"

definition set_equals :: "'a list \<Rightarrow> 'a list \<Rightarrow> bool" where
  "set_equals s t = (if length s \<noteq> length t then False else list_all (\<lambda>k. k \<in> set t) s)"

record Resource =
  rs_BucketName :: string
  rs_Pattern :: string

abbreviation ResourceARNPrefix :: string where "ResourceARNPrefix \<equiv> ''arn:aws:s3:::''"

definition isBucketPattern :: "Resource \<Rightarrow> bool" where
  "isBucketPattern r = (\<not> strings_Contains (rs_Pattern r) ''/'')"

definition isObjectPattern :: "Resource \<Rightarrow> bool" where
  "isObjectPattern r = (strings_Contains (rs_Pattern r) ''/'' \<or> strings_Contains (rs_BucketName r) ''*'')"

definition Resource_IsValid :: "Resource \<Rightarrow> bool" where
  "Resource_IsValid r = (rs_BucketName r \<noteq> [] \<and> rs_Pattern r \<noteq> [])"

definition Resource_Match :: "Resource \<Rightarrow> string \<Rightarrow> values_map \<Rightarrow> error + bool" where
  "Resource_Match r resource conditionValues =
     (case subst_vars conditionValues CommonKeys (rs_Pattern r) of
        Inl e \<Rightarrow> Inl e
      | Inr pattern \<Rightarrow> Match pattern resource)"

abbreviation (input) policy_error :: "string \<Rightarrow> error" where "policy_error msg \<equiv> Lib (ErrOther msg)"

definition Resource_Validate :: "Resource \<Rightarrow> string \<Rightarrow> error option" where
  "Resource_Validate r bucketName =
     (if \<not> Resource_IsValid r then Some (policy_error ''invalid resource'')
      else if \<not> wildcard_Match (rs_BucketName r) bucketName then Some (policy_error ''bucket name does not match'')
      else None)"

definition parseResource :: "string \<Rightarrow> error + Resource" where
  "parseResource s =
     (if \<not> strings_HasPrefix s ResourceARNPrefix then Inl (policy_error ''invalid resource'')
      else (let pattern = strings_TrimPrefix s ResourceARNPrefix;
                bucketName = hd (strings_SplitN2 pattern CHR ''/'')
            in if bucketName = [] then Inl (policy_error ''invalid resource format'')
               else Inr \<lparr>rs_BucketName = bucketName, rs_Pattern = pattern\<rparr>))"

type_synonym ResourceSet = "Resource list"

text \<open>A loop that returns at the first element that matches.\<close>

fun any_match :: "('a \<Rightarrow> error + bool) \<Rightarrow> 'a list \<Rightarrow> error + bool" where
  "any_match f [] = Inr False"
| "any_match f (x # xs) =
     (case f x of Inl e \<Rightarrow> Inl e | Inr True \<Rightarrow> Inr True | Inr False \<Rightarrow> any_match f xs)"

definition ResourceSet_Match :: "ResourceSet \<Rightarrow> string \<Rightarrow> values_map \<Rightarrow> error + bool" where
  "ResourceSet_Match rs resource conditionValues = any_match (\<lambda>r. Resource_Match r resource conditionValues) rs"

definition Principal_Match :: "StringSet \<Rightarrow> string \<Rightarrow> error + bool" where
  "Principal_Match aws account = any_match (\<lambda>pattern. MatchSimple pattern account) aws"

section \<open>Statements\<close>

record Statement =
  st_SID :: string
  st_Effect :: Effect
  st_Principal :: StringSet
  st_Actions :: ActionSet
  st_Resources :: ResourceSet
  st_Conditions :: "Function list"

record Args =
  ar_AccountName :: string
  ar_Action :: Action
  ar_BucketName :: string
  ar_ConditionValues :: values_map
  ar_IsOwner :: bool
  ar_ObjectName :: string

definition resource_of :: "Args \<Rightarrow> string" where
  "resource_of args =
     ar_BucketName args @
     (if ar_ObjectName args \<noteq> [] then
        (if \<not> strings_HasPrefix (ar_ObjectName args) ''/'' then ''/'' else []) @ ar_ObjectName args
      else [])"

definition Statement_check :: "policy_lib \<Rightarrow> Statement \<Rightarrow> Args \<Rightarrow> error + bool" where
  "Statement_check L st args =
     (case Principal_Match (st_Principal st) (ar_AccountName args) of
        Inl e \<Rightarrow> Inl e
      | Inr False \<Rightarrow> Inr False
      | Inr True \<Rightarrow>
          if ar_Action args \<notin> set (st_Actions st) then Inr False
          else (case ResourceSet_Match (st_Resources st) (resource_of args) (ar_ConditionValues args) of
              Inl e \<Rightarrow> Inl e
            | Inr False \<Rightarrow> Inr False
            | Inr True \<Rightarrow> Functions_Evaluate L (ar_ConditionValues args) (st_Conditions st)))"

definition Statement_IsAllowed :: "policy_lib \<Rightarrow> Statement \<Rightarrow> Args \<Rightarrow> error + bool" where
  "Statement_IsAllowed L st args =
     (case Statement_check L st args of Inl e \<Rightarrow> Inl e | Inr b \<Rightarrow> Inr (Effect_IsAllowed (st_Effect st) b))"

definition action_error :: "Statement \<Rightarrow> Action \<Rightarrow> error option" where
  "action_error st action =
     (if isObjectAction action \<and> \<not> list_ex isObjectPattern (st_Resources st) then
        Some (policy_error ''unsupported Resource found'')
      else if \<not> isObjectAction action \<and> \<not> list_ex isBucketPattern (st_Resources st) then
        Some (policy_error ''unsupported Resource found'')
      else if KeySet_Difference (Functions_Keys (st_Conditions st)) (actionConditionKeyMap action) \<noteq> [] then
        Some (policy_error ''unsupported condition keys'')
      else None)"

definition Statement_isValid :: "Statement \<Rightarrow> error option" where
  "Statement_isValid st =
     (if \<not> Effect_IsValid (st_Effect st) then Some (policy_error ''invalid Effect'')
      else if length (st_Principal st) = 0 then Some (policy_error ''invalid Principal'')
      else if length (st_Actions st) = 0 then Some (policy_error ''Action must not be empty'')
      else if length (st_Resources st) = 0 then Some (policy_error ''Resource must not be empty'')
      else first_error (action_error st) (st_Actions st))"

definition Statement_Validate :: "Statement \<Rightarrow> string \<Rightarrow> error option" where
  "Statement_Validate st bucketName =
     (case Statement_isValid st of
        Some e \<Rightarrow> Some e
      | None \<Rightarrow> first_error (\<lambda>r. Resource_Validate r bucketName) (st_Resources st))"

section \<open>Policies\<close>

text \<open>How a condition is printed, which is what the search for duplicate statements compares.\<close>

fun Function_String :: "policy_lib \<Rightarrow> Function \<Rightarrow> string" where
  "Function_String L (stringEqualsFunc k fv) = ''StringEquals:'' @ k @ '':'' @ fmt_slice (sort fv)"
| "Function_String L (stringNotEqualsFunc k fv) = ''StringNotEquals:'' @ k @ '':'' @ fmt_slice (sort fv)"
| "Function_String L (stringEqualsIgnoreCaseFunc k fv) = ''StringEqualsIgnoreCase:'' @ k @ '':'' @ fmt_slice (sort fv)"
| "Function_String L (stringNotEqualsIgnoreCaseFunc k fv) =
     ''StringNotEqualsIgnoreCase:'' @ k @ '':'' @ fmt_slice (sort fv)"
| "Function_String L (binaryEqualsFunc k fv) = ''BinaryEquals:'' @ k @ '':'' @ fmt_slice (sort fv)"
| "Function_String L (stringLikeFunc k fv) = ''StringLike:'' @ k @ '':'' @ fmt_slice (sort fv)"
| "Function_String L (stringNotLikeFunc k fv) = ''StringNotLike:'' @ k @ '':'' @ fmt_slice (sort fv)"
| "Function_String L (ipAddressFunc k nets) = ''IpAddress:'' @ k @ '':'' @ fmt_slice (sort (map (IPNet_String L) nets))"
| "Function_String L (notIPAddressFunc k nets) =
     ''NotIpAddress:'' @ k @ '':'' @ fmt_slice (sort (map (IPNet_String L) nets))"
| "Function_String L (nullFunc k b) = ''Null:'' @ k @ '':'' @ FormatBool b"
| "Function_String L (booleanFunc k v) = ''Bool:'' @ k @ '':'' @ v"

definition Functions_String :: "policy_lib \<Rightarrow> Function list \<Rightarrow> string" where
  "Functions_String L fs = fmt_slice (sort (map (Function_String L) fs))"

record Policy =
  po_ID :: string
  po_Version :: string
  po_Statements :: "Statement list"

abbreviation DefaultVersion :: string where "DefaultVersion \<equiv> ''2012-10-17''"

definition duplicates :: "policy_lib \<Rightarrow> Statement \<Rightarrow> Statement \<Rightarrow> bool" where
  "duplicates L a b =
     (st_Effect a = st_Effect b \<and> set_Equals L (st_Principal a) (st_Principal b) \<and>
      set_equals (st_Actions a) (st_Actions b) \<and> set_equals (st_Resources a) (st_Resources b) \<and>
      Functions_String L (st_Conditions a) = Functions_String L (st_Conditions b))"

fun duplicate_error :: "policy_lib \<Rightarrow> Statement list \<Rightarrow> error option" where
  "duplicate_error L [] = None"
| "duplicate_error L (st # sts) =
     (if list_ex (duplicates L st) sts then Some (policy_error ''duplicate statements'') else duplicate_error L sts)"

definition Policy_isValid :: "policy_lib \<Rightarrow> Policy \<Rightarrow> error option" where
  "Policy_isValid L p =
     (if po_Version p \<noteq> DefaultVersion \<and> po_Version p \<noteq> [] then Some (policy_error ''invalid version'')
      else case first_error Statement_isValid (po_Statements p) of
          Some e \<Rightarrow> Some e
        | None \<Rightarrow> duplicate_error L (po_Statements p))"

definition Policy_Validate :: "policy_lib \<Rightarrow> Policy \<Rightarrow> string \<Rightarrow> error option" where
  "Policy_Validate L p bucketName =
     (case Policy_isValid L p of
        Some e \<Rightarrow> Some e
      | None \<Rightarrow> first_error (\<lambda>st. Statement_Validate st bucketName) (po_Statements p))"

text \<open>The two loops of \<^verbatim>\<open>IsAllowed\<close>: whether a statement denies, and whether one allows.\<close>

definition denied_by :: "policy_lib \<Rightarrow> Args \<Rightarrow> Statement \<Rightarrow> error + bool" where
  "denied_by L args st =
     (if st_Effect st = Deny then
        (case Statement_IsAllowed L st args of Inl e \<Rightarrow> Inl e | Inr b \<Rightarrow> Inr (\<not> b))
      else Inr False)"

definition allowed_by :: "policy_lib \<Rightarrow> Args \<Rightarrow> Statement \<Rightarrow> error + bool" where
  "allowed_by L args st = (if st_Effect st = Allow then Statement_IsAllowed L st args else Inr False)"

definition Policy_IsAllowed :: "policy_lib \<Rightarrow> Policy \<Rightarrow> Args \<Rightarrow> error + bool" where
  "Policy_IsAllowed L p args =
     (case any_match (denied_by L args) (po_Statements p) of
        Inl e \<Rightarrow> Inl e
      | Inr True \<Rightarrow> Inr False
      | Inr False \<Rightarrow>
          if ar_IsOwner args then Inr True else any_match (allowed_by L args) (po_Statements p))"

section \<open>Decoding\<close>

datatype raw_principal = PrincipalString string | PrincipalAWS StringSet

record raw_statement =
  rw_Sid :: "string option"
  rw_Effect :: "string option"
  rw_Principal :: "raw_principal option"
  rw_Action :: "StringSet option"
  rw_Resource :: "StringSet option"
  rw_Condition :: "(string \<times> (string \<times> ValueSet) list) list option"

definition ID_Unmarshal :: "string option \<Rightarrow> error + string" where
  "ID_Unmarshal s = (case s of None \<Rightarrow> Inr [] | Some s \<Rightarrow> if ValidString s then Inr s else Inl (policy_error ''invalid ID''))"

definition Effect_Unmarshal :: "string option \<Rightarrow> error + Effect" where
  "Effect_Unmarshal s =
     (case s of None \<Rightarrow> Inr [] | Some e \<Rightarrow> if Effect_IsValid e then Inr e else Inl (policy_error ''invalid effect''))"

definition Principal_Unmarshal :: "policy_lib \<Rightarrow> raw_principal option \<Rightarrow> error + StringSet" where
  "Principal_Unmarshal L p =
     (case p of
        None \<Rightarrow> Inr []
      | Some (PrincipalAWS aws) \<Rightarrow> Inr aws
      | Some (PrincipalString s) \<Rightarrow>
          if s \<noteq> ''*'' then Inl (policy_error ''invalid principal'') else Inr (CreateStringSet L [''*'']))"

fun parse_actions :: "string list \<Rightarrow> ActionSet \<Rightarrow> error + ActionSet" where
  "parse_actions [] acc = Inr acc"
| "parse_actions (s # ss) acc =
     (if \<not> Action_IsValid s then Inl (policy_error ''unsupported action'')
      else parse_actions ss (List.insert s acc))"

definition ActionSet_Unmarshal :: "StringSet option \<Rightarrow> error + ActionSet" where
  "ActionSet_Unmarshal sset =
     (case sset of
        None \<Rightarrow> Inr []
      | Some ss \<Rightarrow> if length ss = 0 then Inl (policy_error ''empty actions not allowed'') else parse_actions ss [])"

fun parse_resources :: "string list \<Rightarrow> ResourceSet \<Rightarrow> error + ResourceSet" where
  "parse_resources [] acc = Inr acc"
| "parse_resources (s # ss) acc =
     (case parseResource s of
        Inl e \<Rightarrow> Inl e
      | Inr r \<Rightarrow> if r \<in> set acc then Inl (policy_error ''duplicate resource'') else parse_resources ss (r # acc))"

definition ResourceSet_Unmarshal :: "StringSet option \<Rightarrow> error + ResourceSet" where
  "ResourceSet_Unmarshal sset = (case sset of None \<Rightarrow> Inr [] | Some ss \<Rightarrow> parse_resources ss [])"

definition Conditions_Unmarshal ::
  "policy_lib \<Rightarrow> (string \<times> (string \<times> ValueSet) list) list option \<Rightarrow> error + Function list" where
  "Conditions_Unmarshal L nm = (case nm of None \<Rightarrow> Inr [] | Some nm \<Rightarrow> Functions_Unmarshal L nm)"

definition Statement_Unmarshal :: "policy_lib \<Rightarrow> raw_statement \<Rightarrow> error + Statement" where
  "Statement_Unmarshal L raw =
     (case ID_Unmarshal (rw_Sid raw) of Inl e \<Rightarrow> Inl e | Inr sid \<Rightarrow>
      case Effect_Unmarshal (rw_Effect raw) of Inl e \<Rightarrow> Inl e | Inr effect \<Rightarrow>
      case Principal_Unmarshal L (rw_Principal raw) of Inl e \<Rightarrow> Inl e | Inr aws \<Rightarrow>
      case ActionSet_Unmarshal (rw_Action raw) of Inl e \<Rightarrow> Inl e | Inr actions \<Rightarrow>
      case ResourceSet_Unmarshal (rw_Resource raw) of Inl e \<Rightarrow> Inl e | Inr resources \<Rightarrow>
      case Conditions_Unmarshal L (rw_Condition raw) of Inl e \<Rightarrow> Inl e | Inr conditions \<Rightarrow>
      (let s = \<lparr>st_SID = sid, st_Effect = effect, st_Principal = aws, st_Actions = actions,
               st_Resources = resources, st_Conditions = conditions\<rparr>
       in case Statement_isValid s of Some e \<Rightarrow> Inl e | None \<Rightarrow> Inr s))"

fun Statements_Unmarshal :: "policy_lib \<Rightarrow> raw_statement list \<Rightarrow> error + Statement list" where
  "Statements_Unmarshal L [] = Inr []"
| "Statements_Unmarshal L (raw # raws) =
     (case Statement_Unmarshal L raw of
        Inl e \<Rightarrow> Inl e
      | Inr st \<Rightarrow> (case Statements_Unmarshal L raws of Inl e \<Rightarrow> Inl e | Inr sts \<Rightarrow> Inr (st # sts)))"

definition Policy_Unmarshal ::
  "policy_lib \<Rightarrow> string option \<Rightarrow> string \<Rightarrow> raw_statement list \<Rightarrow> error + Policy" where
  "Policy_Unmarshal L pid version raws =
     (case ID_Unmarshal pid of Inl e \<Rightarrow> Inl e | Inr i \<Rightarrow>
      case Statements_Unmarshal L raws of Inl e \<Rightarrow> Inl e | Inr sts \<Rightarrow>
      (let p = \<lparr>po_ID = i, po_Version = version, po_Statements = sts\<rparr>
       in case Policy_isValid L p of Some e \<Rightarrow> Inl e | None \<Rightarrow> Inr p))"

definition ParseConfig ::
  "policy_lib \<Rightarrow> string option \<Rightarrow> string \<Rightarrow> raw_statement list \<Rightarrow> string \<Rightarrow> error + Policy" where
  "ParseConfig L pid version raws bucketName =
     (case Policy_Unmarshal L pid version raws of
        Inl e \<Rightarrow> Inl e
      | Inr p \<Rightarrow> (case Policy_Validate L p bucketName of Some e \<Rightarrow> Inl e | None \<Rightarrow> Inr p))"

section \<open>The policies of the buckets\<close>

type_synonym PolicySys = "(string \<times> Policy) list"

text \<open>\<open>gateway\<close> is \<^verbatim>\<open>globalIsGateway\<close>, with the policy the gateway answers for a bucket, if any.\<close>

definition PolicySys_Set :: "bool \<Rightarrow> string \<Rightarrow> Policy \<Rightarrow> PolicySys \<Rightarrow> PolicySys" where
  "PolicySys_Set gateway bucketName p sys =
     (if gateway then sys
      else if length (po_Statements p) = 0 then AList.delete bucketName sys
      else AList.update bucketName p sys)"

definition PolicySys_Remove :: "string \<Rightarrow> PolicySys \<Rightarrow> PolicySys" where
  "PolicySys_Remove bucketName sys = AList.delete bucketName sys"

definition PolicySys_IsAllowed ::
  "policy_lib \<Rightarrow> bool \<Rightarrow> (string \<Rightarrow> Policy option) \<Rightarrow> PolicySys \<Rightarrow> Args \<Rightarrow> error + bool" where
  "PolicySys_IsAllowed L gateway backend sys args =
     (case (if gateway then backend (ar_BucketName args) else map_of sys (ar_BucketName args)) of
        Some p \<Rightarrow> Policy_IsAllowed L p args
      | None \<Rightarrow> Inr (ar_IsOwner args))"

section \<open>The values of a request\<close>

record http_request =
  rq_Header :: values_map
  rq_Query :: values_map
  rq_TLS :: bool
  rq_RemoteAddr :: string

definition Header_Get :: "http_request \<Rightarrow> string \<Rightarrow> string" where
  "Header_Get r key =
     (case map_of (rq_Header r) (CanonicalHeaderKey key) of Some (v # _) \<Rightarrow> v | _ \<Rightarrow> [])"

text \<open>\<^verbatim>\<open>strings.Index(s, ", ")\<close>, and the text before it.\<close>

fun before_comma :: "string \<Rightarrow> string" where
  "before_comma [] = []"
| "before_comma (c # s) = (if strings_HasPrefix (c # s) '', '' then [] else c # before_comma s)"

text \<open>The first group of \<^verbatim>\<open>forRegex\<close> in the leftmost match.\<close>

definition for_char :: "char \<Rightarrow> bool" where
  "for_char c = (c \<notin> set ''(;|, )'')"

fun forRegex_group :: "string \<Rightarrow> string option" where
  "forRegex_group [] = None"
| "forRegex_group (c # s) =
     (let g = takeWhile for_char (drop 4 (c # s)) in
      if map to_lower (take 4 (c # s)) = ''for='' \<and> g \<noteq> [] then Some g else forRegex_group s)"

definition strings_Trim :: "string \<Rightarrow> char \<Rightarrow> string" where
  "strings_Trim s q = rev (dropWhile (\<lambda>c. c = q) (rev (dropWhile (\<lambda>c. c = q) s)))"

text \<open>The host part of \<^verbatim>\<open>net.SplitHostPort\<close>, empty when the address is malformed.\<close>

definition SplitHostPort_host :: "string \<Rightarrow> string" where
  "SplitHostPort_host hostport =
     (case strings_LastIndex hostport CHR '':'' of
        None \<Rightarrow> []
      | Some i \<Rightarrow>
          if hd hostport = CHR ''['' then
            (let e = length (takeWhile (\<lambda>c. c \<noteq> CHR '']'') hostport) in
             if e = length hostport \<or> e + 1 \<noteq> i then []
             else if CHR ''['' \<in> set (drop 1 hostport) \<or> CHR '']'' \<in> set (drop (e + 1) hostport) then []
             else drop 1 (take e hostport))
          else if CHR '':'' \<in> set (take i hostport) \<or> CHR ''['' \<in> set hostport \<or> CHR '']'' \<in> set hostport then []
          else take i hostport)"

definition GetSourceIP :: "http_request \<Rightarrow> string" where
  "GetSourceIP r =
     (let addr =
        (if Header_Get r ''X-Forwarded-For'' \<noteq> [] then before_comma (Header_Get r ''X-Forwarded-For'')
         else if Header_Get r ''X-Real-Ip'' \<noteq> [] then Header_Get r ''X-Real-Ip''
         else if Header_Get r ''Forwarded'' \<noteq> [] then
           (case forRegex_group (Header_Get r ''Forwarded'') of Some g \<Rightarrow> strings_Trim g CHR 0x22 | None \<Rightarrow> [])
         else [])
      in if addr \<noteq> [] then addr else SplitHostPort_host (rq_RemoteAddr r))"

fun merge_values :: "values_map \<Rightarrow> values_map \<Rightarrow> values_map" where
  "merge_values args [] = args"
| "merge_values args ((key, vs) # rest) =
     merge_values
       (case map_of args key of
          Some existingValues \<Rightarrow> AList.update key (existingValues @ vs) args
        | None \<Rightarrow> AList.update key vs args) rest"

text \<open>A claim is a string or something else, which is left out.\<close>

fun add_claims :: "values_map \<Rightarrow> (string \<times> string option) list \<Rightarrow> values_map" where
  "add_claims args [] = args"
| "add_claims args ((k, v) # claims) =
     add_claims (case v of Some vStr \<Rightarrow> AList.update k [vStr] args | None \<Rightarrow> args) claims"

definition initial_values :: "string \<Rightarrow> int \<Rightarrow> http_request \<Rightarrow> string \<Rightarrow> values_map" where
  "initial_values now unix request username =
     [(''CurrenTime'', [now]), (''EpochTime'', [FormatInt unix]),
      (''principaltype'', [if username \<noteq> [] then ''User'' else ''Anonymous'']),
      (''SecureTransport'', [FormatBool (rq_TLS request)]), (''SourceIp'', [GetSourceIP request]),
      (''UserAgent'', [Header_Get request ''User-Agent'']), (''Referer'', [Header_Get request ''Referer'']),
      (''userid'', [username]), (''username'', [username])]"

definition getConditionValues ::
  "string \<Rightarrow> int \<Rightarrow> http_request \<Rightarrow> string \<Rightarrow> string \<Rightarrow> (string \<times> string option) list \<Rightarrow> values_map" where
  "getConditionValues now unix request locationConstraint username claims =
     (let args = initial_values now unix request username;
          args = merge_values args (rq_Header request);
          args = merge_values args (rq_Query request);
          args = (if locationConstraint \<noteq> [] then AList.update ''LocationConstraint'' [locationConstraint] args else args)
      in add_claims args claims)"

section \<open>What a policy decides\<close>

lemma any_match_ok: "\<forall>x \<in> set xs. f x = Inr (P x) \<Longrightarrow> any_match f xs = Inr (\<exists>x \<in> set xs. P x)"
  by (induction xs) (auto split: bool.split)

text \<open>A statement applies to a request when the account, the action, the resource and the conditions all do.\<close>

definition applies :: "policy_lib \<Rightarrow> Args \<Rightarrow> Statement \<Rightarrow> bool" where
  "applies L args st \<longleftrightarrow>
     (\<exists>pat \<in> set (st_Principal st). glob_match (runes pat) (runes (ar_AccountName args))) \<and>
     ar_Action args \<in> set (st_Actions st) \<and>
     (\<exists>r \<in> set (st_Resources st).
        glob_match (runes (substituted (ar_ConditionValues args) (rs_Pattern r))) (runes (resource_of args))) \<and>
     (\<forall>f \<in> set (st_Conditions st). holds L (ar_ConditionValues args) f)"

text \<open>The statements whose evaluation does not panic.\<close>

definition plain_principal :: "Statement \<Rightarrow> bool" where
  "plain_principal st \<longleftrightarrow> (\<forall>pat \<in> set (st_Principal st). 63 \<notin> set (runes pat))"

definition answerable_statement :: "policy_lib \<Rightarrow> Args \<Rightarrow> Statement \<Rightarrow> bool" where
  "answerable_statement L args st \<longleftrightarrow>
     plain_principal st \<and> (\<forall>f \<in> set (st_Conditions st). answerable L (ar_ConditionValues args) f)"

context string_sets
begin

lemma Statement_check_applies:
  assumes "values_ok (ar_ConditionValues args)" "answerable_statement L args st"
  shows "Statement_check L st args = Inr (applies L args st)"
proof -
  let ?v = "ar_ConditionValues args"
  have p: "Principal_Match (st_Principal st) (ar_AccountName args) =
      Inr (\<exists>pat \<in> set (st_Principal st). glob_match (runes pat) (runes (ar_AccountName args)))"
    using assms(2) unfolding Principal_Match_def
    by (intro any_match_ok) (simp add: answerable_statement_def plain_principal_def MatchSimple_glob)
  have "subst_vars ?v CommonKeys x = Inr (substituted ?v x)" for x
    using subst_substituted [OF assms(1), of x] by (simp add: substFuncFromValues_def)
  then have r: "ResourceSet_Match (st_Resources st) (resource_of args) ?v =
      Inr (\<exists>r \<in> set (st_Resources st). glob_match (runes (substituted ?v (rs_Pattern r))) (runes (resource_of args)))"
    unfolding ResourceSet_Match_def by (intro any_match_ok) (simp add: Resource_Match_def Match_glob)
  have c: "Functions_Evaluate L ?v (st_Conditions st) = Inr (\<forall>f \<in> set (st_Conditions st). holds L ?v f)"
    using Functions_Evaluate_holds [OF assms(1), of "st_Conditions st"] assms(2)
    by (simp add: answerable_statement_def list_all_iff)
  show ?thesis by (auto simp: Statement_check_def p r c applies_def split: bool.split)
qed

lemma Policy_IsAllowed_decides:
  assumes "values_ok (ar_ConditionValues args)" "\<forall>st \<in> set (po_Statements p). answerable_statement L args st"
  shows "Policy_IsAllowed L p args =
    Inr ((\<forall>st \<in> set (po_Statements p). st_Effect st = Deny \<longrightarrow> \<not> applies L args st) \<and>
         (ar_IsOwner args \<or> (\<exists>st \<in> set (po_Statements p). st_Effect st = Allow \<and> applies L args st)))"
proof -
  have c: "Statement_check L st args = Inr (applies L args st)" if "st \<in> set (po_Statements p)" for st
    using Statement_check_applies assms that by blast
  have d: "any_match (denied_by L args) (po_Statements p) =
      Inr (\<exists>st \<in> set (po_Statements p). st_Effect st = Deny \<and> applies L args st)"
    by (intro any_match_ok) (auto simp: denied_by_def Statement_IsAllowed_def Effect_IsAllowed_def c)
  have a: "any_match (allowed_by L args) (po_Statements p) =
      Inr (\<exists>st \<in> set (po_Statements p). st_Effect st = Allow \<and> applies L args st)"
    by (intro any_match_ok) (auto simp: allowed_by_def Statement_IsAllowed_def Effect_IsAllowed_def c)
  show ?thesis by (auto simp: Policy_IsAllowed_def d a split: bool.split)
qed

end

text \<open>Sets of strings as lists without duplicates.\<close>

definition list_lib :: policy_lib where
  "list_lib =
     \<lparr>CreateStringSet = remdups, set_Add = List.insert, set_Remove = (\<lambda>x s. filter (\<lambda>y. y \<noteq> x) s),
      ApplyFunc = (\<lambda>f s. remdups (map f s)), Intersection = (\<lambda>s t. filter (\<lambda>x. x \<in> set t) s),
      FuncMatch = (\<lambda>g x s. filter (\<lambda>k. g k x) s),
      set_Equals = (\<lambda>s t. list_all (\<lambda>x. x \<in> set t) s \<and> list_all (\<lambda>x. x \<in> set s) t),
      set_Difference = (\<lambda>s t. filter (\<lambda>x. x \<notin> set t) s), set_Contains = (\<lambda>s x. x \<in> set s), ToSlice = (\<lambda>s. s),
      CheckValidBucketName = (\<lambda>b. b \<noteq> []),
      ParseIP = (\<lambda>s. if s = ''10.0.0.1'' then Some [10, 0, 0, 1] else if s = ''8.8.8.8'' then Some [8, 8, 8, 8] else None),
      ParseCIDR = (\<lambda>s. if s = ''10.0.0.0/8'' then Some \<lparr>net_IP = [10, 0, 0, 0], net_Mask = [255, 0, 0, 0]\<rparr> else None),
      IPNet_String = (\<lambda>n. ''10.0.0.0/8''), base64_Decode = Some, base64_Encode = (\<lambda>s. s), simple_fold = (\<lambda>r. r)\<rparr>"

interpretation lists: string_sets list_lib
  by unfold_locales (auto simp: list_lib_def list_all_iff)

section \<open>The values of a request, by key\<close>

lemma merge_other: "k \<notin> fst ` set rest \<Longrightarrow> map_of (merge_values args rest) k = map_of args k"
  by (induction args rest rule: merge_values.induct) (auto simp: update_conv' split: option.split)

lemma merge_hit:
  assumes "distinct (map fst rest)" "map_of rest k = Some vs" "map_of args k = None"
  shows "map_of (merge_values args rest) k = Some vs"
  using assms
proof (induction args rest rule: merge_values.induct)
  case (2 args key us rest)
  then show ?case
    by (cases "k = key") (auto simp: update_conv' merge_other image_iff split: option.split)
qed simp

definition no_empty :: "values_map \<Rightarrow> bool" where
  "no_empty m \<longleftrightarrow> (\<forall>k. map_of m k \<noteq> Some [])"

lemma merge_no_empty: "no_empty args \<Longrightarrow> \<forall>(k, vs) \<in> set rest. vs \<noteq> [] \<Longrightarrow> no_empty (merge_values args rest)"
  by (induction args rest rule: merge_values.induct) (auto simp: no_empty_def update_conv' split: option.split)

lemma claims_other: "k \<notin> fst ` set claims \<Longrightarrow> map_of (add_claims args claims) k = map_of args k"
  by (induction args claims rule: add_claims.induct) (auto simp: update_conv' split: option.split)

lemma claims_no_empty: "no_empty args \<Longrightarrow> no_empty (add_claims args claims)"
  by (induction args claims rule: add_claims.induct) (auto simp: no_empty_def update_conv' split: option.split)

lemma merge_dom: "map_of args k \<noteq> None \<Longrightarrow> map_of (merge_values args rest) k \<noteq> None"
  by (induction args rest rule: merge_values.induct) (auto simp: update_conv' split: option.split)

lemma claims_dom: "map_of args k \<noteq> None \<Longrightarrow> map_of (add_claims args claims) k \<noteq> None"
  by (induction args claims rule: add_claims.induct) (auto simp: update_conv' split: option.split)

text \<open>A request as the HTTP server delivers it: no header or parameter without a value, each header once.\<close>

definition wf_request :: "http_request \<Rightarrow> bool" where
  "wf_request r \<longleftrightarrow>
     distinct (map fst (rq_Header r)) \<and> (\<forall>(k, vs) \<in> set (rq_Header r). vs \<noteq> []) \<and> (\<forall>(k, vs) \<in> set (rq_Query r). vs \<noteq> [])"

lemma update_no_empty: "no_empty m \<Longrightarrow> vs \<noteq> [] \<Longrightarrow> no_empty (AList.update k vs m)"
  by (simp add: no_empty_def update_conv')

lemma getConditionValues_no_empty: "wf_request r \<Longrightarrow> no_empty (getConditionValues now unix r loc user claims)"
proof -
  assume r: "wf_request r"
  have "no_empty (initial_values now unix r user)" by (simp add: no_empty_def initial_values_def)
  then have "no_empty (merge_values (merge_values (initial_values now unix r user) (rq_Header r)) (rq_Query r))"
    using r by (intro merge_no_empty) (auto simp: wf_request_def)
  then show ?thesis
    unfolding getConditionValues_def Let_def by (intro claims_no_empty) (simp add: update_no_empty)
qed

lemma getConditionValues_other:
  assumes "k \<notin> fst ` set (rq_Query r)" "k \<notin> fst ` set claims" "k \<noteq> ''LocationConstraint''"
  shows "map_of (getConditionValues now unix r loc user claims) k =
    map_of (merge_values (initial_values now unix r user) (rq_Header r)) k"
  using assms by (simp add: getConditionValues_def Let_def claims_other merge_other update_conv')

lemma SecureTransport_present:
  "map_of (getConditionValues now unix r loc user claims) ''SecureTransport'' \<noteq> None"
proof -
  have "map_of (initial_values now unix r user) ''SecureTransport'' \<noteq> None" by (simp add: initial_values_def)
  from merge_dom [OF merge_dom [OF this, of "rq_Header r"], of "rq_Query r"] show ?thesis
    unfolding getConditionValues_def Let_def by (intro claims_dom) (simp add: update_conv')
qed

lemma key_names: "Key_Name AWSSourceIP = ''SourceIp''" "CanonicalHeaderKey ''SourceIp'' = ''Sourceip''"
  "Key_Name AWSSecureTransport = ''SecureTransport''" "CanonicalHeaderKey ''SecureTransport'' = ''Securetransport''"
  by code_simp+

lemma request_value_source:
  assumes "''SourceIp'' \<notin> fst ` set (rq_Header r) \<union> fst ` set (rq_Query r) \<union> fst ` set claims"
    "''Sourceip'' \<notin> fst ` set (rq_Header r) \<union> fst ` set (rq_Query r) \<union> fst ` set claims"
  shows "request_value (getConditionValues now unix r loc user claims) AWSSourceIP = [GetSourceIP r]"
  using assms by (simp add: request_value_def key_names getConditionValues_other merge_other initial_values_def)

lemma request_value_transport:
  assumes "wf_request r"
  shows "request_value (getConditionValues now unix r loc user claims) AWSSecureTransport \<noteq> []"
  using SecureTransport_present [of now unix r loc user claims] getConditionValues_no_empty [OF assms, of now unix loc user claims]
  by (auto simp: request_value_def key_names no_empty_def split: option.split)

lemma Conditions_well_keyed: "Conditions_Unmarshal L nm = Inr fs \<Longrightarrow> list_all well_keyed fs"
  by (auto simp: Conditions_Unmarshal_def Functions_Unmarshal_def dest: decode_names_well_keyed
      split: option.splits if_splits)

lemma Statement_Unmarshal_conditions:
  "Statement_Unmarshal L raw = Inr st \<Longrightarrow> Conditions_Unmarshal L (rw_Condition raw) = Inr (st_Conditions st)"
  by (auto simp: Statement_Unmarshal_def Let_def split: sum.splits option.splits)

lemma Statements_well_keyed:
  "Statements_Unmarshal L raws = Inr sts \<Longrightarrow> st \<in> set sts \<Longrightarrow> list_all well_keyed (st_Conditions st)"
  by (induction L raws arbitrary: sts rule: Statements_Unmarshal.induct)
    (auto intro: Conditions_well_keyed [OF Statement_Unmarshal_conditions] split: sum.splits)

lemma ParseConfig_well_keyed:
  assumes "ParseConfig L pid version raws b = Inr p" "st \<in> set (po_Statements p)"
  shows "list_all well_keyed (st_Conditions st)"
  using assms
  by (auto simp: ParseConfig_def Policy_Unmarshal_def Let_def dest: Statements_well_keyed split: sum.splits option.splits)

lemma well_keyed_answerable:
  assumes "well_keyed f" "\<forall>s \<in> set (request_value vals AWSSourceIP). ParseIP L s \<noteq> None"
    "request_value vals AWSSecureTransport \<noteq> []"
  shows "answerable L vals f"
  using assms by (cases f) auto

section \<open>Decisions\<close>

text \<open>A policy that opens a bucket to a network, except for one folder, as JSON and decoded; and a request.\<close>

definition example_raws :: "raw_statement list" where
  "example_raws =
     [\<lparr>rw_Sid = None, rw_Effect = Some Allow, rw_Principal = Some (PrincipalString ''*''),
       rw_Action = Some [''s3:GetObject''], rw_Resource = Some [''arn:aws:s3:::bkt/*''],
       rw_Condition = Some [(''IpAddress'', [(''aws:SourceIp'', [StringValue ''10.0.0.0/8''])])]\<rparr>,
      \<lparr>rw_Sid = None, rw_Effect = Some Deny, rw_Principal = Some (PrincipalAWS [''*'']),
       rw_Action = Some [''s3:GetObject''], rw_Resource = Some [''arn:aws:s3:::bkt/s/*''], rw_Condition = None\<rparr>]"

definition example_net :: IPNet where
  "example_net = \<lparr>net_IP = [10, 0, 0, 0], net_Mask = [255, 0, 0, 0]\<rparr>"

definition example_policy :: Policy where
  "example_policy =
     \<lparr>po_ID = [], po_Version = DefaultVersion, po_Statements =
       [\<lparr>st_SID = [], st_Effect = Allow, st_Principal = [''*''], st_Actions = [''s3:GetObject''],
         st_Resources = [\<lparr>rs_BucketName = ''bkt'', rs_Pattern = ''bkt/*''\<rparr>],
         st_Conditions = [ipAddressFunc AWSSourceIP [example_net]]\<rparr>,
        \<lparr>st_SID = [], st_Effect = Deny, st_Principal = [''*''], st_Actions = [''s3:GetObject''],
         st_Resources = [\<lparr>rs_BucketName = ''bkt'', rs_Pattern = ''bkt/s/*''\<rparr>], st_Conditions = []\<rparr>]\<rparr>"

definition example_args :: "string \<Rightarrow> Args" where
  "example_args x = \<lparr>ar_AccountName = [], ar_Action = ''s3:GetObject'', ar_BucketName = ''bkt'',
     ar_ConditionValues = [(''SourceIp'', [''10.0.0.1''])], ar_IsOwner = False, ar_ObjectName = x\<rparr>"

definition example_request :: "values_map \<Rightarrow> string \<Rightarrow> http_request" where
  "example_request h addr = \<lparr>rq_Header = h, rq_Query = [], rq_TLS = True, rq_RemoteAddr = addr\<rparr>"

text \<open>C6. After a policy is set for a bucket, a request on the bucket is allowed exactly if no denying statement
  applies to it, and it comes from the owner or some allowing statement applies to it: denial takes
  precedence over the owner and over every allowing statement, whatever their order. A statement applies if
  its principals denote the account, it has the action, one of its resource patterns denotes the resource
  after the policy variables are replaced, and all its conditions hold. A policy without statements leaves
  the bucket to its owner.\<close>

theorem policy_decides:
  assumes "string_sets L" "values_ok (ar_ConditionValues args)"
    "\<forall>st \<in> set (po_Statements p). answerable_statement L args st"
  shows "PolicySys_IsAllowed L False backend (PolicySys_Set False (ar_BucketName args) p sys) args =
    Inr ((\<forall>st \<in> set (po_Statements p). st_Effect st = Deny \<longrightarrow> \<not> applies L args st) \<and>
         (ar_IsOwner args \<or> (\<exists>st \<in> set (po_Statements p). st_Effect st = Allow \<and> applies L args st)))"
  using string_sets.Policy_IsAllowed_decides [OF assms]
  by (auto simp: PolicySys_IsAllowed_def PolicySys_Set_def delete_conv' update_conv')

theorem policy_decides_witness:
  "PolicySys_IsAllowed list_lib False (\<lambda>b. None) (PolicySys_Set False ''bkt'' example_policy []) (example_args ''a'') =
     Inr ((\<forall>st \<in> set (po_Statements example_policy). st_Effect st = Deny \<longrightarrow> \<not> applies list_lib (example_args ''a'') st) \<and>
          (ar_IsOwner (example_args ''a'') \<or>
           (\<exists>st \<in> set (po_Statements example_policy). st_Effect st = Allow \<and> applies list_lib (example_args ''a'') st))) \<and>
   PolicySys_IsAllowed list_lib False (\<lambda>b. None) (PolicySys_Set False ''bkt'' example_policy []) (example_args ''a'') = Inr True"
proof -
  have v: "values_ok (ar_ConditionValues (example_args ''a''))"
    by (simp add: values_ok_def example_args_def)
  have a: "\<forall>st \<in> set (po_Statements example_policy). answerable_statement list_lib (example_args ''a'') st"
    by (simp add: example_policy_def answerable_statement_def plain_principal_def example_args_def byte_def
        request_value_def key_names list_lib_def)
  have b: "ar_BucketName (example_args ''a'') = ''bkt''" by (simp add: example_args_def)
  have "PolicySys_IsAllowed list_lib False (\<lambda>b. None) (PolicySys_Set False ''bkt'' example_policy [])
      (example_args ''a'') = Inr True"
    by code_simp
  then show ?thesis
    using policy_decides [OF lists.string_sets_axioms v a, of "\<lambda>b. None" "[]"] unfolding b by simp
qed



text \<open>C39. A client that sends a header named SourceIp chooses the address that the address conditions of a policy see,
  whatever the address it connects from: the header takes precedence over the address of the connection.\<close>

theorem client_chooses_source_address:
  assumes "wf_request r" "map_of (rq_Header r) ''Sourceip'' = Some [ip]" "ParseIP L ip = Some a"
    "''Sourceip'' \<notin> fst ` set (rq_Query r)" "''Sourceip'' \<notin> fst ` set claims"
  shows "evaluate L (getConditionValues now unix r loc user claims) (ipAddressFunc AWSSourceIP nets) =
    Inr (list_ex (\<lambda>n. IPNet_Contains n a) nets)"
proof -
  have "map_of (merge_values (initial_values now unix r user) (rq_Header r)) ''Sourceip'' = Some [ip]"
    using assms(1,2) by (intro merge_hit) (simp_all add: wf_request_def initial_values_def)
  then have "request_value (getConditionValues now unix r loc user claims) AWSSourceIP = [ip]"
    using assms(4,5) by (simp add: request_value_def key_names getConditionValues_other)
  then show ?thesis using assms(3) by (simp add: eval_address_def)
qed

theorem client_chooses_source_address_witness:
  "GetSourceIP (example_request [(''Sourceip'', [''10.0.0.1''])] ''8.8.8.8:80'') = ''8.8.8.8'' \<and>
   evaluate list_lib (getConditionValues [] 0 (example_request [(''Sourceip'', [''10.0.0.1''])] ''8.8.8.8:80'') [] [] [])
     (ipAddressFunc AWSSourceIP [example_net]) = Inr True"
proof -
  have "list_ex (\<lambda>n. IPNet_Contains n [10, 0, 0, 1]) [example_net]" by code_simp
  moreover have "GetSourceIP (example_request [(''Sourceip'', [''10.0.0.1''])] ''8.8.8.8:80'') = ''8.8.8.8''" by code_simp
  ultimately show ?thesis
    using client_chooses_source_address [of "example_request [(''Sourceip'', [''10.0.0.1''])] ''8.8.8.8:80''" "''10.0.0.1''"
        list_lib "[10, 0, 0, 1]" "[]" "[]" 0 "[]" "[]" "[example_net]"]
    by (simp add: example_request_def wf_request_def list_lib_def)
qed

end
