(* ===== verification/Lock_Interleaving.thy ===== *)
theory Lock_Interleaving
  imports Namespace_Lock
begin

text \<open>
  The namespace locks of \<^verbatim>\<open>cmd/namespace-lock.go\<close> under concurrency. \<open>Namespace_Lock\<close> has \<^verbatim>\<open>lock\<close> and \<^verbatim>\<open>unlock\<close> as whole
  functions; here each critical section of \<^verbatim>\<open>lockMapMutex\<close> and each call on an entry's mutex is one step, and
  goroutines take them in any order. Entries are shared through pointers, so they live in a heap and the
  map holds addresses: a goroutine that waits for a mutex keeps the address it found.

  The invariant counts, for every resource, the goroutines that refer to its entry. It follows that an
  entry stays in the map as long as somebody waits for it or holds it, that goroutines which hold the
  same resource exclude each other, and that nothing is left behind. Run without interruption, the
  steps are the functions of \<open>Namespace_Lock\<close>.
\<close>

section \<open>Steps\<close>

record 'm ns_shared =
  sh_map :: "(string \<times> nat) list"
  sh_heap :: "'m nsLock list"

text \<open>The first critical section of \<^verbatim>\<open>lock\<close>.\<close>

definition ns_enter :: "'m lrw_ops \<Rightarrow> string \<Rightarrow> 'm ns_shared \<Rightarrow> nat \<times> 'm ns_shared" where
  "ns_enter L resource s =
     (case map_of (sh_map s) resource of
        None \<Rightarrow>
          (length (sh_heap s),
           s\<lparr>sh_map := AList.update resource (length (sh_heap s)) (sh_map s),
             sh_heap := sh_heap s @ [\<lparr>nl_mutex = NewLRWMutex L, nl_ref = 1\<rparr>]\<rparr>)
      | Some a \<Rightarrow>
          (a, s\<lparr>sh_heap := (sh_heap s)[a := (sh_heap s ! a)\<lparr>nl_ref := nl_ref (sh_heap s ! a) + 1\<rparr>]\<rparr>))"

text \<open>The attempt to get the mutex of the entry, within the timeout.\<close>

definition ns_attempt :: "'m lrw_ops \<Rightarrow> bool \<Rightarrow> nat \<Rightarrow> 'm ns_shared \<Rightarrow> bool \<times> 'm ns_shared" where
  "ns_attempt L readLock a s =
     (let nsLk = sh_heap s ! a;
          (locked, mutex) = (if readLock then lrw_GetRLock L (nl_mutex nsLk) else lrw_GetLock L (nl_mutex nsLk))
      in (locked, s\<lparr>sh_heap := (sh_heap s)[a := nsLk\<lparr>nl_mutex := mutex\<rparr>]\<rparr>))"

text \<open>The second critical section of \<^verbatim>\<open>lock\<close>, after a failed attempt.\<close>

definition ns_giveup :: "string \<Rightarrow> nat \<Rightarrow> 'm ns_shared \<Rightarrow> 'm ns_shared" where
  "ns_giveup resource a s =
     (let nsLk = sh_heap s ! a; ref = nl_ref nsLk - 1
      in s\<lparr>sh_map := (if ref = 0 then AList.delete resource (sh_map s) else sh_map s),
           sh_heap := (sh_heap s)[a := nsLk\<lparr>nl_ref := ref\<rparr>]\<rparr>)"

text \<open>Releasing the mutex of the entry that \<^verbatim>\<open>unlock\<close> found, and its critical section.\<close>

definition ns_release :: "'m lrw_ops \<Rightarrow> bool \<Rightarrow> nat \<Rightarrow> 'm ns_shared \<Rightarrow> 'm ns_shared" where
  "ns_release L readLock a s =
     (let nsLk = sh_heap s ! a;
          mutex = (if readLock then lrw_RUnlock L (nl_mutex nsLk) else lrw_Unlock L (nl_mutex nsLk))
      in s\<lparr>sh_heap := (sh_heap s)[a := nsLk\<lparr>nl_mutex := mutex\<rparr>]\<rparr>)"

definition ns_unref :: "string \<Rightarrow> nat \<Rightarrow> 'm ns_shared \<Rightarrow> 'm ns_shared" where
  "ns_unref resource a s = (if nl_ref (sh_heap s ! a) = 0 then s else ns_giveup resource a s)"

text \<open>Where a goroutine is in \<^verbatim>\<open>lock\<close> or \<^verbatim>\<open>unlock\<close>.\<close>

datatype ns_pc =
    Idle
  | Waiting string bool nat
  | Failed string nat
  | Holding string bool
  | Unlocking string bool nat
  | Unlocked string nat

type_synonym 'm ns_conf = "ns_pc list \<times> 'm ns_shared"

inductive ns_step :: "'m lrw_ops \<Rightarrow> 'm ns_conf \<Rightarrow> 'm ns_conf \<Rightarrow> bool" for L :: "'m lrw_ops" where
  step_enter: "i < length pcs \<Longrightarrow> pcs ! i = Idle \<Longrightarrow> ns_enter L r s = (a, s') \<Longrightarrow>
    ns_step L (pcs, s) (pcs[i := Waiting r rd a], s')"
| step_locked: "i < length pcs \<Longrightarrow> pcs ! i = Waiting r rd a \<Longrightarrow> ns_attempt L rd a s = (True, s') \<Longrightarrow>
    ns_step L (pcs, s) (pcs[i := Holding r rd], s')"
| step_timeout: "i < length pcs \<Longrightarrow> pcs ! i = Waiting r rd a \<Longrightarrow> ns_attempt L rd a s = (False, s') \<Longrightarrow>
    ns_step L (pcs, s) (pcs[i := Failed r a], s')"
| step_giveup: "i < length pcs \<Longrightarrow> pcs ! i = Failed r a \<Longrightarrow>
    ns_step L (pcs, s) (pcs[i := Idle], ns_giveup r a s)"
| step_lookup: "i < length pcs \<Longrightarrow> pcs ! i = Holding r rd \<Longrightarrow> map_of (sh_map s) r = Some a \<Longrightarrow>
    ns_step L (pcs, s) (pcs[i := Unlocking r rd a], s)"
| step_not_found: "i < length pcs \<Longrightarrow> pcs ! i = Holding r rd \<Longrightarrow> map_of (sh_map s) r = None \<Longrightarrow>
    ns_step L (pcs, s) (pcs[i := Idle], s)"
| step_release: "i < length pcs \<Longrightarrow> pcs ! i = Unlocking r rd a \<Longrightarrow>
    ns_step L (pcs, s) (pcs[i := Unlocked r a], ns_release L rd a s)"
| step_unref: "i < length pcs \<Longrightarrow> pcs ! i = Unlocked r a \<Longrightarrow>
    ns_step L (pcs, s) (pcs[i := Idle], ns_unref r a s)"

definition ns_start :: "nat \<Rightarrow> 'm ns_conf" where
  "ns_start n = (replicate n Idle, \<lparr>sh_map = [], sh_heap = []\<rparr>)"

section \<open>The invariant\<close>

fun refers :: "string \<Rightarrow> ns_pc \<Rightarrow> bool" where
  "refers r Idle \<longleftrightarrow> False"
| "refers r (Waiting r' _ _) \<longleftrightarrow> r' = r"
| "refers r (Failed r' _) \<longleftrightarrow> r' = r"
| "refers r (Holding r' _) \<longleftrightarrow> r' = r"
| "refers r (Unlocking r' _ _) \<longleftrightarrow> r' = r"
| "refers r (Unlocked r' _) \<longleftrightarrow> r' = r"

text \<open>A goroutine holds a resource from the successful attempt to the release of the mutex.\<close>

fun holds_lock :: "string \<Rightarrow> bool \<Rightarrow> ns_pc \<Rightarrow> bool" where
  "holds_lock r rd (Holding r' rd') \<longleftrightarrow> r' = r \<and> rd' = rd"
| "holds_lock r rd (Unlocking r' rd' _) \<longleftrightarrow> r' = r \<and> rd' = rd"
| "holds_lock r rd _ \<longleftrightarrow> False"

fun pointer :: "ns_pc \<Rightarrow> (string \<times> nat) option" where
  "pointer (Waiting r _ a) = Some (r, a)"
| "pointer (Failed r a) = Some (r, a)"
| "pointer (Unlocking r _ a) = Some (r, a)"
| "pointer (Unlocked r a) = Some (r, a)"
| "pointer _ = None"

definition tally :: "('a \<Rightarrow> bool) \<Rightarrow> 'a list \<Rightarrow> nat" where
  "tally P xs = length (filter P xs)"

lemma tally_update:
  "i < length xs \<Longrightarrow> tally P (xs[i := v]) + (if P (xs ! i) then 1 else 0) = tally P xs + (if P v then 1 else 0)"
proof (induction xs arbitrary: i)
  case (Cons x xs)
  then show ?case by (cases i) (auto simp: tally_def)
qed simp

lemma tally_pos: "i < length xs \<Longrightarrow> P (xs ! i) \<Longrightarrow> 0 < tally P xs"
  by (auto simp: tally_def filter_empty_conv)

lemma tally_two:
  assumes "i < length xs" "j < length xs" "i \<noteq> j" "P (xs ! i)" "P (xs ! j)"
  shows "2 \<le> tally P xs"
  using assms
proof (induction xs arbitrary: i j)
  case (Cons x xs)
  have "tally P (x # xs) = (if P x then 1 else 0) + tally P xs" by (simp add: tally_def)
  with Cons show ?case
    by (cases i; cases j) (auto dest: tally_pos)
qed simp

lemma tally_zero: "tally P xs = 0 \<longleftrightarrow> (\<forall>x \<in> set xs. \<not> P x)"
  by (simp add: tally_def filter_empty_conv)

lemma holds_refers: "holds_lock r rd p \<Longrightarrow> refers r p"
  by (cases p) auto

lemma pointer_refers: "pointer p = Some (r, a) \<Longrightarrow> refers r p"
  by (cases p) auto

definition entry_counts :: "('m \<Rightarrow> nat) \<Rightarrow> ('m \<Rightarrow> bool) \<Rightarrow> 'm nsLock \<Rightarrow> nat \<Rightarrow> nat \<Rightarrow> nat \<Rightarrow> bool" where
  "entry_counts readers writer e n k w \<longleftrightarrow>
     nl_ref e = n \<and> 0 < n \<and> readers (nl_mutex e) = k \<and> writer (nl_mutex e) = (0 < w) \<and> w \<le> 1 \<and> (0 < w \<longrightarrow> k = 0)"

definition resource_ok :: "('m \<Rightarrow> nat) \<Rightarrow> ('m \<Rightarrow> bool) \<Rightarrow> 'm ns_conf \<Rightarrow> string \<Rightarrow> bool" where
  "resource_ok readers writer c r =
     (case map_of (sh_map (snd c)) r of
        None \<Rightarrow> tally (refers r) (fst c) = 0
      | Some a \<Rightarrow> a < length (sh_heap (snd c)) \<and>
          entry_counts readers writer (sh_heap (snd c) ! a) (tally (refers r) (fst c))
            (tally (holds_lock r True) (fst c)) (tally (holds_lock r False) (fst c)))"

definition pointers_ok :: "'m ns_conf \<Rightarrow> bool" where
  "pointers_ok c \<longleftrightarrow>
     (\<forall>p \<in> set (fst c). \<forall>r a. pointer p = Some (r, a) \<longrightarrow> map_of (sh_map (snd c)) r = Some a) \<and>
     (\<forall>r r' a. map_of (sh_map (snd c)) r = Some a \<longrightarrow> map_of (sh_map (snd c)) r' = Some a \<longrightarrow> r = r')"

definition ns_inv :: "('m \<Rightarrow> nat) \<Rightarrow> ('m \<Rightarrow> bool) \<Rightarrow> 'm ns_conf \<Rightarrow> bool" where
  "ns_inv readers writer c \<longleftrightarrow> (\<forall>r. resource_ok readers writer c r) \<and> pointers_ok c"

lemma pointer_map:
  "ns_inv readers writer (pcs, s) \<Longrightarrow> p \<in> set pcs \<Longrightarrow> pointer p = Some (r, a) \<Longrightarrow> map_of (sh_map s) r = Some a"
  by (simp add: ns_inv_def pointers_ok_def)

lemma address_inj:
  "ns_inv readers writer (pcs, s) \<Longrightarrow> map_of (sh_map s) r = Some a \<Longrightarrow> map_of (sh_map s) r' = Some a \<Longrightarrow> r = r'"
  by (simp add: ns_inv_def pointers_ok_def)

text \<open>A step of one goroutine on one resource leaves the counts of every other resource alone.\<close>

definition touches :: "string \<Rightarrow> ns_pc \<Rightarrow> bool" where
  "touches r p \<longleftrightarrow> (\<forall>r'. refers r' p \<longrightarrow> r' = r)"

lemma tally_other:
  assumes "i < length pcs" "touches r (pcs ! i)" "touches r q" "r' \<noteq> r"
  shows "tally (refers r') (pcs[i := q]) = tally (refers r') pcs"
    "tally (holds_lock r' rd) (pcs[i := q]) = tally (holds_lock r' rd) pcs"
  using tally_update [OF assms(1), of "refers r'" q] tally_update [OF assms(1), of "holds_lock r' rd" q] assms(2-4)
  by (auto simp: touches_def dest: holds_refers split: if_splits)

lemma resource_frame:
  assumes "i < length pcs" "touches r (pcs ! i)" "touches r q" "r' \<noteq> r"
    "resource_ok readers writer (pcs, s) r'"
    "map_of (sh_map s') r' = map_of (sh_map s) r'"
    "\<And>a. map_of (sh_map s) r' = Some a \<Longrightarrow> a < length (sh_heap s) \<Longrightarrow>
       a < length (sh_heap s') \<and> sh_heap s' ! a = sh_heap s ! a"
  shows "resource_ok readers writer (pcs[i := q], s') r'"
  using assms(5-7) tally_other [OF assms(1-4)] by (auto simp: resource_ok_def split: option.splits)

text \<open>The invariant after a step: the resource itself, and that no other goroutine's pointer is lost.\<close>

lemma ns_inv_step:
  assumes inv: "ns_inv readers writer (pcs, s)" and i: "i < length pcs" "touches r (pcs ! i)" "touches r q"
    and self: "resource_ok readers writer (pcs[i := q], s') r"
    and maps: "\<And>r'. r' \<noteq> r \<Longrightarrow> map_of (sh_map s') r' = map_of (sh_map s) r'"
    and heap: "\<And>r' a. r' \<noteq> r \<Longrightarrow> map_of (sh_map s) r' = Some a \<Longrightarrow> a < length (sh_heap s) \<Longrightarrow>
       a < length (sh_heap s') \<and> sh_heap s' ! a = sh_heap s ! a"
    and here: "\<And>a. pointer q = Some (r, a) \<Longrightarrow> map_of (sh_map s') r = Some a"
    and same: "map_of (sh_map s') r = map_of (sh_map s) r \<or> tally (refers r) pcs = 0 \<or> tally (refers r) (pcs[i := q]) = 0"
    and inj: "\<And>r' a. map_of (sh_map s') r = Some a \<Longrightarrow> map_of (sh_map s) r' = Some a \<Longrightarrow> r' = r"
  shows "ns_inv readers writer (pcs[i := q], s')"
proof -
  have "resource_ok readers writer (pcs[i := q], s') r'" for r'
  proof (cases "r' = r")
    case False
    then show ?thesis
      using inv i by (intro resource_frame [of i pcs r q r' readers writer s]) (auto simp: ns_inv_def maps heap)
  qed (simp add: self)
  moreover have "map_of (sh_map s') r' = Some a" if p: "p \<in> set (pcs[i := q])" "pointer p = Some (r', a)" for p r' a
  proof (cases "r' = r")
    case True
    from p(1) obtain j where j: "j < length pcs" "p = (pcs[i := q]) ! j" by (auto simp: in_set_conv_nth)
    have "refers r (pcs[i := q] ! j)" using p(2) j True by (auto dest: pointer_refers)
    then have pos: "0 < tally (refers r) (pcs[i := q])" using j by (intro tally_pos [of j]) auto
    show ?thesis
    proof (cases "j = i")
      case True
      then show ?thesis using here p(2) j \<open>r' = r\<close> i(1) by simp
    next
      case False
      then have q: "p = pcs ! j" using j by simp
      then have "0 < tally (refers r) pcs" using p(2) j True by (intro tally_pos [of j]) (auto dest: pointer_refers)
      then have "map_of (sh_map s') r = map_of (sh_map s) r" using same pos by simp
      moreover have "map_of (sh_map s) r = Some a"
        using pointer_map [OF inv nth_mem [OF j(1)]] p(2) q True by simp
      ultimately show ?thesis using True by simp
    qed
  next
    case False
    then have "p \<noteq> q" using p(2) i(3) by (auto simp: touches_def dest: pointer_refers)
    then have "p \<in> set pcs" using p(1) by (meson insertE set_update_subset_insert subsetD)
    then show ?thesis using False pointer_map [OF inv _ p(2)] maps by simp
  qed
  moreover have "x = y" if "map_of (sh_map s') x = Some a" "map_of (sh_map s') y = Some a" for x y a
    using that maps inj [of a x] inj [of a y] address_inj [OF inv, of x a y] by (cases "x = r"; cases "y = r") auto
  ultimately show ?thesis by (auto simp: ns_inv_def pointers_ok_def)
qed

lemma touches_simps [simp]:
  "touches r Idle" "touches r (Waiting r rd a)" "touches r (Failed r a)" "touches r (Holding r rd)"
  "touches r (Unlocking r rd a)" "touches r (Unlocked r a)"
  by (auto simp: touches_def)

text \<open>The entry a goroutine points to, with its counts.\<close>

lemma pointed_entry:
  assumes "ns_inv readers writer (pcs, s)" "i < length pcs" "pointer (pcs ! i) = Some (r, a)"
  shows "map_of (sh_map s) r = Some a" "a < length (sh_heap s)"
    "entry_counts readers writer (sh_heap s ! a) (tally (refers r) pcs) (tally (holds_lock r True) pcs)
       (tally (holds_lock r False) pcs)"
proof -
  show m: "map_of (sh_map s) r = Some a"
    by (rule pointer_map [OF assms(1) nth_mem [OF assms(2)] assms(3)])
  have "resource_ok readers writer (pcs, s) r" using assms(1) by (simp add: ns_inv_def)
  then show "a < length (sh_heap s)"
    "entry_counts readers writer (sh_heap s ! a) (tally (refers r) pcs) (tally (holds_lock r True) pcs)
       (tally (holds_lock r False) pcs)"
    by (simp_all add: resource_ok_def m)
qed

lemma held_entry:
  assumes "ns_inv readers writer (pcs, s)" "i < length pcs" "refers r (pcs ! i)"
  shows "\<exists>a. map_of (sh_map s) r = Some a"
proof -
  have "0 < tally (refers r) pcs" using assms(2,3) by (rule tally_pos)
  moreover have "resource_ok readers writer (pcs, s) r" using assms(1) by (simp add: ns_inv_def)
  ultimately show ?thesis by (auto simp: resource_ok_def split: option.splits)
qed

text \<open>A step that changes the entry of its resource and leaves it in the map.\<close>

lemma ns_inv_entry:
  assumes inv: "ns_inv readers writer (pcs, s)" and i: "i < length pcs" "touches r (pcs ! i)" "touches r q"
    and a: "map_of (sh_map s) r = Some a" "a < length (sh_heap s)"
    and q: "\<And>b. pointer q = Some (r, b) \<Longrightarrow> b = a"
    and e: "entry_counts readers writer e (tally (refers r) (pcs[i := q])) (tally (holds_lock r True) (pcs[i := q]))
       (tally (holds_lock r False) (pcs[i := q]))"
  shows "ns_inv readers writer (pcs[i := q], s\<lparr>sh_heap := (sh_heap s)[a := e]\<rparr>)"
proof (rule ns_inv_step [OF inv i])
  have inj: "r' = r" if "map_of (sh_map s) r' = Some a" for r'
    using address_inj [OF inv that a(1)] .
  show "resource_ok readers writer (pcs[i := q], s\<lparr>sh_heap := (sh_heap s)[a := e]\<rparr>) r"
    using a e by (simp add: resource_ok_def)
  show "b < length (sh_heap (s\<lparr>sh_heap := (sh_heap s)[a := e]\<rparr>)) \<and>
      sh_heap (s\<lparr>sh_heap := (sh_heap s)[a := e]\<rparr>) ! b = sh_heap s ! b"
    if "r' \<noteq> r" "map_of (sh_map s) r' = Some b" "b < length (sh_heap s)" for r' b
    using inj that by (cases "a = b") auto
qed (use a q inv in \<open>auto simp: ns_inv_def pointers_ok_def\<close>)

text \<open>A step that drops a reference, and the entry with the last one.\<close>

lemma ns_inv_drop:
  assumes inv: "ns_inv readers writer (pcs, s)" and i: "i < length pcs" "pointer (pcs ! i) = Some (r, a)"
    and idle: "\<not> holds_lock r True (pcs ! i)" "\<not> holds_lock r False (pcs ! i)" "touches r (pcs ! i)"
  shows "ns_inv readers writer (pcs[i := Idle], ns_giveup r a s)"
proof -
  note a = pointed_entry [OF inv i]
  have t: "tally (refers r) (pcs[i := Idle]) = tally (refers r) pcs - 1" "0 < tally (refers r) pcs"
    "tally (holds_lock r rd) (pcs[i := Idle]) = tally (holds_lock r rd) pcs" for rd
    using tally_update [OF i(1), of "refers r" Idle] tally_update [OF i(1), of "holds_lock r rd" Idle]
      pointer_refers [OF i(2)] idle by (cases rd; auto)+
  have ref: "nl_ref (sh_heap s ! a) = tally (refers r) pcs" using a(3) by (simp add: entry_counts_def)
  show ?thesis
  proof (cases "tally (refers r) pcs = 1")
    case True
    have inj: "r' = r" if "map_of (sh_map s) r' = Some a" for r'
      using address_inj [OF inv that a(1)] .
    show ?thesis
    proof (rule ns_inv_step [OF inv i(1) idle(3)])
      show "b < length (sh_heap (ns_giveup r a s)) \<and> sh_heap (ns_giveup r a s) ! b = sh_heap s ! b"
        if "r' \<noteq> r" "map_of (sh_map s) r' = Some b" "b < length (sh_heap s)" for r' b
        using inj that by (cases "a = b") (auto simp: ns_giveup_def Let_def)
    qed (use True t ref in \<open>auto simp: ns_giveup_def Let_def resource_ok_def delete_conv'\<close>)
  next
    case False
    then have "ns_giveup r a s = s\<lparr>sh_heap := (sh_heap s)[a := (sh_heap s ! a)\<lparr>nl_ref := tally (refers r) pcs - 1\<rparr>]\<rparr>"
      using t(2) ref by (simp add: ns_giveup_def)
    moreover have "ns_inv readers writer (pcs[i := Idle],
        s\<lparr>sh_heap := (sh_heap s)[a := (sh_heap s ! a)\<lparr>nl_ref := tally (refers r) pcs - 1\<rparr>]\<rparr>)"
      using a(3) False t by (intro ns_inv_entry [OF inv i(1) idle(3) _ a(1,2)]) (auto simp: entry_counts_def)
    ultimately show ?thesis by simp
  qed
qed

text \<open>A step that adds a reference, to a new entry or to the one that is there.\<close>

lemma ns_inv_enter:
  assumes inv: "ns_inv readers writer (pcs, s)" and i: "i < length pcs" "pcs ! i = Idle"
    and new: "readers (NewLRWMutex L) = 0" "\<not> writer (NewLRWMutex L)" and e: "ns_enter L r s = (a, s')"
  shows "ns_inv readers writer (pcs[i := Waiting r rd a], s')"
proof -
  let ?q = "Waiting r rd a"
  have t: "tally (refers r) (pcs[i := ?q]) = Suc (tally (refers r) pcs)"
    "tally (holds_lock r x) (pcs[i := ?q]) = tally (holds_lock r x) pcs" for x
    using tally_update [OF i(1), of "refers r" ?q] tally_update [OF i(1), of "holds_lock r x" ?q] i(2) by auto
  have ok: "resource_ok readers writer (pcs, s) r'" for r' using inv by (simp add: ns_inv_def)
  have touch: "touches r (pcs ! i)" using i(2) by simp
  show ?thesis
  proof (cases "map_of (sh_map s) r")
    case None
    then have z: "tally (refers r) pcs = 0" using ok [of r] by (simp add: resource_ok_def)
    have h: "tally (holds_lock r x) pcs = 0" for x
      using z holds_refers by (auto simp: tally_zero)
    have s': "a = length (sh_heap s)" "s' = s\<lparr>sh_map := AList.update r a (sh_map s),
        sh_heap := sh_heap s @ [\<lparr>nl_mutex = NewLRWMutex L, nl_ref = 1\<rparr>]\<rparr>"
      using e None by (auto simp: ns_enter_def)
    have fresh: "b < length (sh_heap s)" if "map_of (sh_map s) r' = Some b" for r' b
      using ok [of r'] that by (simp add: resource_ok_def)
    show ?thesis
      by (rule ns_inv_step [OF inv i(1) touch])
        (use z h t new fresh in \<open>auto simp: s' update_conv' resource_ok_def entry_counts_def nth_append
          dest!: fresh split: if_splits\<close>)
  next
    case (Some b)
    then have s': "a = b" "s' = s\<lparr>sh_heap := (sh_heap s)[b := (sh_heap s ! b)\<lparr>nl_ref := nl_ref (sh_heap s ! b) + 1\<rparr>]\<rparr>"
      using e by (auto simp: ns_enter_def)
    show ?thesis unfolding s'(2)
      using ok [of r] Some t s'(1)
      by (intro ns_inv_entry [OF inv i(1) touch]) (auto simp: resource_ok_def entry_counts_def)
  qed
qed

text \<open>A step on the mutex of the entry a goroutine points to.\<close>

definition with_mutex :: "nat \<Rightarrow> 'm \<Rightarrow> 'm ns_shared \<Rightarrow> 'm ns_shared" where
  "with_mutex a m s = s\<lparr>sh_heap := (sh_heap s)[a := (sh_heap s ! a)\<lparr>nl_mutex := m\<rparr>]\<rparr>"

lemma ns_inv_mutex:
  assumes inv: "ns_inv readers writer (pcs, s)" and i: "i < length pcs" "pointer (pcs ! i) = Some (r, a)"
    and t: "touches r (pcs ! i)" "touches r q" "refers r q" "\<And>b. pointer q = Some (r, b) \<Longrightarrow> b = a"
    and m: "readers m = tally (holds_lock r True) (pcs[i := q])" "writer m = (0 < tally (holds_lock r False) (pcs[i := q]))"
      "tally (holds_lock r False) (pcs[i := q]) \<le> 1" "writer m \<longrightarrow> readers m = 0"
  shows "ns_inv readers writer (pcs[i := q], with_mutex a m s)"
proof -
  note a = pointed_entry [OF inv i]
  have "tally (refers r) (pcs[i := q]) = tally (refers r) pcs"
    using tally_update [OF i(1), of "refers r" q] pointer_refers [OF i(2)] t(3) by simp
  then show ?thesis
    unfolding with_mutex_def using a(3) m by (intro ns_inv_entry [OF inv i(1) t(1,2) a(1,2) t(4)]) (auto simp: entry_counts_def)
qed

section \<open>Every step keeps the invariant\<close>

context lrw_mutex
begin

abbreviation conf_ok :: "'m ns_conf \<Rightarrow> bool" where
  "conf_ok \<equiv> ns_inv readers writer"

lemma attempt_mutex:
  "ns_attempt L rd a s =
     (let m = nl_mutex (sh_heap s ! a); g = (if rd then lrw_GetRLock L m else lrw_GetLock L m)
      in (fst g, with_mutex a (snd g) s))"
  by (simp add: ns_attempt_def with_mutex_def Let_def split: prod.split)

lemma attempt_inv:
  assumes inv: "conf_ok (pcs, s)" and i: "i < length pcs" "pcs ! i = Waiting r rd a"
    and l: "ns_attempt L rd a s = (ok, s')"
  shows "conf_ok (pcs[i := (if ok then Holding r rd else Failed r a)], s')"
proof -
  define m where "m = nl_mutex (sh_heap s ! a)"
  define q where "q = (if ok then Holding r rd else Failed r a)"
  have ptr: "pointer (pcs ! i) = Some (r, a)" using i(2) by simp
  have c: "readers m = tally (holds_lock r True) pcs" "writer m = (0 < tally (holds_lock r False) pcs)"
    "tally (holds_lock r False) pcs \<le> 1" "writer m \<Longrightarrow> readers m = 0"
    using pointed_entry(3) [OF inv i(1) ptr] by (simp_all add: entry_counts_def m_def)
  have t: "tally (holds_lock r x) (pcs[i := q]) = tally (holds_lock r x) pcs + (if ok \<and> rd = x then 1 else 0)" for x
    using tally_update [OF i(1), of "holds_lock r x" q] i(2) by (simp add: q_def)
  define m' where "m' = snd (if rd then lrw_GetRLock L m else lrw_GetLock L m)"
  have s': "s' = with_mutex a m' s" "ok = fst (if rd then lrw_GetRLock L m else lrw_GetLock L m)"
    using l by (auto simp: attempt_mutex Let_def m_def m'_def)
  have "readers m' = tally (holds_lock r True) (pcs[i := q])" "writer m' = (0 < tally (holds_lock r False) (pcs[i := q]))"
    "tally (holds_lock r False) (pcs[i := q]) \<le> 1" "writer m' \<longrightarrow> readers m' = 0"
    unfolding t m'_def
    using c s'(2) lock_iff [of m] lock_state [of m] lock_failed [of m] rlock_iff [of m] rlock_state [of m] rlock_failed [of m]
    by (cases rd; cases ok; simp)+
  then show ?thesis unfolding s'(1) q_def [symmetric]
    by (intro ns_inv_mutex [OF inv i(1) ptr]) (auto simp: i(2) q_def split: if_splits)
qed

lemma release_inv:
  assumes inv: "conf_ok (pcs, s)" and i: "i < length pcs" "pcs ! i = Unlocking r rd a"
  shows "conf_ok (pcs[i := Unlocked r a], ns_release L rd a s)"
proof -
  define m where "m = nl_mutex (sh_heap s ! a)"
  have ptr: "pointer (pcs ! i) = Some (r, a)" using i(2) by simp
  have c: "readers m = tally (holds_lock r True) pcs" "writer m = (0 < tally (holds_lock r False) pcs)"
    "tally (holds_lock r False) pcs \<le> 1" "writer m \<Longrightarrow> readers m = 0"
    using pointed_entry(3) [OF inv i(1) ptr] by (simp_all add: entry_counts_def m_def)
  have t: "tally (holds_lock r x) (pcs[i := Unlocked r a]) = tally (holds_lock r x) pcs - (if rd = x then 1 else 0)"
    "rd = x \<Longrightarrow> 0 < tally (holds_lock r x) pcs" for x
    using tally_update [OF i(1), of "holds_lock r x" "Unlocked r a"] i(2) by (auto split: if_splits)
  define m' where "m' = (if rd then lrw_RUnlock L m else lrw_Unlock L m)"
  have s': "ns_release L rd a s = with_mutex a m' s"
    by (simp add: ns_release_def with_mutex_def Let_def m_def m'_def)
  have "readers m' = tally (holds_lock r True) (pcs[i := Unlocked r a])"
    "writer m' = (0 < tally (holds_lock r False) (pcs[i := Unlocked r a]))"
    "tally (holds_lock r False) (pcs[i := Unlocked r a]) \<le> 1" "writer m' \<longrightarrow> readers m' = 0"
    unfolding t(1) m'_def using c t(2) [of rd] unlock_state [of m] runlock_state [of m] by (cases rd; auto)+
  then show ?thesis unfolding s' by (intro ns_inv_mutex [OF inv i(1) ptr]) (auto simp: i(2))
qed

lemma step_inv: "ns_step L c c' \<Longrightarrow> conf_ok c \<Longrightarrow> conf_ok c'"
proof (induction rule: ns_step.induct)
  case (step_enter i pcs r s a s' rd)
  then show ?case using ns_inv_enter new_free by blast
next
  case (step_locked i pcs r rd a s s')
  then show ?case using attempt_inv [of pcs s i r rd a True s'] by simp
next
  case (step_timeout i pcs r rd a s s')
  then show ?case using attempt_inv [of pcs s i r rd a False s'] by simp
next
  case (step_giveup i pcs r a s)
  then show ?case by (intro ns_inv_drop) auto
next
  case (step_lookup i pcs r rd s a)
  let ?q = "Unlocking r rd a"
  have "tally (refers r) (pcs[i := ?q]) = tally (refers r) pcs"
    "tally (holds_lock r x) (pcs[i := ?q]) = tally (holds_lock r x) pcs" for x
    using tally_update [OF step_lookup(1), of "refers r" ?q] tally_update [OF step_lookup(1), of "holds_lock r x" ?q]
    by (simp_all add: step_lookup(2))
  then have "resource_ok readers writer (pcs[i := ?q], s) r"
    using step_lookup(3,4) by (auto simp: ns_inv_def resource_ok_def dest: spec [of _ r])
  then show ?case using step_lookup(2,3)
    by (intro ns_inv_step [OF step_lookup(4,1), of r]) (auto dest: address_inj [OF step_lookup(4)])
next
  case (step_not_found i pcs r rd s)
  then show ?case using held_entry [of readers writer pcs s i r] by simp
next
  case (step_release i pcs r rd a s)
  then show ?case by (intro release_inv)
next
  case (step_unref i pcs r a s)
  then have "nl_ref (sh_heap s ! a) \<noteq> 0"
    using pointed_entry(3) [of readers writer pcs s i r a] by (simp add: entry_counts_def)
  then show ?case using step_unref by (auto simp: ns_unref_def intro: ns_inv_drop)
qed

lemma start_inv: "conf_ok (ns_start n)"
  by (auto simp: ns_start_def ns_inv_def resource_ok_def pointers_ok_def tally_zero)

lemma reachable_inv: "(ns_step L)\<^sup>*\<^sup>* (ns_start n) c \<Longrightarrow> conf_ok c"
  by (induction rule: rtranclp_induct) (auto intro: start_inv step_inv)

text \<open>Goroutines that hold the same resource exclude each other, unless all of them read.\<close>

lemma exclusive:
  assumes "conf_ok (pcs, s)" "i < length pcs" "j < length pcs" "i \<noteq> j" "holds_lock r x (pcs ! i)" "holds_lock r y (pcs ! j)"
  shows "x \<and> y"
proof -
  have pos: "0 < tally (holds_lock r x) pcs" "0 < tally (holds_lock r y) pcs" using assms by (auto intro: tally_pos)
  have "0 < tally (refers r) pcs" using assms by (auto intro: tally_pos holds_refers)
  moreover have "resource_ok readers writer (pcs, s) r" using assms(1) by (simp add: ns_inv_def)
  ultimately have c: "tally (holds_lock r False) pcs \<le> 1" "0 < tally (holds_lock r False) pcs \<longrightarrow> tally (holds_lock r True) pcs = 0"
    by (auto simp: resource_ok_def entry_counts_def split: option.splits)
  have "\<not> (\<not> x \<and> \<not> y)" using c(1) tally_two [OF assms(2-4), of "holds_lock r False"] assms(5,6) by (cases x; cases y) auto
  then show ?thesis using c(2) pos by (cases x; cases y) auto
qed

lemma map_is_referenced:
  assumes "conf_ok (pcs, s)"
  shows "map_of (sh_map s) r = None \<longleftrightarrow> (\<forall>p \<in> set pcs. \<not> refers r p)"
    "map_of (sh_map s) r = Some a \<Longrightarrow> nl_ref (sh_heap s ! a) = tally (refers r) pcs"
proof -
  have "resource_ok readers writer (pcs, s) r" using assms by (simp add: ns_inv_def)
  then show "map_of (sh_map s) r = None \<longleftrightarrow> (\<forall>p \<in> set pcs. \<not> refers r p)"
    "map_of (sh_map s) r = Some a \<Longrightarrow> nl_ref (sh_heap s ! a) = tally (refers r) pcs"
    unfolding tally_zero [symmetric] by (auto simp: resource_ok_def entry_counts_def split: option.splits)
qed

text \<open>Nobody who waits is refused while the resource is free for what they want.\<close>

lemma attempt_succeeds:
  assumes inv: "conf_ok (pcs, s)" and i: "i < length pcs" "pcs ! i = Waiting r rd a"
  shows "fst (ns_attempt L rd a s) \<longleftrightarrow>
    (\<forall>p \<in> set pcs. \<not> holds_lock r False p \<and> (rd \<or> \<not> holds_lock r True p))"
proof -
  have ptr: "pointer (pcs ! i) = Some (r, a)" using i(2) by simp
  have "readers (nl_mutex (sh_heap s ! a)) = tally (holds_lock r True) pcs"
    "writer (nl_mutex (sh_heap s ! a)) = (0 < tally (holds_lock r False) pcs)"
    using pointed_entry(3) [OF inv i(1) ptr] by (simp_all add: entry_counts_def)
  then show ?thesis
    using tally_zero [of "holds_lock r False" pcs] tally_zero [of "holds_lock r True" pcs]
    by (auto simp: attempt_mutex Let_def lock_iff rlock_iff)
qed

end

section \<open>The whole functions\<close>

text \<open>The map of \<open>Namespace_Lock\<close>, with the entries in place of their addresses.\<close>

definition ns_view :: "'m ns_shared \<Rightarrow> string \<Rightarrow> 'm nsLock option" where
  "ns_view s r = map_option (\<lambda>a. sh_heap s ! a) (map_of (sh_map s) r)"

definition addresses_ok :: "'m ns_shared \<Rightarrow> bool" where
  "addresses_ok s \<longleftrightarrow> (\<forall>r a. map_of (sh_map s) r = Some a \<longrightarrow> a < length (sh_heap s)) \<and>
     (\<forall>r r' a. map_of (sh_map s) r = Some a \<longrightarrow> map_of (sh_map s) r' = Some a \<longrightarrow> r = r')"

definition ns_lock_run :: "'m lrw_ops \<Rightarrow> string \<Rightarrow> bool \<Rightarrow> 'm ns_shared \<Rightarrow> bool \<times> 'm ns_shared" where
  "ns_lock_run L r rd s =
     (let (a, s) = ns_enter L r s; (ok, s) = ns_attempt L rd a s
      in (ok, if ok then s else ns_giveup r a s))"

definition ns_unlock_run :: "'m lrw_ops \<Rightarrow> string \<Rightarrow> bool \<Rightarrow> 'm ns_shared \<Rightarrow> 'm ns_shared" where
  "ns_unlock_run L r rd s =
     (case map_of (sh_map s) r of None \<Rightarrow> s | Some a \<Rightarrow> ns_unref r a (ns_release L rd a s))"

lemma ns_view_update:
  assumes "addresses_ok s" "map_of (sh_map s) r = Some a"
  shows "ns_view (s\<lparr>sh_heap := (sh_heap s)[a := e]\<rparr>) = (ns_view s)(r \<mapsto> e)"
    "addresses_ok (s\<lparr>sh_heap := (sh_heap s)[a := e]\<rparr>)"
proof -
  show "ns_view (s\<lparr>sh_heap := (sh_heap s)[a := e]\<rparr>) = (ns_view s)(r \<mapsto> e)"
  proof
    fix r'
    have "b \<noteq> a" if "map_of (sh_map s) r' = Some b" "r' \<noteq> r" for b
      using assms that by (auto simp: addresses_ok_def)
    then show "ns_view (s\<lparr>sh_heap := (sh_heap s)[a := e]\<rparr>) r' = ((ns_view s)(r \<mapsto> e)) r'"
      using assms by (cases "map_of (sh_map s) r'") (auto simp: ns_view_def addresses_ok_def)
  qed
  show "addresses_ok (s\<lparr>sh_heap := (sh_heap s)[a := e]\<rparr>)" using assms(1) by (simp add: addresses_ok_def)
qed

lemma ns_view_enter:
  assumes "addresses_ok s" "ns_view s = map_of m" "ns_enter L r s = (a, s')"
  shows "ns_view s' = (map_of m)(r \<mapsto> nsLock_entry L m r)" "addresses_ok s'" "map_of (sh_map s') r = Some a"
    "sh_heap s' ! a = nsLock_entry L m r"
proof -
  have "ns_view s' = (map_of m)(r \<mapsto> nsLock_entry L m r) \<and> addresses_ok s' \<and> map_of (sh_map s') r = Some a \<and>
      sh_heap s' ! a = nsLock_entry L m r"
  proof (cases "map_of (sh_map s) r")
    case None
    then have m: "map_of m r = None" using assms(2) by (metis map_option_is_None ns_view_def)
    have s': "a = length (sh_heap s)" "s' = s\<lparr>sh_map := AList.update r a (sh_map s),
        sh_heap := sh_heap s @ [\<lparr>nl_mutex = NewLRWMutex L, nl_ref = 1\<rparr>]\<rparr>"
      using assms(3) None by (auto simp: ns_enter_def)
    have lt: "b < length (sh_heap s)" if "map_of (sh_map s) r' = Some b" for r' b
      using assms(1) that by (auto simp: addresses_ok_def)
    have "ns_view s' x = ((map_of m)(r \<mapsto> nsLock_entry L m r)) x" for x
      using fun_cong [OF assms(2), of x] m lt [of x]
      by (cases "map_of (sh_map s) x") (auto simp: s' ns_view_def update_conv' nsLock_entry_def nth_append)
    moreover have "addresses_ok s'"
      using assms(1) lt by (auto simp: addresses_ok_def s' update_conv' dest: lt split: if_splits intro: less_SucI)
    ultimately show ?thesis using m by (auto simp: s' update_conv' nsLock_entry_def)
  next
    case (Some b)
    then have m: "map_of m r = Some (sh_heap s ! b)" using fun_cong [OF assms(2), of r] by (simp add: ns_view_def)
    have lt: "b < length (sh_heap s)" using assms(1) Some by (auto simp: addresses_ok_def)
    have s': "a = b" "s' = s\<lparr>sh_heap := (sh_heap s)[b := nsLock_entry L m r]\<rparr>"
      using assms(3) Some m by (auto simp: ns_enter_def nsLock_entry_def)
    show ?thesis using ns_view_update [OF assms(1) Some, of "nsLock_entry L m r"] lt Some assms(2) by (simp add: s')
  qed
  then show "ns_view s' = (map_of m)(r \<mapsto> nsLock_entry L m r)" "addresses_ok s'" "map_of (sh_map s') r = Some a"
    "sh_heap s' ! a = nsLock_entry L m r" by blast+
qed

lemma ns_view_giveup:
  assumes "addresses_ok s" "map_of (sh_map s) r = Some a"
  shows "ns_view (ns_giveup r a s) =
      (if nl_ref (sh_heap s ! a) - 1 = 0 then (ns_view s)(r := None)
       else (ns_view s)(r \<mapsto> (sh_heap s ! a)\<lparr>nl_ref := nl_ref (sh_heap s ! a) - 1\<rparr>))"
proof (cases "nl_ref (sh_heap s ! a) - 1 = 0")
  case True
  let ?e = "(sh_heap s ! a)\<lparr>nl_ref := nl_ref (sh_heap s ! a) - 1\<rparr>"
  have "ns_view (ns_giveup r a s) = (ns_view (s\<lparr>sh_heap := (sh_heap s)[a := ?e]\<rparr>))(r := None)"
    using True by (auto simp: ns_giveup_def ns_view_def delete_conv' fun_eq_iff)
  then show ?thesis using True ns_view_update(1) [OF assms, of ?e] by simp
next
  case False
  then show ?thesis using ns_view_update(1) [OF assms] by (simp add: ns_giveup_def Let_def)
qed

text \<open>Run without interruption, the steps of \<^verbatim>\<open>lock\<close> and of \<^verbatim>\<open>unlock\<close> are the functions of \<open>Namespace_Lock\<close>.\<close>

lemma lock_run:
  assumes "addresses_ok s" "ns_view s = map_of m"
  shows "fst (ns_lock_run L (pathJoin [vol, p]) rd s) = fst (nsLockMap_lock L m vol p rd)"
    "ns_view (snd (ns_lock_run L (pathJoin [vol, p]) rd s)) = map_of (snd (nsLockMap_lock L m vol p rd))"
proof -
  define r where "r = pathJoin [vol, p]"
  obtain a s1 where e: "ns_enter L r s = (a, s1)" by fastforce
  note s1 = ns_view_enter [OF assms e]
  define g where "g = (if rd then lrw_GetRLock L (nl_mutex (nsLock_entry L m r)) else lrw_GetLock L (nl_mutex (nsLock_entry L m r)))"
  define en where "en = (nsLock_entry L m r)\<lparr>nl_mutex := snd g\<rparr>"
  define s2 where "s2 = s1\<lparr>sh_heap := (sh_heap s1)[a := en]\<rparr>"
  have att: "ns_attempt L rd a s1 = (fst g, s2)"
    by (simp add: ns_attempt_def s1(4) g_def en_def s2_def Let_def split: prod.split)
  have lt: "a < length (sh_heap s1)" using s1(2,3) by (auto simp: addresses_ok_def)
  have s2: "ns_view s2 = (map_of m)(r \<mapsto> en)" "addresses_ok s2" "map_of (sh_map s2) r = Some a" "sh_heap s2 ! a = en"
    using ns_view_update [OF s1(2,3), of en] s1(1,3) lt by (simp_all add: s2_def)
  have up: "map_of (AList.update r x m) = (map_of m)(r \<mapsto> x)" "map_of (AList.delete r m) = (map_of m)(r := None)" for x
    by (simp_all add: update_conv' delete_conv')
  have lk: "nsLockMap_lock L m vol p rd =
      (if fst g then (True, AList.update r en m)
       else (False, if nl_ref en - 1 = 0 then AList.delete r m
                    else AList.update r (en\<lparr>nl_ref := nl_ref en - 1\<rparr>) m))"
    by (simp add: nsLockMap_lock_def r_def [symmetric] g_def [symmetric] en_def Let_def split: prod.split)
  show "fst (ns_lock_run L (pathJoin [vol, p]) rd s) = fst (nsLockMap_lock L m vol p rd)"
    by (simp add: lk ns_lock_run_def r_def [symmetric] e att)
  show "ns_view (snd (ns_lock_run L (pathJoin [vol, p]) rd s)) = map_of (snd (nsLockMap_lock L m vol p rd))"
    using s2(1) ns_view_giveup [OF s2(2,3)] by (simp add: lk ns_lock_run_def r_def [symmetric] e att up s2(4))
qed

lemma unlock_run:
  assumes "addresses_ok s" "ns_view s = map_of m"
  shows "ns_view (ns_unlock_run L (pathJoin [vol, p]) rd s) = map_of (nsLockMap_unlock L m vol p rd)"
proof -
  define r where "r = pathJoin [vol, p]"
  show ?thesis
  proof (cases "map_of (sh_map s) r")
    case None
    then have "map_of m r = None" using assms(2) by (metis map_option_is_None ns_view_def)
    then show ?thesis using None assms(2) by (simp add: ns_unlock_run_def nsLockMap_unlock_def r_def [symmetric])
  next
    case (Some a)
    define en where "en = (sh_heap s ! a)\<lparr>nl_mutex :=
       (if rd then lrw_RUnlock L (nl_mutex (sh_heap s ! a)) else lrw_Unlock L (nl_mutex (sh_heap s ! a)))\<rparr>"
    define s1 where "s1 = s\<lparr>sh_heap := (sh_heap s)[a := en]\<rparr>"
    have m: "map_of m r = Some (sh_heap s ! a)" using fun_cong [OF assms(2), of r] Some by (simp add: ns_view_def)
    have rel: "ns_release L rd a s = s1" by (simp add: ns_release_def s1_def en_def Let_def)
    have lt: "a < length (sh_heap s)" using assms(1) Some by (auto simp: addresses_ok_def)
    have s1: "ns_view s1 = (map_of m)(r \<mapsto> en)" "addresses_ok s1" "map_of (sh_map s1) r = Some a" "sh_heap s1 ! a = en"
      using ns_view_update [OF assms(1) Some, of en] assms(2) Some lt by (simp_all add: s1_def)
    have ul: "nsLockMap_unlock L m vol p rd =
        (if nl_ref en = 0 then AList.update r en m
         else if nl_ref en - 1 = 0 then AList.delete r m else AList.update r (en\<lparr>nl_ref := nl_ref en - 1\<rparr>) m)"
      by (simp add: nsLockMap_unlock_def r_def [symmetric] m en_def Let_def)
    show ?thesis
      using s1(1) ns_view_giveup [OF s1(2,3)]
      by (simp add: ul ns_unlock_run_def ns_unref_def r_def [symmetric] Some rel s1(4) update_conv' delete_conv')
  qed
qed

section \<open>Concurrent goroutines\<close>

text \<open>C10. However goroutines interleave the critical sections of \<^verbatim>\<open>lock\<close> and \<^verbatim>\<open>unlock\<close>: two that hold the same resource
  are both readers; the map has an entry for a resource exactly while some goroutine is between entering
  and leaving it, and its count is the number of those; and an attempt succeeds exactly when nobody
  holds the resource in a conflicting mode, so that a failed or abandoned attempt never blocks others.\<close>

theorem namespace_locks_exclusive:
  assumes "lrw_mutex L readers writer" "(ns_step L)\<^sup>*\<^sup>* (ns_start n) (pcs, s)"
  shows "(\<forall>i j r x y. i < length pcs \<longrightarrow> j < length pcs \<longrightarrow> i \<noteq> j \<longrightarrow>
            holds_lock r x (pcs ! i) \<longrightarrow> holds_lock r y (pcs ! j) \<longrightarrow> x \<and> y) \<and>
         (\<forall>r. map_of (sh_map s) r = None \<longleftrightarrow> (\<forall>p \<in> set pcs. \<not> refers r p)) \<and>
         (\<forall>r a. map_of (sh_map s) r = Some a \<longrightarrow> nl_ref (sh_heap s ! a) = length (filter (refers r) pcs)) \<and>
         (\<forall>i r rd a. i < length pcs \<longrightarrow> pcs ! i = Waiting r rd a \<longrightarrow>
            (fst (ns_attempt L rd a s) \<longleftrightarrow> (\<forall>p \<in> set pcs. \<not> holds_lock r False p \<and> (rd \<or> \<not> holds_lock r True p))))"
proof -
  note inv = lrw_mutex.reachable_inv [OF assms]
  show ?thesis
    using lrw_mutex.exclusive [OF assms(1) inv] lrw_mutex.map_is_referenced [OF assms(1) inv]
      lrw_mutex.attempt_succeeds [OF assms(1) inv] unfolding tally_def by blast
qed

text \<open>Two readers in, a writer waiting for the same resource.\<close>

definition example_locks :: "(nat \<times> bool) ns_conf" where
  "example_locks =
     ([Holding ''b/x'' True, Holding ''b/x'' True, Waiting ''b/x'' False 0],
      \<lparr>sh_map = [(''b/x'', 0)], sh_heap = [\<lparr>nl_mutex = (2, False), nl_ref = 3\<rparr>]\<rparr>)"

lemma example_locks_reached: "(ns_step mem_lrw)\<^sup>*\<^sup>* (ns_start 3) example_locks"
proof -
  let ?W = "Waiting ''b/x'' True 0" and ?H = "Holding ''b/x'' True" and ?V = "Waiting ''b/x'' False 0"
  let ?s = "\<lambda>m k. \<lparr>sh_map = [(''b/x'', 0)], sh_heap = [\<lparr>nl_mutex = m, nl_ref = k\<rparr>]\<rparr>"
  note steps = ns_step.intros [where L = mem_lrw]
  have "ns_step mem_lrw (ns_start 3) ([?W, Idle, Idle], ?s (0, False) 1)"
    using steps(1) [of 0 "[Idle, Idle, Idle]" "''b/x''" "\<lparr>sh_map = [], sh_heap = []\<rparr>" 0 "?s (0, False) 1" True]
    by (simp add: ns_start_def ns_enter_def mem_lrw_def numeral_3_eq_3)
  moreover have "ns_step mem_lrw ([?W, Idle, Idle], ?s (0, False) 1) ([?W, ?W, Idle], ?s (0, False) 2)"
    using steps(1) [of 1 "[?W, Idle, Idle]" "''b/x''" "?s (0, False) 1" 0 "?s (0, False) 2" True]
    by (simp add: ns_enter_def numeral_2_eq_2)
  moreover have "ns_step mem_lrw ([?W, ?W, Idle], ?s (0, False) 2) ([?W, ?W, ?V], ?s (0, False) 3)"
    using steps(1) [of 2 "[?W, ?W, Idle]" "''b/x''" "?s (0, False) 2" 0 "?s (0, False) 3" False]
    by (simp add: ns_enter_def numeral_2_eq_2 numeral_3_eq_3)
  moreover have "ns_step mem_lrw ([?W, ?W, ?V], ?s (0, False) 3) ([?H, ?W, ?V], ?s (1, False) 3)"
    using steps(2) [of 0 "[?W, ?W, ?V]" "''b/x''" True 0 "?s (0, False) 3" "?s (1, False) 3"]
    by (simp add: ns_attempt_def mem_lrw_def)
  moreover have "ns_step mem_lrw ([?H, ?W, ?V], ?s (1, False) 3) example_locks"
    using steps(2) [of 1 "[?H, ?W, ?V]" "''b/x''" True 0 "?s (1, False) 3" "?s (2, False) 3"]
    by (simp add: ns_attempt_def mem_lrw_def example_locks_def numeral_2_eq_2)
  ultimately show ?thesis by (meson converse_rtranclp_into_rtranclp rtranclp.rtrancl_refl)
qed

theorem namespace_locks_exclusive_witness:
  "nl_ref (sh_heap (snd example_locks) ! 0) = length (filter (refers ''b/x'') (fst example_locks)) \<and>
   \<not> fst (ns_attempt mem_lrw False 0 (snd example_locks))"
proof -
  obtain pcs s where c: "example_locks = (pcs, s)" by fastforce
  have facts: "map_of (sh_map s) ''b/x'' = Some 0" "length pcs = 3" "pcs ! 2 = Waiting ''b/x'' False 0"
    "Holding ''b/x'' True \<in> set pcs"
    using c by (auto simp: example_locks_def)
  have "(ns_step mem_lrw)\<^sup>*\<^sup>* (ns_start 3) (pcs, s)" using example_locks_reached c by simp
  note t = namespace_locks_exclusive [OF mem_lrw.lrw_mutex_axioms this]
  have "nl_ref (sh_heap s ! 0) = length (filter (refers ''b/x'') pcs)"
    by (rule t [THEN conjunct2, THEN conjunct2, THEN conjunct1, rule_format, OF facts(1)])
  moreover have "2 < length pcs" using facts(2) by simp
  note t [THEN conjunct2, THEN conjunct2, THEN conjunct2, rule_format, OF this facts(3)]
  then have "\<not> fst (ns_attempt mem_lrw False 0 s)"
    using facts(4) by (metis holds_lock.simps(1))
  ultimately show ?thesis unfolding c fst_conv snd_conv by blast
qed

end
