(* ===== verification/Iam_Policy.thy ===== *)
theory Iam_Policy
  imports Bucket_Policy
begin

text \<open>
  The policies of users and groups, \<^verbatim>\<open>pkg/iam/policy\<close>: actions with wildcards, administrative actions, resources,
  statements and policies with their decoding, validation and evaluation, and the canned policies. Effects,
  conditions, the fields of a resource and the loops that both packages write the same way are those of
  \<open>Bucket_Policy\<close> and \<open>Policy_Conditions\<close>. As there, the model starts at the decoded fields of a JSON document.

  The lemmas show which requests a policy allows, that decoded policies evaluate without a panic, what the
  canned policies allow, and which permissions no decoded policy can name.
\<close>

section \<open>Actions\<close>

definition iam_supportedActions :: "Action list" where
  "iam_supportedActions =
     [''s3:*'', ''s3:AbortMultipartUpload'', ''s3:CreateBucket'', ''s3:DeleteBucket'', ''s3:DeleteBucketPolicy'', ''s3:DeleteObject'',
      ''s3:GetBucketLocation'', ''s3:GetBucketNotification'', ''s3:GetBucketPolicy'', ''s3:GetObject'', ''s3:HeadBucket'',
      ''s3:ListAllMyBuckets'', ''s3:ListBucket'', ''s3:ListBucketMultipartUploads'', ''s3:ListenBucketNotification'',
      ''s3:ListMultipartUploadParts'', ''s3:PutBucketNotification'', ''s3:PutBucketPolicy'', ''s3:PutObject'',
      ''s3:GetBucketLifecycle'', ''s3:PutBucketLifecycle'', ''s3:PutObjectRetention'', ''s3:GetObjectRetention'',
      ''s3:GetObjectLegalHold'', ''s3:PutObjectLegalHold'', ''s3:PutBucketObjectLockConfiguration'',
      ''s3:GetBucketObjectLockConfiguration'', ''s3:BypassGovernanceMode'', ''s3:BypassGovernanceRetention'',
      ''s3:GetObjectTagging'', ''s3:PutObjectTagging'', ''s3:DeleteObjectTagging'', ''s3:PutEncryptionConfiguration'',
      ''s3:GetEncryptionConfiguration'']"

definition iam_Action_IsValid :: "Action \<Rightarrow> bool" where
  "iam_Action_IsValid action = (action \<in> set iam_supportedActions)"

definition supportedAdminActions :: "Action list" where
  "supportedAdminActions =
     [''admin:*'', ''admin:Heal'', ''admin:ServerInfo'', ''admin:StorageInfo'', ''admin:DataUsageInfo'', ''admin:PerfInfo'',
      ''admin:TopLocksInfo'', ''admin:Profiling'', ''admin:ServerTrace'', ''admin:ConsoleLog'', ''admin:KMSKeyStatus'',
      ''admin:HardwareInfo'', ''admin:ServerUpdate'', ''admin:ConfigUpdate'', ''admin:CreateUser'', ''admin:DeleteUser'',
      ''admin:ListUsers'', ''admin:EnableUser'', ''admin:DisableUser'', ''admin:GetUser'', ''admin:AddUserToGroup'',
      ''admin:RemoveUserFromGroup'', ''admin:ListGroups'', ''admin:EnableGroup'', ''admin:DisableGroup'',
      ''admin:CreatePolicy'', ''admin:DeletePolicy'', ''admin:GetPolicy'', ''admin:AttachUserOrGroupPolicy'',
      ''admin:ListUserPolicies'']"

definition AdminAction_IsValid :: "Action \<Rightarrow> bool" where
  "AdminAction_IsValid action = (action \<in> set supportedAdminActions)"

definition parseAdminAction :: "string \<Rightarrow> error + Action" where
  "parseAdminAction s = (if AdminAction_IsValid s then Inr s else Inl (policy_error ''unsupported action''))"

definition parseAction :: "string \<Rightarrow> error + Action" where
  "parseAction s =
     (case parseAdminAction s of
        Inr adminAction \<Rightarrow> Inr adminAction
      | Inl _ \<Rightarrow> if iam_Action_IsValid s then Inr s else Inl (policy_error ''unsupported action''))"

definition Action_Match :: "Action \<Rightarrow> Action \<Rightarrow> bool" where
  "Action_Match action a = wildcard_Match action a"

definition ActionSet_Match :: "ActionSet \<Rightarrow> Action \<Rightarrow> bool" where
  "ActionSet_Match actionSet action = list_ex (\<lambda>r. Action_Match r action) actionSet"

definition ActionSet_Intersection :: "ActionSet \<Rightarrow> ActionSet \<Rightarrow> ActionSet" where
  "ActionSet_Intersection actionSet sset = filter (\<lambda>k. k \<in> set sset) actionSet"

text \<open>The condition keys an action may use; a missing entry of the map is the empty set.\<close>

definition AllSupportedAdminKeys :: "Key list" where
  "AllSupportedAdminKeys =
     [''aws:Referer'', AWSSourceIP, ''aws:UserAgent'', AWSSecureTransport, ''aws:CurrentTime'', ''aws:EpochTime'']"

definition adminActionConditionKeyMap :: "Action \<Rightarrow> KeySet" where
  "adminActionConditionKeyMap action =
     (if action \<in> set supportedAdminActions then NewKeySet AllSupportedAdminKeys else [])"

definition iam_actionConditionKeyMap :: "Action \<Rightarrow> KeySet" where
  "iam_actionConditionKeyMap action =
     (if action = ''s3:*'' then NewKeySet AllSupportedKeys
      else if action = ''s3:GetObject'' then
        NewKeySet ([S3XAmzServerSideEncryption, S3XAmzServerSideEncryptionCustomerAlgorithm, S3XAmzStorageClass] @ CommonKeys)
      else if action = ''s3:ListBucket'' then NewKeySet ([S3Prefix, S3Delimiter, S3MaxKeys] @ CommonKeys)
      else if action = ''s3:PutObject'' then
        NewKeySet ([S3XAmzCopySource, S3XAmzServerSideEncryption, S3XAmzServerSideEncryptionCustomerAlgorithm,
                    S3XAmzMetadataDirective, S3XAmzStorageClass] @ CommonKeys)
      else if action \<in> {''s3:AbortMultipartUpload'', ''s3:CreateBucket'', ''s3:DeleteBucketPolicy'', ''s3:DeleteObject'',
          ''s3:GetBucketLocation'', ''s3:GetBucketNotification'', ''s3:GetBucketPolicy'', ''s3:HeadBucket'',
          ''s3:ListAllMyBuckets'', ''s3:ListBucketMultipartUploads'', ''s3:ListenBucketNotification'',
          ''s3:ListMultipartUploadParts'', ''s3:PutBucketNotification'', ''s3:PutBucketPolicy'',
          ''s3:PutObjectRetention'', ''s3:GetObjectRetention'', ''s3:PutObjectLegalHold'', ''s3:GetObjectLegalHold'',
          ''s3:BypassGovernanceMode'', ''s3:BypassGovernanceRetention'', ''s3:GetBucketObjectLockConfiguration'',
          ''s3:PutBucketObjectLockConfiguration'', ''s3:PutObjectTagging'', ''s3:GetObjectTagging'',
          ''s3:DeleteObjectTagging''} then NewKeySet CommonKeys
      else [])"

section \<open>Resources\<close>

definition iam_isBucketPattern :: "Resource \<Rightarrow> bool" where
  "iam_isBucketPattern r = (\<not> strings_Contains (rs_Pattern r) ''/'' \<or> rs_Pattern r = ''*'')"

definition iam_isObjectPattern :: "Resource \<Rightarrow> bool" where
  "iam_isObjectPattern r =
     (strings_Contains (rs_Pattern r) ''/'' \<or> strings_Contains (rs_BucketName r) ''*'' \<or> rs_Pattern r = ''*/*'')"

definition iam_Resource_IsValid :: "Resource \<Rightarrow> bool" where
  "iam_Resource_IsValid r = (rs_Pattern r \<noteq> [])"

definition iam_Resource_Match :: "Resource \<Rightarrow> string \<Rightarrow> values_map \<Rightarrow> error + bool" where
  "iam_Resource_Match r resource conditionValues =
     (case subst_vars conditionValues CommonKeys (rs_Pattern r) of
        Inl e \<Rightarrow> Inl e
      | Inr pattern \<Rightarrow> if path_Clean resource = pattern then Inr True else Match pattern resource)"

definition iam_Resource_Validate :: "Resource \<Rightarrow> error option" where
  "iam_Resource_Validate r = (if \<not> iam_Resource_IsValid r then Some (policy_error ''invalid resource'') else None)"

definition NewResource :: "string \<Rightarrow> string \<Rightarrow> Resource" where
  "NewResource bucketName keyName =
     \<lparr>rs_BucketName = bucketName,
      rs_Pattern = bucketName @
        (if keyName \<noteq> [] then (if \<not> strings_HasPrefix keyName ''/'' then ''/'' else []) @ keyName else [])\<rparr>"

definition iam_ResourceSet_Match :: "ResourceSet \<Rightarrow> string \<Rightarrow> values_map \<Rightarrow> error + bool" where
  "iam_ResourceSet_Match rs resource conditionValues =
     any_match (\<lambda>r. iam_Resource_Match r resource conditionValues) rs"

section \<open>Statements\<close>

record iam_Statement =
  is_SID :: string
  is_Effect :: Effect
  is_Actions :: ActionSet
  is_Resources :: ResourceSet
  is_Conditions :: "Function list"

text \<open>The values of \<^verbatim>\<open>map[string]interface{}\<close>, as far as type assertions of the code tell them apart.\<close>

datatype claim = ClaimString string | ClaimStrings "string list" | ClaimList "claim list" | ClaimOther

record iam_Args =
  ia_AccountName :: string
  ia_Action :: Action
  ia_BucketName :: string
  ia_ConditionValues :: values_map
  ia_IsOwner :: bool
  ia_ObjectName :: string
  ia_Claims :: "(string \<times> claim) list"

definition GetPolicies :: "iam_Args \<Rightarrow> string \<Rightarrow> string list option" where
  "GetPolicies a policyClaimName =
     (case map_of (ia_Claims a) policyClaimName of
        None \<Rightarrow> None
      | Some (ClaimString s) \<Rightarrow> Some (strings_Split s CHR '','')
      | Some (ClaimStrings ss) \<Rightarrow> Some ss
      | Some _ \<Rightarrow> None)"

definition iam_resource_of :: "iam_Args \<Rightarrow> string" where
  "iam_resource_of args =
     ia_BucketName args @
     (if ia_ObjectName args \<noteq> [] then
        (if \<not> strings_HasPrefix (ia_ObjectName args) ''/'' then ''/'' else []) @ ia_ObjectName args
      else ''/'')"

definition isAdmin :: "iam_Statement \<Rightarrow> bool" where
  "isAdmin st = list_all AdminAction_IsValid (is_Actions st)"

definition iam_Statement_check :: "policy_lib \<Rightarrow> iam_Statement \<Rightarrow> iam_Args \<Rightarrow> error + bool" where
  "iam_Statement_check L st args =
     (if \<not> ActionSet_Match (is_Actions st) (ia_Action args) then Inr False
      else case iam_ResourceSet_Match (is_Resources st) (iam_resource_of args) (ia_ConditionValues args) of
          Inl e \<Rightarrow> Inl e
        | Inr m \<Rightarrow>
            if \<not> m \<and> \<not> isAdmin st then Inr False
            else Functions_Evaluate L (ia_ConditionValues args) (is_Conditions st))"

definition iam_Statement_IsAllowed :: "policy_lib \<Rightarrow> iam_Statement \<Rightarrow> iam_Args \<Rightarrow> error + bool" where
  "iam_Statement_IsAllowed L st args =
     (case iam_Statement_check L st args of Inl e \<Rightarrow> Inl e | Inr b \<Rightarrow> Inr (Effect_IsAllowed (is_Effect st) b))"

definition keys_error :: "iam_Statement \<Rightarrow> KeySet \<Rightarrow> error option" where
  "keys_error st allowed =
     (if KeySet_Difference (Functions_Keys (is_Conditions st)) allowed \<noteq> [] then
        Some (policy_error ''unsupported condition keys'')
      else None)"

definition iam_action_error :: "iam_Statement \<Rightarrow> Action \<Rightarrow> error option" where
  "iam_action_error st action =
     (if \<not> list_ex iam_isObjectPattern (is_Resources st) \<and> \<not> list_ex iam_isBucketPattern (is_Resources st) then
        Some (policy_error ''unsupported Resource found'')
      else keys_error st (iam_actionConditionKeyMap action))"

definition iam_Statement_isValid :: "iam_Statement \<Rightarrow> error option" where
  "iam_Statement_isValid st =
     (if \<not> Effect_IsValid (is_Effect st) then Some (policy_error ''invalid Effect'')
      else if length (is_Actions st) = 0 then Some (policy_error ''Action must not be empty'')
      else if isAdmin st then first_error (\<lambda>action. keys_error st (adminActionConditionKeyMap action)) (is_Actions st)
      else if length (is_Resources st) = 0 then Some (policy_error ''Resource must not be empty'')
      else case first_error iam_Resource_Validate (is_Resources st) of
          Some e \<Rightarrow> Some e
        | None \<Rightarrow> first_error (iam_action_error st) (is_Actions st))"

section \<open>Policies\<close>

record iam_Policy =
  ip_ID :: string
  ip_Version :: string
  ip_Statements :: "iam_Statement list"

definition iam_denied_by :: "policy_lib \<Rightarrow> iam_Args \<Rightarrow> iam_Statement \<Rightarrow> error + bool" where
  "iam_denied_by L args st =
     (if is_Effect st = Deny then
        (case iam_Statement_IsAllowed L st args of Inl e \<Rightarrow> Inl e | Inr b \<Rightarrow> Inr (\<not> b))
      else Inr False)"

definition iam_allowed_by :: "policy_lib \<Rightarrow> iam_Args \<Rightarrow> iam_Statement \<Rightarrow> error + bool" where
  "iam_allowed_by L args st = (if is_Effect st = Allow then iam_Statement_IsAllowed L st args else Inr False)"

definition iam_Policy_IsAllowed :: "policy_lib \<Rightarrow> iam_Policy \<Rightarrow> iam_Args \<Rightarrow> error + bool" where
  "iam_Policy_IsAllowed L p args =
     (case any_match (iam_denied_by L args) (ip_Statements p) of
        Inl e \<Rightarrow> Inl e
      | Inr True \<Rightarrow> Inr False
      | Inr False \<Rightarrow>
          if ia_IsOwner args then Inr True else any_match (iam_allowed_by L args) (ip_Statements p))"

definition iam_Policy_IsEmpty :: "iam_Policy \<Rightarrow> bool" where
  "iam_Policy_IsEmpty p = (length (ip_Statements p) = 0)"

definition iam_duplicates :: "policy_lib \<Rightarrow> iam_Statement \<Rightarrow> iam_Statement \<Rightarrow> bool" where
  "iam_duplicates L a b =
     (is_Effect a = is_Effect b \<and> set_equals (is_Actions a) (is_Actions b) \<and>
      set_equals (is_Resources a) (is_Resources b) \<and>
      Functions_String L (is_Conditions a) = Functions_String L (is_Conditions b))"

fun iam_duplicate_error :: "policy_lib \<Rightarrow> iam_Statement list \<Rightarrow> error option" where
  "iam_duplicate_error L [] = None"
| "iam_duplicate_error L (st # sts) =
     (if list_ex (iam_duplicates L st) sts then Some (policy_error ''duplicate statements'')
      else iam_duplicate_error L sts)"

definition iam_Policy_isValid :: "policy_lib \<Rightarrow> iam_Policy \<Rightarrow> error option" where
  "iam_Policy_isValid L p =
     (if ip_Version p \<noteq> DefaultVersion \<and> ip_Version p \<noteq> [] then Some (policy_error ''invalid version'')
      else case first_error iam_Statement_isValid (ip_Statements p) of
          Some e \<Rightarrow> Some e
        | None \<Rightarrow> iam_duplicate_error L (ip_Statements p))"

definition iam_Policy_Validate :: "policy_lib \<Rightarrow> iam_Policy \<Rightarrow> error option" where
  "iam_Policy_Validate L p =
     (case iam_Policy_isValid L p of
        Some e \<Rightarrow> Some e
      | None \<Rightarrow> first_error iam_Statement_isValid (ip_Statements p))"

section \<open>Decoding\<close>

record iam_raw_statement =
  irw_Sid :: "string option"
  irw_Effect :: "string option"
  irw_Action :: "StringSet option"
  irw_Resource :: "StringSet option"
  irw_Condition :: "(string \<times> (string \<times> ValueSet) list) list option"

record iam_raw_policy =
  irp_ID :: "string option"
  irp_Version :: string
  irp_Statement :: "iam_raw_statement list"

fun iam_parse_actions :: "string list \<Rightarrow> ActionSet \<Rightarrow> error + ActionSet" where
  "iam_parse_actions [] acc = Inr acc"
| "iam_parse_actions (s # ss) acc =
     (case parseAction s of Inl e \<Rightarrow> Inl e | Inr action \<Rightarrow> iam_parse_actions ss (List.insert action acc))"

definition iam_ActionSet_Unmarshal :: "policy_lib \<Rightarrow> StringSet option \<Rightarrow> error + ActionSet" where
  "iam_ActionSet_Unmarshal L sset =
     (case sset of
        None \<Rightarrow> Inr []
      | Some ss \<Rightarrow>
          if length ss = 0 then Inl (policy_error ''empty action set'') else iam_parse_actions (ToSlice L ss) [])"

definition iam_ResourceSet_Unmarshal :: "policy_lib \<Rightarrow> StringSet option \<Rightarrow> error + ResourceSet" where
  "iam_ResourceSet_Unmarshal L sset =
     (case sset of None \<Rightarrow> Inr [] | Some ss \<Rightarrow> parse_resources (ToSlice L ss) [])"

definition iam_Statement_Unmarshal :: "policy_lib \<Rightarrow> iam_raw_statement \<Rightarrow> error + iam_Statement" where
  "iam_Statement_Unmarshal L raw =
     (case ID_Unmarshal (irw_Sid raw) of Inl e \<Rightarrow> Inl e | Inr sid \<Rightarrow>
      case Effect_Unmarshal (irw_Effect raw) of Inl e \<Rightarrow> Inl e | Inr effect \<Rightarrow>
      case iam_ActionSet_Unmarshal L (irw_Action raw) of Inl e \<Rightarrow> Inl e | Inr actions \<Rightarrow>
      case iam_ResourceSet_Unmarshal L (irw_Resource raw) of Inl e \<Rightarrow> Inl e | Inr resources \<Rightarrow>
      case Conditions_Unmarshal L (irw_Condition raw) of Inl e \<Rightarrow> Inl e | Inr conditions \<Rightarrow>
      (let s = \<lparr>is_SID = sid, is_Effect = effect, is_Actions = actions, is_Resources = resources,
               is_Conditions = conditions\<rparr>
       in case iam_Statement_isValid s of Some e \<Rightarrow> Inl e | None \<Rightarrow> Inr s))"

fun iam_Statements_Unmarshal :: "policy_lib \<Rightarrow> iam_raw_statement list \<Rightarrow> error + iam_Statement list" where
  "iam_Statements_Unmarshal L [] = Inr []"
| "iam_Statements_Unmarshal L (raw # raws) =
     (case iam_Statement_Unmarshal L raw of
        Inl e \<Rightarrow> Inl e
      | Inr st \<Rightarrow> (case iam_Statements_Unmarshal L raws of Inl e \<Rightarrow> Inl e | Inr sts \<Rightarrow> Inr (st # sts)))"

definition iam_Policy_Unmarshal :: "policy_lib \<Rightarrow> iam_raw_policy \<Rightarrow> error + iam_Policy" where
  "iam_Policy_Unmarshal L raw =
     (case ID_Unmarshal (irp_ID raw) of Inl e \<Rightarrow> Inl e | Inr i \<Rightarrow>
      case iam_Statements_Unmarshal L (irp_Statement raw) of Inl e \<Rightarrow> Inl e | Inr sts \<Rightarrow>
      (let p = \<lparr>ip_ID = i, ip_Version = irp_Version raw, ip_Statements = sts\<rparr>
       in case iam_Policy_isValid L p of Some e \<Rightarrow> Inl e | None \<Rightarrow> Inr p))"

definition iam_ParseConfig :: "policy_lib \<Rightarrow> iam_raw_policy \<Rightarrow> error + iam_Policy" where
  "iam_ParseConfig L raw =
     (case iam_Policy_Unmarshal L raw of
        Inl e \<Rightarrow> Inl e
      | Inr p \<Rightarrow> (case iam_Policy_Validate L p of Some e \<Rightarrow> Inl e | None \<Rightarrow> Inr p))"

section \<open>The canned policies\<close>

definition canned :: "Action list \<Rightarrow> iam_Policy" where
  "canned actions =
     \<lparr>ip_ID = [], ip_Version = DefaultVersion, ip_Statements =
       [\<lparr>is_SID = [], is_Effect = Allow, is_Actions = actions, is_Resources = [NewResource ''*'' []], is_Conditions = []\<rparr>]\<rparr>"

definition ReadWrite :: iam_Policy where
  "ReadWrite = canned [''s3:*'']"

definition ReadOnly :: iam_Policy where
  "ReadOnly = canned [''s3:GetBucketLocation'', ''s3:GetObject'']"

definition WriteOnly :: iam_Policy where
  "WriteOnly = canned [''s3:PutObject'']"

definition AdminDiagnostics :: iam_Policy where
  "AdminDiagnostics =
     canned [''admin:PerfInfo'', ''admin:Profiling'', ''admin:ServerTrace'', ''admin:ConsoleLog'', ''admin:ServerInfo'',
             ''admin:HardwareInfo'', ''admin:TopLocksInfo'']"

section \<open>What a policy decides\<close>

text \<open>A statement applies to a request when an action pattern denotes the action, a resource pattern denotes the
  resource or is its cleaned path, or all actions are administrative, and all conditions hold.\<close>

definition iam_resource_applies :: "iam_Args \<Rightarrow> Resource \<Rightarrow> bool" where
  "iam_resource_applies args r \<longleftrightarrow>
     (let pattern = substituted (ia_ConditionValues args) (rs_Pattern r); resource = iam_resource_of args
      in path_Clean resource = pattern \<or> glob_match (runes pattern) (runes resource))"

definition iam_applies :: "policy_lib \<Rightarrow> iam_Args \<Rightarrow> iam_Statement \<Rightarrow> bool" where
  "iam_applies L args st \<longleftrightarrow>
     (\<exists>a \<in> set (is_Actions st). glob_match (runes a) (runes (ia_Action args))) \<and>
     ((\<exists>r \<in> set (is_Resources st). iam_resource_applies args r) \<or> (\<forall>a \<in> set (is_Actions st). AdminAction_IsValid a)) \<and>
     (\<forall>f \<in> set (is_Conditions st). holds L (ia_ConditionValues args) f)"

definition iam_answerable :: "policy_lib \<Rightarrow> iam_Args \<Rightarrow> iam_Statement \<Rightarrow> bool" where
  "iam_answerable L args st \<longleftrightarrow> (\<forall>f \<in> set (is_Conditions st). answerable L (ia_ConditionValues args) f)"

lemma Action_Match_glob: "Action_Match a b \<longleftrightarrow> glob_match (runes a) (runes b)"
  by (simp add: Action_Match_def wildcard_Match_def Match_glob)

context string_sets
begin

lemma iam_Statement_check_applies:
  assumes "values_ok (ia_ConditionValues args)" "iam_answerable L args st"
  shows "iam_Statement_check L st args = Inr (iam_applies L args st)"
proof -
  let ?v = "ia_ConditionValues args"
  have "subst_vars ?v CommonKeys x = Inr (substituted ?v x)" for x
    using subst_substituted [OF assms(1), of x] by (simp add: substFuncFromValues_def)
  then have r: "iam_ResourceSet_Match (is_Resources st) (iam_resource_of args) ?v =
      Inr (\<exists>r \<in> set (is_Resources st). iam_resource_applies args r)"
    unfolding iam_ResourceSet_Match_def
    by (intro any_match_ok) (simp add: iam_Resource_Match_def iam_resource_applies_def Match_glob Let_def)
  have c: "Functions_Evaluate L ?v (is_Conditions st) = Inr (\<forall>f \<in> set (is_Conditions st). holds L ?v f)"
    using Functions_Evaluate_holds [OF assms(1), of "is_Conditions st"] assms(2)
    by (simp add: iam_answerable_def list_all_iff)
  show ?thesis
    by (auto simp: iam_Statement_check_def r c iam_applies_def ActionSet_Match_def list_ex_iff Action_Match_glob
        isAdmin_def list_all_iff)
qed

lemma iam_Policy_IsAllowed_decides:
  assumes "values_ok (ia_ConditionValues args)" "\<forall>st \<in> set (ip_Statements p). iam_answerable L args st"
  shows "iam_Policy_IsAllowed L p args =
    Inr ((\<forall>st \<in> set (ip_Statements p). is_Effect st = Deny \<longrightarrow> \<not> iam_applies L args st) \<and>
         (ia_IsOwner args \<or> (\<exists>st \<in> set (ip_Statements p). is_Effect st = Allow \<and> iam_applies L args st)))"
proof -
  have c: "iam_Statement_check L st args = Inr (iam_applies L args st)" if "st \<in> set (ip_Statements p)" for st
    using iam_Statement_check_applies assms that by blast
  have d: "any_match (iam_denied_by L args) (ip_Statements p) =
      Inr (\<exists>st \<in> set (ip_Statements p). is_Effect st = Deny \<and> iam_applies L args st)"
    by (intro any_match_ok) (auto simp: iam_denied_by_def iam_Statement_IsAllowed_def Effect_IsAllowed_def c)
  have a: "any_match (iam_allowed_by L args) (ip_Statements p) =
      Inr (\<exists>st \<in> set (ip_Statements p). is_Effect st = Allow \<and> iam_applies L args st)"
    by (intro any_match_ok) (auto simp: iam_allowed_by_def iam_Statement_IsAllowed_def Effect_IsAllowed_def c)
  show ?thesis by (auto simp: iam_Policy_IsAllowed_def d a split: bool.split)
qed

end

text \<open>The same on the values of a request, for policies that were decoded.\<close>

lemma iam_Statement_Unmarshal_fields:
  assumes "iam_Statement_Unmarshal L raw = Inr st"
  shows "Conditions_Unmarshal L (irw_Condition raw) = Inr (is_Conditions st)"
    "iam_ActionSet_Unmarshal L (irw_Action raw) = Inr (is_Actions st)" "iam_Statement_isValid st = None"
  using assms by (auto simp: iam_Statement_Unmarshal_def Let_def split: sum.splits option.splits)

lemma iam_Statements_Unmarshal_member:
  "iam_Statements_Unmarshal L raws = Inr sts \<Longrightarrow> st \<in> set sts \<Longrightarrow> \<exists>raw. iam_Statement_Unmarshal L raw = Inr st"
  by (induction L raws arbitrary: sts rule: iam_Statements_Unmarshal.induct) (auto split: sum.splits)

lemma iam_ParseConfig_member:
  "iam_ParseConfig L raw = Inr p \<Longrightarrow> st \<in> set (ip_Statements p) \<Longrightarrow> \<exists>raw. iam_Statement_Unmarshal L raw = Inr st"
  by (auto simp: iam_ParseConfig_def iam_Policy_Unmarshal_def Let_def dest: iam_Statements_Unmarshal_member
      split: sum.splits option.splits)

lemma iam_ParseConfig_well_keyed:
  "iam_ParseConfig L raw = Inr p \<Longrightarrow> st \<in> set (ip_Statements p) \<Longrightarrow> list_all well_keyed (is_Conditions st)"
  by (auto dest!: iam_ParseConfig_member intro: Conditions_well_keyed [OF iam_Statement_Unmarshal_fields(1)])

lemma iam_parse_actions_valid:
  "iam_parse_actions ss acc = Inr acts \<Longrightarrow> a \<in> set acts \<Longrightarrow>
   a \<in> set acc \<or> AdminAction_IsValid a \<or> iam_Action_IsValid a"
  by (induction ss acc arbitrary: acts rule: iam_parse_actions.induct)
    (fastforce simp: parseAction_def parseAdminAction_def split: sum.splits if_splits)+

lemma iam_ParseConfig_actions:
  assumes "iam_ParseConfig L raw = Inr p" "st \<in> set (ip_Statements p)" "a \<in> set (is_Actions st)"
  shows "AdminAction_IsValid a \<or> iam_Action_IsValid a"
proof -
  obtain r where "iam_Statement_Unmarshal L r = Inr st" using iam_ParseConfig_member assms(1,2) by blast
  from iam_Statement_Unmarshal_fields(2) [OF this] show ?thesis
    using iam_parse_actions_valid [OF _ assms(3)] assms(3)
    by (fastforce simp: iam_ActionSet_Unmarshal_def split: option.splits if_splits)
qed

section \<open>The canned policies and the actions of requests\<close>

text \<open>A pattern that starts with plain ASCII text denotes names that start with this text.\<close>

lemma DecodeRune_small: "fst (DecodeRune (c # s)) < 128 \<Longrightarrow> byte c < 128"
  by (rule ccontr) (auto simp: DecodeRune_def Let_def second_ok_def split: list.splits if_splits)

lemma runes_Cons_small:
  assumes "runes a = byte c # rs" "byte c < 128"
  shows "\<exists>a'. a = c # a' \<and> runes a' = rs"
proof (cases a)
  case (Cons d t)
  have "fst (DecodeRune (d # t)) = byte c" using assms(1) unfolding Cons runes.simps(2) by blast
  then have "byte d < 128" using assms(2) DecodeRune_small [of d t] by simp
  then show ?thesis using Cons assms by (auto simp: runes_Cons_ascii byte_def simp del: runes.simps)
qed (use assms in simp)

definition literal :: "string \<Rightarrow> bool" where
  "literal p = list_all (\<lambda>c. byte c < 128 \<and> byte c \<noteq> 63 \<and> byte c \<noteq> 42) p"

lemma glob_literal:
  "literal p \<Longrightarrow> glob_match (map byte p @ pat) (runes a) \<longleftrightarrow> (\<exists>a'. a = p @ a' \<and> glob_match pat (runes a'))"
proof (induction p arbitrary: a)
  case (Cons c p)
  have c: "byte c < 128" "byte c \<noteq> 63" "byte c \<noteq> 42" "literal p" using Cons.prems by (auto simp: literal_def)
  have "glob_match (map byte (c # p) @ pat) (runes a) \<longleftrightarrow>
      (\<exists>rs. runes a = byte c # rs \<and> glob_match (map byte p @ pat) rs)"
    using c by simp
  also have "\<dots> \<longleftrightarrow> (\<exists>a'. a = c # a' \<and> glob_match (map byte p @ pat) (runes a'))"
    using runes_Cons_small [of a c, OF _ c(1)] runes_Cons_ascii [OF c(1)] by metis
  finally show ?case using Cons.IH [OF c(4)] by auto
qed simp

lemma glob_exact: "literal p \<Longrightarrow> glob_match (runes p) (runes a) \<longleftrightarrow> a = p"
  using glob_literal [of p "[]" a] runes_ascii [of p] by (auto simp: literal_def list_all_iff)

lemma glob_all [simp]: "glob_match [42] s"
  using glob_star [OF glob_end, of s] by simp

lemma glob_prefix: "literal p \<Longrightarrow> glob_match (runes (p @ ''*'')) (runes a) \<longleftrightarrow> strings_HasPrefix a p"
proof -
  assume p: "literal p"
  have "\<forall>c \<in> set (p @ ''*''). byte c < 128" using p by (auto simp: literal_def list_all_iff byte_def)
  then have "runes (p @ ''*'') = map byte p @ [42]" by (subst runes_ascii) (auto simp: byte_def)
  then show ?thesis using glob_literal [OF p, of "[42]" a]
    by (auto simp: HasPrefix_iff_prefix prefix_def)
qed

lemma Replace_star: "strings_ReplaceAll ''*'' (VarName key) new = ''*''"
  by (simp add: VarName_def strings_HasPrefix_def)

lemma subst_star:
  "\<forall>key \<in> set keys. map_of values (Key_Name key) \<noteq> Some [] \<Longrightarrow> subst_vars values keys ''*'' = Inr ''*''"
  by (induction keys) (auto simp: Replace_star simp del: strings_ReplaceAll.simps split: option.split list.split)

lemma canned_decides:
  assumes "values_ok (ia_ConditionValues args)"
  shows "iam_Policy_IsAllowed L (canned acts) args =
    Inr (ia_IsOwner args \<or> (\<exists>a \<in> set acts. glob_match (runes a) (runes (ia_Action args))))"
proof -
  have "subst_vars (ia_ConditionValues args) CommonKeys ''*'' = Inr ''*''"
    using assms by (intro subst_star) (simp add: values_ok_def)
  then have "iam_Resource_Match (NewResource ''*'' []) r (ia_ConditionValues args) = Inr True" for r
    by (simp add: iam_Resource_Match_def NewResource_def Match_def)
  then show ?thesis
    by (auto simp: iam_Policy_IsAllowed_def canned_def iam_denied_by_def iam_allowed_by_def iam_Statement_IsAllowed_def
        iam_Statement_check_def iam_ResourceSet_Match_def Effect_IsAllowed_def ActionSet_Match_def list_ex_iff
        Action_Match_glob split: bool.split)
qed

lemma any_match_hit: "any_match f xs = Inr True \<Longrightarrow> \<exists>x \<in> set xs. f x = Inr True"
  by (induction xs) (auto split: sum.splits bool.splits)

lemma iam_allowed_has_action:
  assumes "iam_Policy_IsAllowed L p args = Inr True" "\<not> ia_IsOwner args"
  shows "\<exists>st \<in> set (ip_Statements p). is_Effect st = Allow \<and> (\<exists>a \<in> set (is_Actions st). wildcard_Match a (ia_Action args))"
proof -
  have "any_match (iam_allowed_by L args) (ip_Statements p) = Inr True"
    using assms by (auto simp: iam_Policy_IsAllowed_def split: sum.splits bool.splits)
  then obtain st where "st \<in> set (ip_Statements p)" "iam_allowed_by L args st = Inr True"
    using any_match_hit by blast
  then show ?thesis
    by (auto simp: iam_allowed_by_def iam_Statement_IsAllowed_def iam_Statement_check_def Effect_IsAllowed_def
        ActionSet_Match_def Action_Match_def list_ex_iff split: if_splits sum.splits)
qed

text \<open>The actions of the requests that set and get the lifecycle of a bucket (\<^verbatim>\<open>pkg/bucket/policy/action.go\<close>), and of the
  administrative requests that describe a group and the usage of the accounts.\<close>

definition unnamed_actions :: "(Action \<times> Action) list" where
  "unnamed_actions =
     [(''s3:PutLifecycleConfiguration'', ''s3:*''), (''s3:GetLifecycleConfiguration'', ''s3:*''), (''admin:GetGroup'', ''admin:*''),
      (''admin:AccountingUsageInfo'', ''admin:*'')]"

lemma literal_actions: "list_all (\<lambda>a. a = ''s3:*'' \<or> a = ''admin:*'' \<or> literal a) (supportedAdminActions @ iam_supportedActions)"
  by (simp add: literal_def byte_def supportedAdminActions_def iam_supportedActions_def)

lemma wildcard_literal: "literal a \<Longrightarrow> wildcard_Match a b \<longleftrightarrow> b = a"
  using glob_exact [of a b] by (simp add: wildcard_Match_def Match_glob)

lemma unnamed_actions_unsupported:
  "list_all (\<lambda>(act, all). \<not> List.member (supportedAdminActions @ iam_supportedActions) act) unnamed_actions"
  by (simp add: unnamed_actions_def supportedAdminActions_def iam_supportedActions_def)

lemma unnamed_actions_other:
  "list_all (\<lambda>(act, all). list_all (\<lambda>a. wildcard_Match a act \<longrightarrow> a = all) [''s3:*'', ''admin:*'']) unnamed_actions"
  by code_simp

lemma unnamed_actions_match:
  assumes "(act, all) \<in> set unnamed_actions" "a \<in> set (supportedAdminActions @ iam_supportedActions)" "wildcard_Match a act"
  shows "a = all"
proof (cases "literal a")
  case True
  then have "act \<in> set (supportedAdminActions @ iam_supportedActions)" using assms wildcard_literal by simp
  then have False using unnamed_actions_unsupported assms(1) unfolding list_all_iff List.member_iff by blast
  then show ?thesis ..
next
  case False
  then have "a = ''s3:*'' \<or> a = ''admin:*''" using literal_actions assms(2) unfolding list_all_iff by blast
  moreover have "list_all (\<lambda>a. wildcard_Match a act \<longrightarrow> a = all) [''s3:*'', ''admin:*'']"
    using unnamed_actions_other assms(1) unfolding list_all_iff by blast
  ultimately show ?thesis using assms(3) by auto
qed

text \<open>Some permissions cannot be granted by their own name: a decoded policy that allows the request which sets or
  gets the lifecycle of a bucket has an allowing statement for all S3 actions, and one that allows the request
  which describes a group or the usage of the accounts has one for all administrative actions. The names that
  the decoder accepts for the lifecycle are not those of the requests, and it does not accept the
  other two.\<close>

theorem permissions_without_name:
  assumes "iam_ParseConfig L raw = Inr p" "(ia_Action args, all) \<in> set unnamed_actions" "\<not> ia_IsOwner args"
    "iam_Policy_IsAllowed L p args = Inr True"
  shows "\<exists>st \<in> set (ip_Statements p). is_Effect st = Allow \<and> all \<in> set (is_Actions st)"
proof -
  obtain st a where st: "st \<in> set (ip_Statements p)" "is_Effect st = Allow" "a \<in> set (is_Actions st)"
    "wildcard_Match a (ia_Action args)"
    using iam_allowed_has_action [OF assms(4,3)] by blast
  have "a \<in> set (supportedAdminActions @ iam_supportedActions)"
    using iam_ParseConfig_actions [OF assms(1) st(1,3)] by (auto simp: AdminAction_IsValid_def iam_Action_IsValid_def)
  then have "a = all" by (rule unnamed_actions_match [OF assms(2) _ st(4)])
  then show ?thesis using st by blast
qed

definition example_grant :: "Action list \<Rightarrow> iam_raw_policy" where
  "example_grant acts = \<lparr>irp_ID = None, irp_Version = DefaultVersion, irp_Statement =
     [\<lparr>irw_Sid = None, irw_Effect = Some Allow, irw_Action = Some acts, irw_Resource = Some [''arn:aws:s3:::bkt/*''],
       irw_Condition = None\<rparr>]\<rparr>"

definition example_iam_args :: "Action \<Rightarrow> string \<Rightarrow> iam_Args" where
  "example_iam_args act x = \<lparr>ia_AccountName = ''user'', ia_Action = act, ia_BucketName = ''bkt'', ia_ConditionValues = [],
     ia_IsOwner = False, ia_ObjectName = x, ia_Claims = []\<rparr>"

definition example_granted :: iam_Policy where
  "example_granted = \<lparr>ip_ID = [], ip_Version = DefaultVersion, ip_Statements =
     [\<lparr>is_SID = [], is_Effect = Allow, is_Actions = [''s3:*''],
       is_Resources = [\<lparr>rs_BucketName = ''bkt'', rs_Pattern = ''bkt/*''\<rparr>], is_Conditions = []\<rparr>]\<rparr>"

theorem permissions_without_name_witness:
  "iam_ParseConfig list_lib (example_grant [''s3:*'']) = Inr example_granted \<and>
   iam_Policy_IsAllowed list_lib example_granted (example_iam_args ''s3:PutLifecycleConfiguration'' []) = Inr True \<and>
   (\<exists>st \<in> set (ip_Statements example_granted). is_Effect st = Allow \<and> ''s3:*'' \<in> set (is_Actions st))"
proof -
  have p: "iam_ParseConfig list_lib (example_grant [''s3:*'']) = Inr example_granted" by code_simp
  have a: "iam_Policy_IsAllowed list_lib example_granted (example_iam_args ''s3:PutLifecycleConfiguration'' []) = Inr True"
    by code_simp
  have "(ia_Action (example_iam_args ''s3:PutLifecycleConfiguration'' []), ''s3:*'') \<in> set unnamed_actions"
    by (simp add: example_iam_args_def unnamed_actions_def)
  moreover have "\<not> ia_IsOwner (example_iam_args ''s3:PutLifecycleConfiguration'' [])" by (simp add: example_iam_args_def)
  ultimately show ?thesis using p a permissions_without_name by blast
qed

text \<open>C23. What the canned policies allow a user who is not the owner: \<open>readwrite\<close> every S3 action, \<open>readonly\<close> and \<open>writeonly\<close>
  the actions of object downloads and of uploads, \<open>diagnostics\<close> seven administrative actions, on every bucket and object
  and under every condition. In particular, \<open>readonly\<close> does not let its user list a bucket.\<close>

theorem canned_policies_allow:
  assumes "values_ok (ia_ConditionValues args)" "\<not> ia_IsOwner args"
  shows "iam_Policy_IsAllowed L ReadWrite args = Inr (strings_HasPrefix (ia_Action args) ''s3:'') \<and>
    iam_Policy_IsAllowed L ReadOnly args = Inr (ia_Action args \<in> {''s3:GetBucketLocation'', ''s3:GetObject''}) \<and>
    iam_Policy_IsAllowed L WriteOnly args = Inr (ia_Action args = ''s3:PutObject'') \<and>
    iam_Policy_IsAllowed L AdminDiagnostics args =
      Inr (ia_Action args \<in> {''admin:PerfInfo'', ''admin:Profiling'', ''admin:ServerTrace'', ''admin:ConsoleLog'',
                             ''admin:ServerInfo'', ''admin:HardwareInfo'', ''admin:TopLocksInfo''})"
proof -
  have "literal a" if "a \<in> {''s3:'', ''s3:GetBucketLocation'', ''s3:GetObject'', ''s3:PutObject'', ''admin:PerfInfo'',
      ''admin:Profiling'', ''admin:ServerTrace'', ''admin:ConsoleLog'', ''admin:ServerInfo'', ''admin:HardwareInfo'',
      ''admin:TopLocksInfo''}" for a
    using that by (elim insertE) (simp_all add: literal_def byte_def)
  note exact = glob_exact [OF this] and pre = glob_prefix [OF this]
  have "glob_match (runes ''s3:*'') (runes a) \<longleftrightarrow> strings_HasPrefix a ''s3:''" for a
    using pre [of "''s3:''" a] by simp
  then show ?thesis
    using assms(2)
    by (simp add: ReadWrite_def ReadOnly_def WriteOnly_def AdminDiagnostics_def canned_decides [OF assms(1)] exact
        del: runes.simps)
qed

theorem canned_policies_allow_witness:
  "iam_Policy_IsAllowed list_lib ReadOnly (example_iam_args ''s3:GetObject'' ''a'') = Inr True \<and>
   iam_Policy_IsAllowed list_lib ReadOnly (example_iam_args ''s3:ListBucket'' []) = Inr False"
proof -
  have "values_ok (ia_ConditionValues (example_iam_args a x))" "\<not> ia_IsOwner (example_iam_args a x)" for a x
    by (simp_all add: values_ok_def example_iam_args_def)
  from canned_policies_allow [OF this, of list_lib "''s3:GetObject''" "''a''"]
    canned_policies_allow [OF this, of list_lib "''s3:ListBucket''" "[]"]
  show ?thesis by (simp add: example_iam_args_def)
qed

end
