(* ===== verification/Iam_System.thy ===== *)
theory Iam_System
  imports Iam_Policy Kinetic_Meta
begin

text \<open>
  Users, groups and their policies: the credentials of \<^verbatim>\<open>pkg/auth/credentials.go\<close> and the in-memory system of
  \<^verbatim>\<open>cmd/iam.go\<close>, with every operation that changes it and the authorisation of requests.

  The maps of \<^verbatim>\<open>IAMSys\<close> are association lists, except \<^verbatim>\<open>iamGroupPolicyMap\<close>, which \<^verbatim>\<open>NewIAMSys\<close> leaves nil and
  which is an option for that reason: writing into it panics. The persistence layer is the record
  \<open>IAMStorageAPI\<close>, the interface of that name, whose operations work on a state of any type; \<open>Iam_Store\<close> has
  the implementation. The methods take the lock of the system for their whole body, so each is one
  step on the pair of system and store.

  The lemmas show that the memberships are the inverse of the group members whatever the store answers,
  which requests are allowed, and that temporary credentials stay within the policy they were issued for.
\<close>

section \<open>Credentials\<close>

record Credentials =
  cr_AccessKey :: string
  cr_SecretKey :: string
  cr_Expiration :: int
  cr_SessionToken :: string
  cr_Status :: string

definition IsAccessKeyValid :: "string \<Rightarrow> bool" where
  "IsAccessKeyValid accessKey = (length accessKey \<ge> 3)"

definition IsSecretKeyValid :: "string \<Rightarrow> bool" where
  "IsSecretKeyValid secretKey = (length secretKey \<ge> 8)"

definition IsExpired :: "int \<Rightarrow> Credentials \<Rightarrow> bool" where
  "IsExpired now cred =
     (if cr_Expiration cred = zeroTime \<or> cr_Expiration cred = timeSentinel then False else cr_Expiration cred < now)"

definition IsTemp :: "Credentials \<Rightarrow> bool" where
  "IsTemp cred = (cr_SessionToken cred \<noteq> [])"

definition Credentials_IsValid :: "int \<Rightarrow> Credentials \<Rightarrow> bool" where
  "Credentials_IsValid now cred =
     (if cr_Status cred = ''off'' then False
      else IsAccessKeyValid (cr_AccessKey cred) \<and> IsSecretKeyValid (cr_SecretKey cred) \<and> \<not> IsExpired now cred)"

definition Credentials_Equal :: "int \<Rightarrow> Credentials \<Rightarrow> Credentials \<Rightarrow> bool" where
  "Credentials_Equal now cred ccred =
     (if \<not> Credentials_IsValid now ccred then False
      else cr_AccessKey cred = cr_AccessKey ccred \<and> cr_SecretKey cred = cr_SecretKey ccred \<and>
           cr_SessionToken cred = cr_SessionToken ccred)"

section \<open>The state\<close>

abbreviation statusEnabled :: string where "statusEnabled \<equiv> ''enabled''"
abbreviation statusDisabled :: string where "statusDisabled \<equiv> ''disabled''"
abbreviation MinIOUsersSysType :: string where "MinIOUsersSysType \<equiv> ''MinIOUsersSys''"
abbreviation LDAPUsersSysType :: string where "LDAPUsersSysType \<equiv> ''LDAPUsersSys''"

record UserIdentity =
  ui_Version :: int
  ui_Credentials :: Credentials

definition newUserIdentity :: "Credentials \<Rightarrow> UserIdentity" where
  "newUserIdentity creds = \<lparr>ui_Version = 1, ui_Credentials = creds\<rparr>"

record GroupInfo =
  gi_Version :: int
  gi_Status :: string
  gi_Members :: "string list"

definition newGroupInfo :: "string list \<Rightarrow> GroupInfo" where
  "newGroupInfo members = \<lparr>gi_Version = 1, gi_Status = statusEnabled, gi_Members = members\<rparr>"

record MappedPolicy =
  mp_Version :: int
  mp_Policy :: string

definition newMappedPolicy :: "string \<Rightarrow> MappedPolicy" where
  "newMappedPolicy policy = \<lparr>mp_Version = 1, mp_Policy = policy\<rparr>"

type_synonym policy_docs = "(string \<times> iam_Policy) list"
type_synonym users_map = "(string \<times> Credentials) list"
type_synonym groups_map = "(string \<times> GroupInfo) list"
type_synonym mapped_policies = "(string \<times> MappedPolicy) list"
type_synonym memberships = "(string \<times> StringSet) list"

text \<open>\<open>has_store\<close> says that \<^verbatim>\<open>store\<close> is not nil.\<close>

record IAMSys =
  usersSysType :: string
  iamPolicyDocsMap :: policy_docs
  iamUsersMap :: users_map
  iamGroupsMap :: groups_map
  iamUserGroupMemberships :: memberships
  iamUserPolicyMap :: mapped_policies
  iamGroupPolicyMap :: "mapped_policies option"
  has_store :: bool

definition NewIAMSys :: "bool \<Rightarrow> IAMSys" where
  "NewIAMSys ldap =
     \<lparr>usersSysType = (if ldap then LDAPUsersSysType else MinIOUsersSysType), iamPolicyDocsMap = [], iamUsersMap = [],
      iamGroupsMap = [], iamUserGroupMemberships = [], iamUserPolicyMap = [], iamGroupPolicyMap = None,
      has_store = False\<rparr>"

text \<open>The persistence layer. A \<open>load\<close> operation takes the map that the code passes and returns it updated.\<close>

record 's IAMStorageAPI =
  st_loadPolicyDoc :: "string \<Rightarrow> policy_docs \<Rightarrow> 's \<Rightarrow> (error option \<times> policy_docs) \<times> 's"
  st_loadUser :: "string \<Rightarrow> bool \<Rightarrow> users_map \<Rightarrow> 's \<Rightarrow> (error option \<times> users_map) \<times> 's"
  st_loadGroup :: "string \<Rightarrow> groups_map \<Rightarrow> 's \<Rightarrow> (error option \<times> groups_map) \<times> 's"
  st_loadMappedPolicy :: "string \<Rightarrow> bool \<Rightarrow> bool \<Rightarrow> mapped_policies \<Rightarrow> 's \<Rightarrow> (error option \<times> mapped_policies) \<times> 's"
  st_savePolicyDoc :: "string \<Rightarrow> iam_Policy \<Rightarrow> 's \<Rightarrow> error option \<times> 's"
  st_saveMappedPolicy :: "string \<Rightarrow> bool \<Rightarrow> bool \<Rightarrow> MappedPolicy \<Rightarrow> 's \<Rightarrow> error option \<times> 's"
  st_saveUserIdentity :: "string \<Rightarrow> bool \<Rightarrow> UserIdentity \<Rightarrow> 's \<Rightarrow> error option \<times> 's"
  st_saveGroupInfo :: "string \<Rightarrow> GroupInfo \<Rightarrow> 's \<Rightarrow> error option \<times> 's"
  st_deletePolicyDoc :: "string \<Rightarrow> 's \<Rightarrow> error option \<times> 's"
  st_deleteMappedPolicy :: "string \<Rightarrow> bool \<Rightarrow> bool \<Rightarrow> 's \<Rightarrow> error option \<times> 's"
  st_deleteUserIdentity :: "string \<Rightarrow> bool \<Rightarrow> 's \<Rightarrow> error option \<times> 's"
  st_deleteGroupInfo :: "string \<Rightarrow> 's \<Rightarrow> error option \<times> 's"

text \<open>What the operations find around them: the persistence layer, whether the object layer is there, whether etcd
  is used, the policy service if one is configured, the time, the name of the policy claim, and how the
  standard library decodes a JSON policy.\<close>

record 's iam_env =
  ie_lib :: policy_lib
  ie_api :: "'s IAMStorageAPI"
  ie_objectAPI :: bool
  ie_etcd :: bool
  ie_OPA :: "(iam_Args \<Rightarrow> bool \<times> error option) option"
  ie_now :: int
  ie_claim_name :: string
  ie_decode_policy :: "string \<Rightarrow> error + iam_raw_policy"

type_synonym 's iam_state = "IAMSys \<times> 's"

abbreviation (input) not_initialized :: error where "not_initialized \<equiv> Iam errServerNotInitialized"
abbreviation (input) invalid_argument :: error where "invalid_argument \<equiv> Storage errInvalidArgument"
abbreviation nilMapPanic :: error where "nilMapPanic \<equiv> GoPanic ''assignment to entry in nil map''"

section \<open>Policies of users and groups\<close>

text \<open>Reading a nil map is reading an empty one; so is deleting from it.\<close>

definition group_policies :: "IAMSys \<Rightarrow> mapped_policies" where
  "group_policies sys = (case iamGroupPolicyMap sys of None \<Rightarrow> [] | Some m \<Rightarrow> m)"

definition drop_mapping :: "bool \<Rightarrow> string \<Rightarrow> IAMSys \<Rightarrow> IAMSys" where
  "drop_mapping isGroup name sys =
     (if isGroup then sys\<lparr>iamGroupPolicyMap := map_option (AList.delete name) (iamGroupPolicyMap sys)\<rparr>
      else sys\<lparr>iamUserPolicyMap := AList.delete name (iamUserPolicyMap sys)\<rparr>)"

definition policyDBSet :: "'s iam_env \<Rightarrow> string \<Rightarrow> string \<Rightarrow> bool \<Rightarrow> bool \<Rightarrow> 's iam_state \<Rightarrow> error option \<times> 's iam_state" where
  "policyDBSet E name policy isSTS isGroup = (\<lambda>(sys, s).
     if \<not> has_store sys then (Some not_initialized, sys, s)
     else if name = [] then (Some invalid_argument, sys, s)
     else if map_of (iamPolicyDocsMap sys) policy = None \<and> policy \<noteq> [] then (Some (Iam errNoSuchPolicy), sys, s)
     else if usersSysType sys = MinIOUsersSysType \<and> \<not> isGroup \<and> map_of (iamUsersMap sys) name = None then
       (Some (Iam errNoSuchUser), sys, s)
     else if usersSysType sys = MinIOUsersSysType \<and> isGroup \<and> map_of (iamGroupsMap sys) name = None then
       (Some (Iam errNoSuchGroup), sys, s)
     else if policy = [] then
       (case st_deleteMappedPolicy (ie_api E) name isSTS isGroup s of
          (Some e, s) \<Rightarrow> (Some e, sys, s)
        | (None, s) \<Rightarrow> (None, drop_mapping isGroup name sys, s))
     else (let mp = newMappedPolicy policy in
       case st_saveMappedPolicy (ie_api E) name isSTS isGroup mp s of
         (Some e, s) \<Rightarrow> (Some e, sys, s)
       | (None, s) \<Rightarrow>
           if \<not> isGroup then (None, sys\<lparr>iamUserPolicyMap := AList.update name mp (iamUserPolicyMap sys)\<rparr>, s)
           else (case iamGroupPolicyMap sys of
               None \<Rightarrow> (Some nilMapPanic, sys, s)
             | Some m \<Rightarrow> (None, sys\<lparr>iamGroupPolicyMap := Some (AList.update name mp m)\<rparr>, s))))"

definition PolicyDBSet :: "'s iam_env \<Rightarrow> string \<Rightarrow> string \<Rightarrow> bool \<Rightarrow> 's iam_state \<Rightarrow> error option \<times> 's iam_state" where
  "PolicyDBSet E name policy isGroup st =
     (if \<not> ie_objectAPI E then (Some not_initialized, st) else policyDBSet E name policy False isGroup st)"

definition mapped_name :: "mapped_policies \<Rightarrow> string \<Rightarrow> string" where
  "mapped_name m name = (case map_of m name of None \<Rightarrow> [] | Some mp \<Rightarrow> mp_Policy mp)"

definition member_groups :: "'s iam_env \<Rightarrow> IAMSys \<Rightarrow> string \<Rightarrow> string list" where
  "member_groups E sys name =
     (case map_of (iamUserGroupMemberships sys) name of None \<Rightarrow> [] | Some gset \<Rightarrow> ToSlice (ie_lib E) gset)"

definition group_policy :: "IAMSys \<Rightarrow> string \<Rightarrow> string list" where
  "group_policy sys g =
     (case map_of (iamGroupsMap sys) g of
        None \<Rightarrow> []
      | Some gi \<Rightarrow>
          if gi_Status gi = statusDisabled \<or> mapped_name (group_policies sys) g = [] then []
          else [mapped_name (group_policies sys) g])"

definition policyDBGet :: "'s iam_env \<Rightarrow> IAMSys \<Rightarrow> string \<Rightarrow> bool \<Rightarrow> error + string list" where
  "policyDBGet E sys name isGroup =
     (if isGroup then
        (if map_of (iamGroupsMap sys) name = None then Inl (Iam errNoSuchGroup)
         else if mapped_name (group_policies sys) name = [] then Inr []
         else Inr [mapped_name (group_policies sys) name])
      else case map_of (iamUsersMap sys) name of
          None \<Rightarrow> Inl (Iam errNoSuchUser)
        | Some u \<Rightarrow>
            if cr_Status u = statusDisabled then Inr []
            else Inr ((if mapped_name (iamUserPolicyMap sys) name \<noteq> [] then [mapped_name (iamUserPolicyMap sys) name] else []) @
                      concat (map (group_policy sys) (member_groups E sys name))))"

definition PolicyDBGet :: "'s iam_env \<Rightarrow> IAMSys \<Rightarrow> string \<Rightarrow> bool \<Rightarrow> error + string list" where
  "PolicyDBGet E sys name isGroup =
     (if name = [] then Inl invalid_argument
      else if \<not> ie_objectAPI E then Inl not_initialized
      else policyDBGet E sys name isGroup)"

section \<open>Canned policies\<close>

definition SetPolicy :: "'s iam_env \<Rightarrow> string \<Rightarrow> iam_Policy \<Rightarrow> 's iam_state \<Rightarrow> error option \<times> 's iam_state" where
  "SetPolicy E policyName p = (\<lambda>(sys, s).
     if \<not> ie_objectAPI E then (Some not_initialized, sys, s)
     else if iam_Policy_IsEmpty p \<or> policyName = [] then (Some invalid_argument, sys, s)
     else if \<not> has_store sys then (Some not_initialized, sys, s)
     else (case st_savePolicyDoc (ie_api E) policyName p s of
         (Some e, s) \<Rightarrow> (Some e, sys, s)
       | (None, s) \<Rightarrow> (None, sys\<lparr>iamPolicyDocsMap := AList.update policyName p (iamPolicyDocsMap sys)\<rparr>, s)))"

text \<open>The names of a map that are mapped to a policy, in the order of the loop.\<close>

definition mapped_to :: "string \<Rightarrow> mapped_policies \<Rightarrow> string list" where
  "mapped_to policyName m = map fst (filter (\<lambda>(u, mp). mp_Policy mp = policyName) m)"

definition drop_mappings :: "'s iam_env \<Rightarrow> bool \<Rightarrow> (string \<times> bool) list \<Rightarrow> 's iam_state \<Rightarrow> 's iam_state" where
  "drop_mappings E isGroup names st = fold (\<lambda>(u, isSTS) st. snd (policyDBSet E u [] isSTS isGroup st)) names st"

definition is_sts :: "IAMSys \<Rightarrow> string \<Rightarrow> bool" where
  "is_sts sys u = (case map_of (iamUsersMap sys) u of None \<Rightarrow> False | Some cr \<Rightarrow> IsTemp cr)"

definition ignore_not_found :: "error option \<Rightarrow> error option" where
  "ignore_not_found err = (case err of None \<Rightarrow> None | Some e \<Rightarrow> if isErrObjectNotFound e then None else Some e)"

definition DeletePolicy :: "'s iam_env \<Rightarrow> string \<Rightarrow> 's iam_state \<Rightarrow> error option \<times> 's iam_state" where
  "DeletePolicy E policyName = (\<lambda>(sys, s).
     if \<not> ie_objectAPI E then (Some not_initialized, sys, s)
     else if policyName = [] then (Some invalid_argument, sys, s)
     else if \<not> has_store sys then (Some not_initialized, sys, s)
     else (let (err, s) = st_deletePolicyDoc (ie_api E) policyName s;
               err = ignore_not_found err;
               sys = sys\<lparr>iamPolicyDocsMap := AList.delete policyName (iamPolicyDocsMap sys)\<rparr>;
               usersToDel = mapped_to policyName (iamUserPolicyMap sys)
           in if list_ex (\<lambda>u. map_of (iamUsersMap sys) u = None) usersToDel then (Some (Iam errNoSuchUser), sys, s)
              else (let (sys, s) = drop_mappings E False (map (\<lambda>u. (u, is_sts sys u)) usersToDel) (sys, s);
                        groupsToDel = mapped_to policyName (group_policies sys)
                    in (err, drop_mappings E True (map (\<lambda>g. (g, False)) groupsToDel) (sys, s)))))"

text \<open>\<^verbatim>\<open>json.Marshal\<close> of a policy checks it and then prints it; the text is represented by the policy.\<close>

definition Policy_Marshal :: "policy_lib \<Rightarrow> iam_Policy \<Rightarrow> error + iam_Policy" where
  "Policy_Marshal L p = (case iam_Policy_isValid L p of Some e \<Rightarrow> Inl e | None \<Rightarrow> Inr p)"

definition InfoPolicy :: "'s iam_env \<Rightarrow> IAMSys \<Rightarrow> string \<Rightarrow> error + iam_Policy" where
  "InfoPolicy E sys policyName =
     (if \<not> ie_objectAPI E then Inl not_initialized
      else case map_of (iamPolicyDocsMap sys) policyName of
          None \<Rightarrow> Inl (Iam errNoSuchPolicy)
        | Some v \<Rightarrow> Policy_Marshal (ie_lib E) v)"

fun marshal_all :: "policy_lib \<Rightarrow> policy_docs \<Rightarrow> error + policy_docs" where
  "marshal_all L [] = Inr []"
| "marshal_all L ((k, v) # m) =
     (case Policy_Marshal L v of
        Inl e \<Rightarrow> Inl e
      | Inr d \<Rightarrow> (case marshal_all L m of Inl e \<Rightarrow> Inl e | Inr ds \<Rightarrow> Inr ((k, d) # ds)))"

definition ListPolicies :: "'s iam_env \<Rightarrow> IAMSys \<Rightarrow> error + policy_docs" where
  "ListPolicies E sys =
     (if \<not> ie_objectAPI E then Inl not_initialized else marshal_all (ie_lib E) (iamPolicyDocsMap sys))"

definition default_policy :: "string \<Rightarrow> iam_Policy \<Rightarrow> policy_docs \<Rightarrow> policy_docs" where
  "default_policy name p policies = (if map_of policies name = None then AList.update name p policies else policies)"

definition setDefaultCannedPolicies :: "policy_docs \<Rightarrow> policy_docs" where
  "setDefaultCannedPolicies policies =
     default_policy ''diagnostics'' AdminDiagnostics (default_policy ''readwrite'' ReadWrite
       (default_policy ''readonly'' ReadOnly (default_policy ''writeonly'' WriteOnly policies)))"

section \<open>Groups\<close>

definition member_error :: "IAMSys \<Rightarrow> string \<Rightarrow> error option" where
  "member_error sys member =
     (case map_of (iamUsersMap sys) member of
        None \<Rightarrow> Some (Iam errNoSuchUser)
      | Some cr \<Rightarrow> if IsTemp cr then Some (Iam errIAMActionNotAllowed) else None)"

text \<open>The loops over the members at the end of \<^verbatim>\<open>AddUsersToGroup\<close> and \<^verbatim>\<open>RemoveUsersFromGroup\<close>.\<close>

definition add_membership :: "policy_lib \<Rightarrow> string \<Rightarrow> string \<Rightarrow> memberships \<Rightarrow> memberships" where
  "add_membership L g member m =
     AList.update member (case map_of m member of None \<Rightarrow> CreateStringSet L [g] | Some gset \<Rightarrow> set_Add L g gset) m"

definition remove_membership :: "policy_lib \<Rightarrow> string \<Rightarrow> string \<Rightarrow> memberships \<Rightarrow> memberships" where
  "remove_membership L g member m =
     (case map_of m member of None \<Rightarrow> m | Some gset \<Rightarrow> AList.update member (set_Remove L g gset) m)"

definition AddUsersToGroup :: "'s iam_env \<Rightarrow> string \<Rightarrow> string list \<Rightarrow> 's iam_state \<Rightarrow> error option \<times> 's iam_state" where
  "AddUsersToGroup E g members = (\<lambda>(sys, s).
     if \<not> ie_objectAPI E then (Some not_initialized, sys, s)
     else if g = [] then (Some invalid_argument, sys, s)
     else if usersSysType sys \<noteq> MinIOUsersSysType then (Some (Iam errIAMActionNotAllowed), sys, s)
     else (case first_error (member_error sys) members of
         Some e \<Rightarrow> (Some e, sys, s)
       | None \<Rightarrow>
           (let gi = (case map_of (iamGroupsMap sys) g of
                        None \<Rightarrow> newGroupInfo members
                      | Some gi \<Rightarrow> gi\<lparr>gi_Members := ToSlice (ie_lib E) (CreateStringSet (ie_lib E) (gi_Members gi @ members))\<rparr>)
            in if \<not> has_store sys then (Some not_initialized, sys, s)
               else (case st_saveGroupInfo (ie_api E) g gi s of
                   (Some e, s) \<Rightarrow> (Some e, sys, s)
                 | (None, s) \<Rightarrow>
                     (None, sys\<lparr>iamGroupsMap := AList.update g gi (iamGroupsMap sys),
                                iamUserGroupMemberships :=
                                  fold (add_membership (ie_lib E) g) members (iamUserGroupMemberships sys)\<rparr>, s)))))"

definition delete_group :: "'s iam_env \<Rightarrow> string \<Rightarrow> 's iam_state \<Rightarrow> error option \<times> 's iam_state" where
  "delete_group E g = (\<lambda>(sys, s).
     case st_deleteMappedPolicy (ie_api E) g False True s of
       (err, s) \<Rightarrow>
         if err \<noteq> None \<and> err \<noteq> Some (Iam errConfigNotFound) then (err, sys, s)
         else (case st_deleteGroupInfo (ie_api E) g s of
             (Some e, s) \<Rightarrow> (Some e, sys, s)
           | (None, s) \<Rightarrow>
               (None, drop_mapping True g (sys\<lparr>iamGroupsMap := AList.delete g (iamGroupsMap sys)\<rparr>), s)))"

definition RemoveUsersFromGroup :: "'s iam_env \<Rightarrow> string \<Rightarrow> string list \<Rightarrow> 's iam_state \<Rightarrow> error option \<times> 's iam_state" where
  "RemoveUsersFromGroup E g members = (\<lambda>(sys, s).
     if \<not> ie_objectAPI E then (Some not_initialized, sys, s)
     else if g = [] then (Some invalid_argument, sys, s)
     else if usersSysType sys \<noteq> MinIOUsersSysType then (Some (Iam errIAMActionNotAllowed), sys, s)
     else (case first_error (member_error sys) members of
         Some e \<Rightarrow> (Some e, sys, s)
       | None \<Rightarrow>
           (case map_of (iamGroupsMap sys) g of
              None \<Rightarrow> (Some (Iam errNoSuchGroup), sys, s)
            | Some gi \<Rightarrow>
                if length members = 0 \<and> length (gi_Members gi) \<noteq> 0 then (Some (Iam errGroupNotEmpty), sys, s)
                else if \<not> has_store sys then (Some not_initialized, sys, s)
                else if length members = 0 then delete_group E g (sys, s)
                else (let gi = gi\<lparr>gi_Members := ToSlice (ie_lib E) (set_Difference (ie_lib E)
                                 (CreateStringSet (ie_lib E) (gi_Members gi)) (CreateStringSet (ie_lib E) members))\<rparr>
                      in case st_saveGroupInfo (ie_api E) g gi s of
                           (Some e, s) \<Rightarrow> (Some e, sys, s)
                         | (None, s) \<Rightarrow>
                             (None, sys\<lparr>iamGroupsMap := AList.update g gi (iamGroupsMap sys),
                                        iamUserGroupMemberships :=
                                          fold (remove_membership (ie_lib E) g) members (iamUserGroupMemberships sys)\<rparr>, s)))))"

definition SetGroupStatus :: "'s iam_env \<Rightarrow> string \<Rightarrow> bool \<Rightarrow> 's iam_state \<Rightarrow> error option \<times> 's iam_state" where
  "SetGroupStatus E g enabled = (\<lambda>(sys, s).
     if \<not> ie_objectAPI E then (Some not_initialized, sys, s)
     else if \<not> has_store sys then (Some not_initialized, sys, s)
     else if usersSysType sys \<noteq> MinIOUsersSysType then (Some (Iam errIAMActionNotAllowed), sys, s)
     else if g = [] then (Some invalid_argument, sys, s)
     else (case map_of (iamGroupsMap sys) g of
         None \<Rightarrow> (Some (Iam errNoSuchGroup), sys, s)
       | Some gi \<Rightarrow>
           (let gi = gi\<lparr>gi_Status := (if enabled then statusEnabled else statusDisabled)\<rparr>
            in case st_saveGroupInfo (ie_api E) g gi s of
                 (Some e, s) \<Rightarrow> (Some e, sys, s)
               | (None, s) \<Rightarrow> (None, sys\<lparr>iamGroupsMap := AList.update g gi (iamGroupsMap sys)\<rparr>, s))))"

record GroupDesc =
  gd_Name :: string
  gd_Status :: string
  gd_Members :: "string list"
  gd_Policy :: string

definition GetGroupDescription :: "'s iam_env \<Rightarrow> IAMSys \<Rightarrow> string \<Rightarrow> error + GroupDesc" where
  "GetGroupDescription E sys g =
     (case PolicyDBGet E sys g True of
        Inl e \<Rightarrow> Inl e
      | Inr ps \<Rightarrow>
          (let policy = (case ps of [] \<Rightarrow> [] | p # _ \<Rightarrow> p)
           in if usersSysType sys \<noteq> MinIOUsersSysType then
                Inr \<lparr>gd_Name = g, gd_Status = [], gd_Members = [], gd_Policy = policy\<rparr>
              else case map_of (iamGroupsMap sys) g of
                  None \<Rightarrow> Inl (Iam errNoSuchGroup)
                | Some gi \<Rightarrow>
                    Inr \<lparr>gd_Name = g, gd_Status = gi_Status gi, gd_Members = gi_Members gi, gd_Policy = policy\<rparr>))"

definition ListGroups :: "IAMSys \<Rightarrow> error + string list" where
  "ListGroups sys =
     (if usersSysType sys \<noteq> MinIOUsersSysType then Inl (Iam errIAMActionNotAllowed)
      else Inr (map fst (iamGroupsMap sys)))"

section \<open>Users\<close>

record UserInfo =
  mu_SecretKey :: string
  mu_PolicyName :: string
  mu_Status :: string
  mu_MemberOf :: "string list"

definition account_status :: "int \<Rightarrow> Credentials \<Rightarrow> string" where
  "account_status now cred = (if Credentials_IsValid now cred then statusEnabled else statusDisabled)"

definition GetUserInfo :: "'s iam_env \<Rightarrow> IAMSys \<Rightarrow> string \<Rightarrow> error + UserInfo" where
  "GetUserInfo E sys name =
     (if \<not> ie_objectAPI E then Inl not_initialized
      else if usersSysType sys \<noteq> MinIOUsersSysType then
        Inr \<lparr>mu_SecretKey = [], mu_PolicyName = mapped_name (iamUserPolicyMap sys) name, mu_Status = [],
             mu_MemberOf = member_groups E sys name\<rparr>
      else case map_of (iamUsersMap sys) name of
          None \<Rightarrow> Inl (Iam errNoSuchUser)
        | Some creds \<Rightarrow>
            if IsTemp creds then Inl (Iam errIAMActionNotAllowed)
            else Inr \<lparr>mu_SecretKey = [], mu_PolicyName = mapped_name (iamUserPolicyMap sys) name,
                      mu_Status = account_status (ie_now E) creds, mu_MemberOf = member_groups E sys name\<rparr>)"

fun leave_groups :: "'s iam_env \<Rightarrow> string \<Rightarrow> string list \<Rightarrow> 's iam_state \<Rightarrow> error option \<times> 's iam_state" where
  "leave_groups E accessKey [] st = (None, st)"
| "leave_groups E accessKey (g # groups) st =
     (case RemoveUsersFromGroup E g [accessKey] st of
        (Some e, st) \<Rightarrow> (Some e, st)
      | (None, st) \<Rightarrow> leave_groups E accessKey groups st)"

definition forget_user :: "'s iam_env \<Rightarrow> string \<Rightarrow> 's iam_state \<Rightarrow> error option \<times> 's iam_state" where
  "forget_user E accessKey = (\<lambda>(sys, s).
     if usersSysType sys \<noteq> MinIOUsersSysType then (Some (Iam errIAMActionNotAllowed), sys, s)
     else if \<not> has_store sys then (Some not_initialized, sys, s)
     else (let s = snd (st_deleteMappedPolicy (ie_api E) accessKey False False s);
               (err, s) = st_deleteUserIdentity (ie_api E) accessKey False s
           in (ignore_not_found err,
               sys\<lparr>iamUsersMap := AList.delete accessKey (iamUsersMap sys),
                   iamUserPolicyMap := AList.delete accessKey (iamUserPolicyMap sys)\<rparr>, s)))"

definition DeleteUser :: "'s iam_env \<Rightarrow> string \<Rightarrow> 's iam_state \<Rightarrow> error option \<times> 's iam_state" where
  "DeleteUser E accessKey = (\<lambda>(sys, s).
     if \<not> ie_objectAPI E then (Some not_initialized, sys, s)
     else (case GetUserInfo E sys accessKey of
         Inl e \<Rightarrow> (Some e, sys, s)
       | Inr userInfo \<Rightarrow>
           (case leave_groups E accessKey (mu_MemberOf userInfo) (sys, s) of
              (Some e, st) \<Rightarrow> (Some e, st)
            | (None, st) \<Rightarrow> forget_user E accessKey st)))"

definition save_credentials :: "'s iam_env \<Rightarrow> string \<Rightarrow> bool \<Rightarrow> Credentials \<Rightarrow> 's iam_state \<Rightarrow> error option \<times> 's iam_state" where
  "save_credentials E accessKey isSTS cred = (\<lambda>(sys, s).
     case st_saveUserIdentity (ie_api E) accessKey isSTS (newUserIdentity cred) s of
       (Some e, s) \<Rightarrow> (Some e, sys, s)
     | (None, s) \<Rightarrow> (None, sys\<lparr>iamUsersMap := AList.update accessKey cred (iamUsersMap sys)\<rparr>, s))"

definition SetTempUser :: "'s iam_env \<Rightarrow> string \<Rightarrow> Credentials \<Rightarrow> string \<Rightarrow> 's iam_state \<Rightarrow> error option \<times> 's iam_state" where
  "SetTempUser E accessKey cred policyName = (\<lambda>(sys, s).
     if \<not> ie_objectAPI E then (Some not_initialized, sys, s)
     else if ie_OPA E = None \<and> policyName \<noteq> [] then
       (case map_of (iamPolicyDocsMap sys) policyName of
          None \<Rightarrow> (Some invalid_argument, sys, s)
        | Some p \<Rightarrow>
            if iam_Policy_IsEmpty p then
              (None, sys\<lparr>iamUserPolicyMap := AList.delete accessKey (iamUserPolicyMap sys)\<rparr>, s)
            else if \<not> has_store sys then (Some not_initialized, sys, s)
            else (let mp = newMappedPolicy policyName
                  in case st_saveMappedPolicy (ie_api E) accessKey True False mp s of
                       (Some e, s) \<Rightarrow> (Some e, sys, s)
                     | (None, s) \<Rightarrow>
                         save_credentials E accessKey True cred
                           (sys\<lparr>iamUserPolicyMap := AList.update accessKey mp (iamUserPolicyMap sys)\<rparr>, s)))
     else if \<not> has_store sys then (Some not_initialized, sys, s)
     else save_credentials E accessKey True cred (sys, s))"

definition ListUsers :: "'s iam_env \<Rightarrow> IAMSys \<Rightarrow> error + (string \<times> UserInfo) list" where
  "ListUsers E sys =
     (if \<not> ie_objectAPI E then Inl not_initialized
      else if usersSysType sys \<noteq> MinIOUsersSysType then Inl (Iam errIAMActionNotAllowed)
      else Inr (map (\<lambda>(k, v). (k, \<lparr>mu_SecretKey = [], mu_PolicyName = mapped_name (iamUserPolicyMap sys) k,
                                   mu_Status = account_status (ie_now E) v, mu_MemberOf = []\<rparr>))
                  (filter (\<lambda>(k, v). \<not> IsTemp v) (iamUsersMap sys))))"

definition IsTempUser :: "'s iam_env \<Rightarrow> IAMSys \<Rightarrow> string \<Rightarrow> error + bool" where
  "IsTempUser E sys name =
     (if \<not> ie_objectAPI E then Inl not_initialized
      else case map_of (iamUsersMap sys) name of None \<Rightarrow> Inl (Iam errNoSuchUser) | Some creds \<Rightarrow> Inr (IsTemp creds))"

definition SetUserStatus :: "'s iam_env \<Rightarrow> string \<Rightarrow> string \<Rightarrow> 's iam_state \<Rightarrow> error option \<times> 's iam_state" where
  "SetUserStatus E accessKey status = (\<lambda>(sys, s).
     if \<not> ie_objectAPI E then (Some not_initialized, sys, s)
     else if status \<noteq> statusEnabled \<and> status \<noteq> statusDisabled then (Some invalid_argument, sys, s)
     else if usersSysType sys \<noteq> MinIOUsersSysType then (Some (Iam errIAMActionNotAllowed), sys, s)
     else (case map_of (iamUsersMap sys) accessKey of
         None \<Rightarrow> (Some (Iam errNoSuchUser), sys, s)
       | Some cred \<Rightarrow>
           if IsTemp cred then (Some (Iam errIAMActionNotAllowed), sys, s)
           else if \<not> has_store sys then (Some not_initialized, sys, s)
           else save_credentials E accessKey False
                  \<lparr>cr_AccessKey = accessKey, cr_SecretKey = cr_SecretKey cred, cr_Expiration = zeroTime,
                   cr_SessionToken = [], cr_Status = (if status = statusEnabled then ''on'' else ''off'')\<rparr> (sys, s)))"

definition SetUser :: "'s iam_env \<Rightarrow> string \<Rightarrow> UserInfo \<Rightarrow> 's iam_state \<Rightarrow> error option \<times> 's iam_state" where
  "SetUser E accessKey uinfo = (\<lambda>(sys, s).
     if \<not> ie_objectAPI E then (Some not_initialized, sys, s)
     else if usersSysType sys \<noteq> MinIOUsersSysType then (Some (Iam errIAMActionNotAllowed), sys, s)
     else if \<not> has_store sys then (Some not_initialized, sys, s)
     else if is_sts sys accessKey then (Some (Iam errIAMActionNotAllowed), sys, s)
     else (case save_credentials E accessKey False
                 \<lparr>cr_AccessKey = accessKey, cr_SecretKey = mu_SecretKey uinfo, cr_Expiration = zeroTime,
                  cr_SessionToken = [], cr_Status = mu_Status uinfo\<rparr> (sys, s) of
         (Some e, st) \<Rightarrow> (Some e, st)
       | (None, st) \<Rightarrow>
           if mu_PolicyName uinfo \<noteq> [] then policyDBSet E accessKey (mu_PolicyName uinfo) False False st
           else (None, st)))"

definition SetUserSecretKey :: "'s iam_env \<Rightarrow> string \<Rightarrow> string \<Rightarrow> 's iam_state \<Rightarrow> error option \<times> 's iam_state" where
  "SetUserSecretKey E accessKey secretKey = (\<lambda>(sys, s).
     if \<not> ie_objectAPI E then (Some not_initialized, sys, s)
     else if usersSysType sys \<noteq> MinIOUsersSysType then (Some (Iam errIAMActionNotAllowed), sys, s)
     else (case map_of (iamUsersMap sys) accessKey of
         None \<Rightarrow> (Some (Iam errNoSuchUser), sys, s)
       | Some cred \<Rightarrow>
           if \<not> has_store sys then (Some not_initialized, sys, s)
           else save_credentials E accessKey False (cred\<lparr>cr_SecretKey := secretKey\<rparr>) (sys, s)))"

definition GetUser :: "'s iam_env \<Rightarrow> IAMSys \<Rightarrow> string \<Rightarrow> Credentials option \<times> bool" where
  "GetUser E sys accessKey =
     (let cred = map_of (iamUsersMap sys) accessKey
      in (cred, case cred of None \<Rightarrow> False | Some c \<Rightarrow> Credentials_IsValid (ie_now E) c))"

section \<open>Loading from the store\<close>

definition updateGroupMembershipsMap :: "policy_lib \<Rightarrow> string \<Rightarrow> GroupInfo \<Rightarrow> memberships \<Rightarrow> memberships" where
  "updateGroupMembershipsMap L g gi m = fold (add_membership L g) (gi_Members gi) m"

definition removeGroupFromMembershipsMap :: "policy_lib \<Rightarrow> string \<Rightarrow> memberships \<Rightarrow> memberships" where
  "removeGroupFromMembershipsMap L g m =
     map (\<lambda>(member, groups). (member, if set_Contains L groups g then set_Remove L g groups else groups)) m"

definition buildUserGroupMemberships :: "policy_lib \<Rightarrow> IAMSys \<Rightarrow> memberships" where
  "buildUserGroupMemberships L sys =
     fold (\<lambda>(g, gi). updateGroupMembershipsMap L g gi) (iamGroupsMap sys) (iamUserGroupMemberships sys)"

definition LoadGroup :: "'s iam_env \<Rightarrow> bool \<Rightarrow> string \<Rightarrow> 's iam_state \<Rightarrow> error option \<times> 's iam_state" where
  "LoadGroup E objAPI g = (\<lambda>(sys, s).
     if \<not> objAPI \<or> \<not> has_store sys then (Some not_initialized, sys, s)
     else if ie_etcd E then (None, sys, s)
     else (let ((err, groups), s) = st_loadGroup (ie_api E) g (iamGroupsMap sys) s;
               sys = sys\<lparr>iamGroupsMap := groups\<rparr>;
               removed = removeGroupFromMembershipsMap (ie_lib E) g (iamUserGroupMemberships sys)
           in if err \<noteq> None \<and> err \<noteq> Some (Iam errConfigNotFound) then (err, sys, s)
              else if err = Some (Iam errConfigNotFound) then
                (None, drop_mapping True g (sys\<lparr>iamGroupsMap := AList.delete g (iamGroupsMap sys),
                                                iamUserGroupMemberships := removed\<rparr>), s)
              else (None, (case map_of (iamGroupsMap sys) g of
                  None \<Rightarrow> sys\<lparr>iamUserGroupMemberships := removed\<rparr>
                | Some gi \<Rightarrow> sys\<lparr>iamUserGroupMemberships := updateGroupMembershipsMap (ie_lib E) g gi removed\<rparr>), s)))"

definition LoadPolicy :: "'s iam_env \<Rightarrow> bool \<Rightarrow> string \<Rightarrow> 's iam_state \<Rightarrow> error option \<times> 's iam_state" where
  "LoadPolicy E objAPI policyName = (\<lambda>(sys, s).
     if \<not> objAPI \<or> \<not> has_store sys then (Some not_initialized, sys, s)
     else if \<not> ie_etcd E then
       (let ((err, docs), s) = st_loadPolicyDoc (ie_api E) policyName (iamPolicyDocsMap sys) s
        in (err, sys\<lparr>iamPolicyDocsMap := docs\<rparr>, s))
     else (None, sys, s))"

text \<open>The error that the next two functions ignore.\<close>

definition ignore_config_not_found :: "error option \<Rightarrow> error option" where
  "ignore_config_not_found err = (if err = Some (Iam errConfigNotFound) then None else err)"

definition LoadPolicyMapping :: "'s iam_env \<Rightarrow> bool \<Rightarrow> string \<Rightarrow> bool \<Rightarrow> 's iam_state \<Rightarrow> error option \<times> 's iam_state" where
  "LoadPolicyMapping E objAPI userOrGroup isGroup = (\<lambda>(sys, s).
     if \<not> objAPI \<or> \<not> has_store sys then (Some not_initialized, sys, s)
     else if \<not> ie_etcd E then
       (if isGroup then
          (let ((err, m), s) = st_loadMappedPolicy (ie_api E) userOrGroup False isGroup (group_policies sys) s
           in if err = None \<and> iamGroupPolicyMap sys = None then (Some nilMapPanic, sys, s)
              else (ignore_config_not_found err, sys\<lparr>iamGroupPolicyMap := map_option (\<lambda>_. m) (iamGroupPolicyMap sys)\<rparr>, s))
        else
          (let ((err, m), s) = st_loadMappedPolicy (ie_api E) userOrGroup False isGroup (iamUserPolicyMap sys) s
           in (ignore_config_not_found err, sys\<lparr>iamUserPolicyMap := m\<rparr>, s)))
     else (None, sys, s))"

definition LoadUser :: "'s iam_env \<Rightarrow> bool \<Rightarrow> string \<Rightarrow> bool \<Rightarrow> 's iam_state \<Rightarrow> error option \<times> 's iam_state" where
  "LoadUser E objAPI accessKey isSTS = (\<lambda>(sys, s).
     if \<not> objAPI \<or> \<not> has_store sys then (Some not_initialized, sys, s)
     else if \<not> ie_etcd E then
       (let ((err, users), s) = st_loadUser (ie_api E) accessKey isSTS (iamUsersMap sys) s;
            sys = sys\<lparr>iamUsersMap := users\<rparr>
        in if err \<noteq> None then (err, sys, s)
           else (let ((err, m), s) = st_loadMappedPolicy (ie_api E) accessKey isSTS False (iamUserPolicyMap sys) s
                 in (ignore_config_not_found err, sys\<lparr>iamUserPolicyMap := m\<rparr>, s)))
     else (None, sys, s))"

section \<open>Authorisation\<close>

definition available_policies :: "IAMSys \<Rightarrow> string list \<Rightarrow> iam_Policy list" where
  "available_policies sys names = List.map_filter (map_of (iamPolicyDocsMap sys)) names"

text \<open>The first policy with the statements of the others appended.\<close>

fun combined :: "iam_Policy list \<Rightarrow> iam_Policy" where
  "combined (p # ps) = p\<lparr>ip_Statements := ip_Statements p @ concat (map ip_Statements ps)\<rparr>"
| "combined [] = \<lparr>ip_ID = [], ip_Version = [], ip_Statements = []\<rparr>"

fun claim_strings :: "claim list \<Rightarrow> string list" where
  "claim_strings [] = []"
| "claim_strings (ClaimString s # cs) = s # claim_strings cs"
| "claim_strings (_ # cs) = claim_strings cs"

definition mapped_doc :: "IAMSys \<Rightarrow> mapped_policies \<Rightarrow> string \<Rightarrow> iam_Policy list" where
  "mapped_doc sys m name =
     (case map_of m name of
        None \<Rightarrow> []
      | Some mp \<Rightarrow> (case map_of (iamPolicyDocsMap sys) (mp_Policy mp) of None \<Rightarrow> [] | Some p \<Rightarrow> [p]))"

definition IsAllowed_ldap :: "'s iam_env \<Rightarrow> IAMSys \<Rightarrow> iam_Args \<Rightarrow> claim \<Rightarrow> error + bool" where
  "IsAllowed_ldap E sys args userIface =
     (case userIface of
        ClaimString user \<Rightarrow>
          (case map_of (ia_Claims args) ''ldapGroups'' of
             Some (ClaimList g) \<Rightarrow>
               (let policies = mapped_doc sys (iamUserPolicyMap sys) user @
                               concat (map (mapped_doc sys (group_policies sys)) (claim_strings g))
                in if length policies = 0 then Inr False else iam_Policy_IsAllowed (ie_lib E) (combined policies) args)
           | _ \<Rightarrow> Inr False)
      | _ \<Rightarrow> Inr False)"

definition doc_allows :: "'s iam_env \<Rightarrow> IAMSys \<Rightarrow> string \<Rightarrow> iam_Args \<Rightarrow> error + bool" where
  "doc_allows E sys name args =
     (case map_of (iamPolicyDocsMap sys) name of
        None \<Rightarrow> Inr False
      | Some p \<Rightarrow> iam_Policy_IsAllowed (ie_lib E) p args)"

text \<open>The part of \<^verbatim>\<open>IsAllowedSTS\<close> for a session policy, which restricts what the policy of the credentials allows.\<close>

definition session_allows :: "'s iam_env \<Rightarrow> IAMSys \<Rightarrow> string \<Rightarrow> iam_Args \<Rightarrow> claim \<Rightarrow> error + bool" where
  "session_allows E sys pname args spolicy =
     (case spolicy of
        ClaimString spolicyStr \<Rightarrow>
          (case (case ie_decode_policy E spolicyStr of Inl e \<Rightarrow> Inl e | Inr raw \<Rightarrow> iam_ParseConfig (ie_lib E) raw) of
             Inl e \<Rightarrow> Inr False
           | Inr subPolicy \<Rightarrow>
               if ip_Version subPolicy = [] then Inr False
               else (case doc_allows E sys pname args of
                   Inl e \<Rightarrow> Inl e
                 | Inr False \<Rightarrow> Inr False
                 | Inr True \<Rightarrow> iam_Policy_IsAllowed (ie_lib E) subPolicy args))
      | _ \<Rightarrow> Inr False)"

definition IsAllowedSTS :: "'s iam_env \<Rightarrow> IAMSys \<Rightarrow> iam_Args \<Rightarrow> error + bool" where
  "IsAllowedSTS E sys args =
     (case map_of (ia_Claims args) ''ldapUser'' of
        Some userIface \<Rightarrow> IsAllowed_ldap E sys args userIface
      | None \<Rightarrow>
          (case GetPolicies args (ie_claim_name E) of
             None \<Rightarrow> Inr False
           | Some [] \<Rightarrow> Inr False
           | Some (pname # _) \<Rightarrow>
               (case map_of (iamUserPolicyMap sys) (ia_AccountName args) of
                  None \<Rightarrow> Inr False
                | Some mp \<Rightarrow>
                    if pname \<noteq> mp_Policy mp then Inr False
                    else (case map_of (ia_Claims args) ''sessionPolicy'' of
                        Some spolicy \<Rightarrow> session_allows E sys pname args spolicy
                      | None \<Rightarrow> doc_allows E sys pname args))))"

definition IsAllowed :: "'s iam_env \<Rightarrow> IAMSys \<Rightarrow> iam_Args \<Rightarrow> error + bool" where
  "IsAllowed E sys args =
     (case ie_OPA E of
        Some opa \<Rightarrow> Inr (fst (opa args))
      | None \<Rightarrow>
          if ia_IsOwner args then Inr True
          else (case IsTempUser E sys (ia_AccountName args) of
              Inl e \<Rightarrow> Inr False
            | Inr True \<Rightarrow> IsAllowedSTS E sys args
            | Inr False \<Rightarrow>
                (case PolicyDBGet E sys (ia_AccountName args) False of
                   Inl e \<Rightarrow> Inr False
                 | Inr policies \<Rightarrow>
                     if length policies = 0 then Inr False
                     else if length (available_policies sys policies) = 0 then Inr False
                     else iam_Policy_IsAllowed (ie_lib E) (combined (available_policies sys policies)) args)))"

definition iamAccountReadAccessActions :: ActionSet where
  "iamAccountReadAccessActions =
     [''s3:ListMultipartUploadParts'', ''s3:ListBucketMultipartUploads'', ''s3:ListBucket'', ''s3:HeadBucket'', ''s3:GetObject'',
      ''s3:GetBucketLocation'']"

definition iamAccountWriteAccessActions :: ActionSet where
  "iamAccountWriteAccessActions =
     [''s3:AbortMultipartUpload'', ''s3:CreateBucket'', ''s3:PutObject'', ''s3:DeleteObject'', ''s3:DeleteBucket'']"

definition iamAccountOtherAccessActions :: ActionSet where
  "iamAccountOtherAccessActions =
     [''s3:BypassGovernanceMode'', ''s3:BypassGovernanceRetention'', ''s3:PutObjectRetention'', ''s3:GetObjectRetention'',
      ''s3:GetObjectLegalHold'', ''s3:PutObjectLegalHold'', ''s3:GetBucketObjectLockConfiguration'',
      ''s3:PutBucketObjectLockConfiguration'', ''s3:ListenBucketNotification'', ''s3:PutBucketLifecycle'',
      ''s3:GetBucketLifecycle'', ''s3:PutBucketNotification'', ''s3:GetBucketNotification'', ''s3:PutBucketPolicy'',
      ''s3:DeleteBucketPolicy'', ''s3:GetBucketPolicy'', ''s3:PutEncryptionConfiguration'', ''s3:GetEncryptionConfiguration'']"

fun account_access :: "bool \<times> bool \<times> bool \<Rightarrow> iam_Statement list \<Rightarrow> bool \<times> bool \<times> bool" where
  "account_access (rd, wr, o') [] = (rd, wr, o')"
| "account_access (rd, wr, o') (st # sts) =
     (if is_Effect st \<noteq> Allow then account_access (rd, wr, o') sts
      else if ActionSet_Intersection (is_Actions st) [''s3:*''] \<noteq> [] then (True, True, True)
      else account_access
             (rd \<or> ActionSet_Intersection (is_Actions st) iamAccountReadAccessActions \<noteq> [],
              wr \<or> ActionSet_Intersection (is_Actions st) iamAccountWriteAccessActions \<noteq> [],
              o' \<or> ActionSet_Intersection (is_Actions st) iamAccountOtherAccessActions \<noteq> []) sts)"

definition GetAccountAccess :: "'s iam_env \<Rightarrow> IAMSys \<Rightarrow> string \<Rightarrow> bool \<times> bool \<times> bool" where
  "GetAccountAccess E sys accountName =
     (case PolicyDBGet E sys accountName False of
        Inl e \<Rightarrow> (False, False, False)
      | Inr policies \<Rightarrow>
          if length policies = 0 then (False, False, False)
          else if length (available_policies sys policies) = 0 then (False, False, False)
          else account_access (False, False, False) (ip_Statements (combined (available_policies sys policies))))"

section \<open>Sequences of operations\<close>

datatype iam_request =
    ReqSetPolicy string iam_Policy
  | ReqDeletePolicy string
  | ReqPolicyDBSet string string bool
  | ReqSetUser string UserInfo
  | ReqSetTempUser string Credentials string
  | ReqSetUserStatus string string
  | ReqSetUserSecretKey string string
  | ReqDeleteUser string
  | ReqAddUsersToGroup string "string list"
  | ReqRemoveUsersFromGroup string "string list"
  | ReqSetGroupStatus string bool
  | ReqLoadGroup string
  | ReqLoadPolicy string
  | ReqLoadPolicyMapping string bool
  | ReqLoadUser string bool

fun iam_serve :: "'s iam_env \<Rightarrow> iam_request \<Rightarrow> 's iam_state \<Rightarrow> error option \<times> 's iam_state" where
  "iam_serve E (ReqSetPolicy name p) = SetPolicy E name p"
| "iam_serve E (ReqDeletePolicy name) = DeletePolicy E name"
| "iam_serve E (ReqPolicyDBSet name policy isGroup) = PolicyDBSet E name policy isGroup"
| "iam_serve E (ReqSetUser u uinfo) = SetUser E u uinfo"
| "iam_serve E (ReqSetTempUser u cred policy) = SetTempUser E u cred policy"
| "iam_serve E (ReqSetUserStatus u status) = SetUserStatus E u status"
| "iam_serve E (ReqSetUserSecretKey u secret) = SetUserSecretKey E u secret"
| "iam_serve E (ReqDeleteUser u) = DeleteUser E u"
| "iam_serve E (ReqAddUsersToGroup g us) = AddUsersToGroup E g us"
| "iam_serve E (ReqRemoveUsersFromGroup g us) = RemoveUsersFromGroup E g us"
| "iam_serve E (ReqSetGroupStatus g b) = SetGroupStatus E g b"
| "iam_serve E (ReqLoadGroup g) = LoadGroup E (ie_objectAPI E) g"
| "iam_serve E (ReqLoadPolicy name) = LoadPolicy E (ie_objectAPI E) name"
| "iam_serve E (ReqLoadPolicyMapping name isGroup) = LoadPolicyMapping E (ie_objectAPI E) name isGroup"
| "iam_serve E (ReqLoadUser u isSTS) = LoadUser E (ie_objectAPI E) u isSTS"

fun iam_serve_all :: "'s iam_env \<Rightarrow> iam_request list \<Rightarrow> 's iam_state \<Rightarrow> 's iam_state" where
  "iam_serve_all E [] st = st"
| "iam_serve_all E (rq # rqs) st = iam_serve_all E rqs (snd (iam_serve E rq st))"

section \<open>Memberships\<close>

text \<open>The map from users to groups, and the members of the groups, as relations.\<close>

definition in_group :: "memberships \<Rightarrow> string \<Rightarrow> string \<Rightarrow> bool" where
  "in_group m u g \<longleftrightarrow> (\<exists>gset. map_of m u = Some gset \<and> g \<in> set gset)"

definition member_of :: "groups_map \<Rightarrow> string \<Rightarrow> string \<Rightarrow> bool" where
  "member_of m u g \<longleftrightarrow> (\<exists>gi. map_of m g = Some gi \<and> u \<in> set (gi_Members gi))"

definition memberships_ok :: "IAMSys \<Rightarrow> bool" where
  "memberships_ok sys \<longleftrightarrow> (\<forall>u g. in_group (iamUserGroupMemberships sys) u g \<longleftrightarrow> member_of (iamGroupsMap sys) u g)"

lemma member_of_update [simp]:
  "member_of (AList.update g gi m) u h \<longleftrightarrow> (if h = g then u \<in> set (gi_Members gi) else member_of m u h)"
  by (simp add: member_of_def update_conv')

lemma member_of_delete [simp]: "member_of (AList.delete g m) u h \<longleftrightarrow> h \<noteq> g \<and> member_of m u h"
  by (auto simp: member_of_def delete_conv')

lemma member_of_entry:
  "map_of m g = Some gi \<Longrightarrow> member_of m u g \<longleftrightarrow> u \<in> set (gi_Members gi)" "map_of m g = None \<Longrightarrow> \<not> member_of m u g"
  by (simp_all add: member_of_def)

text \<open>The operations that leave groups and memberships alone.\<close>

definition same_groups :: "IAMSys \<Rightarrow> IAMSys \<Rightarrow> bool" where
  "same_groups sys sys' \<longleftrightarrow>
     iamGroupsMap sys' = iamGroupsMap sys \<and> iamUserGroupMemberships sys' = iamUserGroupMemberships sys"

lemma same_groups_ok: "same_groups sys sys' \<Longrightarrow> memberships_ok sys \<Longrightarrow> memberships_ok sys'"
  by (simp add: same_groups_def memberships_ok_def)

lemma same_groups_trans: "same_groups a b \<Longrightarrow> same_groups b c \<Longrightarrow> same_groups a c"
  by (simp add: same_groups_def)

lemma policyDBSet_groups: "policyDBSet E name policy sts grp (sys, s) = (r, sys', s') \<Longrightarrow> same_groups sys sys'"
  by (auto simp: policyDBSet_def same_groups_def drop_mapping_def Let_def split: if_splits option.splits prod.splits)

lemma drop_mappings_groups: "drop_mappings E grp names (sys, s) = (sys', s') \<Longrightarrow> same_groups sys sys'"
proof (induction names arbitrary: sys s)
  case (Cons n names)
  obtain u sts where n: "n = (u, sts)" by fastforce
  obtain r sys1 s1 where p: "policyDBSet E u [] sts grp (sys, s) = (r, sys1, s1)" by (metis prod_cases3)
  then have "drop_mappings E grp names (sys1, s1) = (sys', s')" using Cons.prems by (simp add: drop_mappings_def n)
  from Cons.IH [OF this] show ?case using policyDBSet_groups [OF p] same_groups_trans by blast
qed (simp add: drop_mappings_def same_groups_def)

lemma save_credentials_groups: "save_credentials E u sts c (sys, s) = (r, sys', s') \<Longrightarrow> same_groups sys sys'"
  by (auto simp: save_credentials_def same_groups_def split: option.splits prod.splits)

lemma DeletePolicy_groups:
  assumes "DeletePolicy E name (sys, s) = (r, sys', s')"
  shows "same_groups sys sys'"
proof -
  have d: "same_groups (sys\<lparr>iamPolicyDocsMap := m\<rparr>) sys' \<Longrightarrow> same_groups sys sys'" for m by (simp add: same_groups_def)
  show ?thesis using assms
    by (auto simp: DeletePolicy_def Let_def same_groups_def [of sys sys] split: if_splits prod.splits
        dest!: drop_mappings_groups intro: d same_groups_trans) (simp_all add: same_groups_def)
qed

lemma SetUser_groups: "SetUser E u info (sys, s) = (r, sys', s') \<Longrightarrow> same_groups sys sys'"
  by (auto simp: SetUser_def split: if_splits prod.splits option.splits
      dest!: policyDBSet_groups save_credentials_groups intro: same_groups_trans) (simp_all add: same_groups_def)

lemma SetTempUser_groups: "SetTempUser E u c p (sys, s) = (r, sys', s') \<Longrightarrow> same_groups sys sys'"
  by (auto simp: SetTempUser_def Let_def split: if_splits prod.splits option.splits dest!: save_credentials_groups)
    (simp_all add: same_groups_def)

lemma simple_groups:
  "SetPolicy E name p (sys, s) = (r, sys', s') \<Longrightarrow> same_groups sys sys'"
  "PolicyDBSet E name policy grp (sys, s) = (r, sys', s') \<Longrightarrow> same_groups sys sys'"
  "SetUserStatus E u status (sys, s) = (r, sys', s') \<Longrightarrow> same_groups sys sys'"
  "SetUserSecretKey E u secret (sys, s) = (r, sys', s') \<Longrightarrow> same_groups sys sys'"
  "forget_user E u (sys, s) = (r, sys', s') \<Longrightarrow> same_groups sys sys'"
  "LoadPolicy E obj name (sys, s) = (r, sys', s') \<Longrightarrow> same_groups sys sys'"
  "LoadPolicyMapping E obj name grp (sys, s) = (r, sys', s') \<Longrightarrow> same_groups sys sys'"
  "LoadUser E obj name sts (sys, s) = (r, sys', s') \<Longrightarrow> same_groups sys sys'"
  by (auto simp: SetPolicy_def PolicyDBSet_def SetUserStatus_def SetUserSecretKey_def forget_user_def LoadPolicy_def
      LoadPolicyMapping_def LoadUser_def Let_def dest!: policyDBSet_groups save_credentials_groups
      split: if_splits option.splits prod.splits) (simp_all add: same_groups_def)

text \<open>What is assumed of the store here: loading a group touches only the entry of the group, and nothing when it
  fails.\<close>

locale iam_storage = string_sets "ie_lib E" for E :: "'s iam_env" +
  assumes load_group_error: "st_loadGroup (ie_api E) g m s = ((Some e, m'), s') \<Longrightarrow> m' = m"
    and load_group_other: "st_loadGroup (ie_api E) g m s = ((None, m'), s') \<Longrightarrow> h \<noteq> g \<Longrightarrow> map_of m' h = map_of m h"
begin

abbreviation "lib \<equiv> ie_lib E"

lemma in_group_add: "in_group (add_membership lib g u m) v h \<longleftrightarrow> in_group m v h \<or> v = u \<and> h = g"
  by (auto simp: in_group_def add_membership_def update_conv' create add split: option.splits)

lemma in_group_add_all: "in_group (fold (add_membership lib g) us m) v h \<longleftrightarrow> in_group m v h \<or> v \<in> set us \<and> h = g"
  by (induction us arbitrary: m) (auto simp: in_group_add)

lemma in_group_remove: "in_group (remove_membership lib g u m) v h \<longleftrightarrow> in_group m v h \<and> \<not> (v = u \<and> h = g)"
  by (auto simp: in_group_def remove_membership_def update_conv' remove split: option.splits)

lemma in_group_remove_all:
  "in_group (fold (remove_membership lib g) us m) v h \<longleftrightarrow> in_group m v h \<and> \<not> (v \<in> set us \<and> h = g)"
  by (induction us arbitrary: m) (auto simp: in_group_remove)

lemma in_group_remove_group: "in_group (removeGroupFromMembershipsMap lib g m) v h \<longleftrightarrow> in_group m v h \<and> h \<noteq> g"
proof -
  have "map_of (removeGroupFromMembershipsMap lib g m) v =
      map_option (\<lambda>gs. if set_Contains lib gs g then set_Remove lib g gs else gs) (map_of m v)"
    by (induction m) (auto simp: removeGroupFromMembershipsMap_def)
  then show ?thesis by (cases "map_of m v") (auto simp: in_group_def contains remove)
qed

lemma in_member_groups: "g \<in> set (member_groups E sys u) \<longleftrightarrow> in_group (iamUserGroupMemberships sys) u g"
  by (cases "map_of (iamUserGroupMemberships sys) u") (auto simp: member_groups_def in_group_def to_slice)

lemma AddUsersToGroup_ok:
  assumes "memberships_ok sys" "AddUsersToGroup E g us (sys, s) = (r, sys', s')"
  shows "memberships_ok sys'"
  using assms
  by (auto simp: AddUsersToGroup_def memberships_ok_def in_group_add_all Let_def newGroupInfo_def to_slice create
      member_of_entry split: if_splits option.splits prod.splits)

lemma delete_group_ok:
  assumes "memberships_ok sys" "\<forall>u. \<not> member_of (iamGroupsMap sys) u g" "delete_group E g (sys, s) = (r, sys', s')"
  shows "memberships_ok sys'"
  using assms
  by (auto simp: delete_group_def memberships_ok_def drop_mapping_def split: if_splits option.splits prod.splits)

lemma RemoveUsersFromGroup_ok:
  assumes "memberships_ok sys" "RemoveUsersFromGroup E g us (sys, s) = (r, sys', s')"
  shows "memberships_ok sys'"
proof (cases "first_error (member_error sys) us = None \<and> has_store sys \<and> us = [] \<and> ie_objectAPI E \<and> g \<noteq> [] \<and>
    usersSysType sys = MinIOUsersSysType \<and> (\<exists>gi. map_of (iamGroupsMap sys) g = Some gi \<and> gi_Members gi = [])")
  case True
  then have "\<forall>u. \<not> member_of (iamGroupsMap sys) u g" by (auto simp: member_of_def)
  moreover have "delete_group E g (sys, s) = (r, sys', s')"
    using assms(2) True by (auto simp: RemoveUsersFromGroup_def)
  ultimately show ?thesis using delete_group_ok assms(1) by blast
next
  case False
  then show ?thesis
    using assms
    by (auto simp: RemoveUsersFromGroup_def memberships_ok_def in_group_remove_all Let_def to_slice create difference
        member_of_entry split: if_splits option.splits prod.splits)
qed

lemma SetGroupStatus_ok:
  assumes "memberships_ok sys" "SetGroupStatus E g b (sys, s) = (r, sys', s')"
  shows "memberships_ok sys'"
  using assms
  by (auto simp: SetGroupStatus_def memberships_ok_def Let_def member_of_entry split: if_splits option.splits prod.splits)

lemma LoadGroup_ok:
  assumes "memberships_ok sys" "LoadGroup E obj g (sys, s) = (r, sys', s')"
  shows "memberships_ok sys'"
proof -
  obtain err m s1 where l: "st_loadGroup (ie_api E) g (iamGroupsMap sys) s = ((err, m), s1)" by (metis prod_cases3 surj_pair)
  have other: "member_of m v h \<longleftrightarrow> member_of (iamGroupsMap sys) v h" if "err \<noteq> None \<or> h \<noteq> g" for v h
  proof (cases err)
    case None
    then show ?thesis using load_group_other [of g "iamGroupsMap sys" s m s1 h] l that by (simp add: member_of_def)
  next
    case (Some e)
    then show ?thesis using load_group_error [of g "iamGroupsMap sys" s e m s1] l by simp
  qed
  have m: "member_of m v h \<longleftrightarrow> (if h = g then (\<exists>gi. map_of m g = Some gi \<and> v \<in> set (gi_Members gi))
      else member_of (iamGroupsMap sys) v h)" if "err = None" for v h
    using other [of h v] by (auto simp: member_of_def)
  show ?thesis
  proof (cases err)
    case None
    then show ?thesis using assms l m
      by (auto simp: LoadGroup_def memberships_ok_def Let_def in_group_remove_group in_group_add_all
          updateGroupMembershipsMap_def split: if_splits option.splits)
  next
    case (Some e)
    then have "m = iamGroupsMap sys" using load_group_error [of g "iamGroupsMap sys" s e m s1] l by simp
    then show ?thesis using assms l Some
      by (auto simp: LoadGroup_def memberships_ok_def Let_def in_group_remove_group drop_mapping_def
          split: if_splits)
  qed
qed

lemma RemoveUser_effect:
  assumes "RemoveUsersFromGroup E g [u] (sys, s) = (None, sys', s')"
  shows "member_of (iamGroupsMap sys') v h \<longleftrightarrow> member_of (iamGroupsMap sys) v h \<and> \<not> (v = u \<and> h = g)"
  using assms
  by (auto simp: RemoveUsersFromGroup_def Let_def to_slice create difference member_of_entry
      split: if_splits option.splits prod.splits)

lemma leave_groups_ok:
  assumes "memberships_ok sys" "leave_groups E u gs (sys, s) = (r, sys', s')"
  shows "memberships_ok sys' \<and>
    (r = None \<longrightarrow> (\<forall>v h. member_of (iamGroupsMap sys') v h \<longleftrightarrow> member_of (iamGroupsMap sys) v h \<and> \<not> (v = u \<and> h \<in> set gs)))"
  using assms
proof (induction gs arbitrary: sys s)
  case (Cons g gs)
  obtain e sys1 s1 where rm: "RemoveUsersFromGroup E g [u] (sys, s) = (e, sys1, s1)" by (metis prod_cases3)
  have ok: "memberships_ok sys1" by (rule RemoveUsersFromGroup_ok [OF Cons.prems(1) rm])
  show ?case
  proof (cases e)
    case None
    then have "leave_groups E u gs (sys1, s1) = (r, sys', s')" using Cons.prems(2) rm by simp
    from Cons.IH [OF ok this] show ?thesis using RemoveUser_effect rm None by auto
  qed (use Cons.prems(2) rm ok in auto)
qed simp

lemma DeleteUser_ok:
  assumes "memberships_ok sys" "DeleteUser E u (sys, s) = (r, sys', s')"
  shows "memberships_ok sys' \<and> (r = None \<longrightarrow> (\<forall>g. \<not> member_of (iamGroupsMap sys') u g))"
proof (cases "ie_objectAPI E \<and> (\<exists>info. GetUserInfo E sys u = Inr info)")
  case True
  then obtain info where info: "GetUserInfo E sys u = Inr info" by blast
  obtain e sys1 s1 where lv: "leave_groups E u (mu_MemberOf info) (sys, s) = (e, sys1, s1)" by (metis prod_cases3)
  have m: "mu_MemberOf info = member_groups E sys u"
    using info by (auto simp: GetUserInfo_def split: if_splits option.splits)
  note ok = leave_groups_ok [OF assms(1) lv]
  have none: "\<not> member_of (iamGroupsMap sys1) u g" if "e = None" for g
  proof -
    have "member_of (iamGroupsMap sys) u g \<longleftrightarrow> g \<in> set (mu_MemberOf info)"
      using assms(1) by (simp add: m in_member_groups memberships_ok_def)
    moreover have "member_of (iamGroupsMap sys1) u g \<longleftrightarrow> member_of (iamGroupsMap sys) u g \<and> g \<notin> set (mu_MemberOf info)"
      using ok that by simp
    ultimately show ?thesis by simp
  qed
  show ?thesis
  proof (cases e)
    case None
    then have "forget_user E u (sys1, s1) = (r, sys', s')" using assms(2) True info lv by (simp add: DeleteUser_def)
    note same = simple_groups(5) [OF this]
    have "iamGroupsMap sys' = iamGroupsMap sys1" using same by (simp add: same_groups_def)
    then show ?thesis using same_groups_ok [OF same] ok none None by simp
  next
    case (Some x)
    then show ?thesis using assms(2) True info lv ok by (auto simp: DeleteUser_def)
  qed
next
  case False
  then show ?thesis using assms by (auto simp: DeleteUser_def split: sum.splits if_splits)
qed

lemma iam_serve_ok:
  assumes "memberships_ok sys" "iam_serve E rq (sys, s) = (r, sys', s')"
  shows "memberships_ok sys'"
proof -
  note same = same_groups_ok [OF _ assms(1)]
  note ok = same [OF simple_groups(1)] same [OF simple_groups(2)] same [OF simple_groups(3)] same [OF simple_groups(4)]
    same [OF simple_groups(6)] same [OF simple_groups(7)] same [OF simple_groups(8)] same [OF SetUser_groups]
    same [OF SetTempUser_groups] same [OF DeletePolicy_groups] AddUsersToGroup_ok [OF assms(1)]
    RemoveUsersFromGroup_ok [OF assms(1)] SetGroupStatus_ok [OF assms(1)] LoadGroup_ok [OF assms(1)]
    DeleteUser_ok [OF assms(1), THEN conjunct1]
  show ?thesis by (insert assms(2), cases rq; (simp only: iam_serve.simps)?; erule ok)
qed

lemma iam_serve_all_ok: "memberships_ok sys \<Longrightarrow> memberships_ok (fst (iam_serve_all E rqs (sys, s)))"
proof (induction rqs arbitrary: sys s)
  case (Cons rq rqs)
  obtain r sys1 s1 where "iam_serve E rq (sys, s) = (r, sys1, s1)" by (metis prod_cases3)
  then show ?case using Cons iam_serve_ok by simp
qed simp

end

section \<open>Who is allowed\<close>

text \<open>The policies that count for a user: the user's own, and those of the enabled groups the user is a member
  of; and their statements.\<close>

definition group_enabled :: "IAMSys \<Rightarrow> string \<Rightarrow> bool" where
  "group_enabled sys g = (case map_of (iamGroupsMap sys) g of None \<Rightarrow> False | Some gi \<Rightarrow> gi_Status gi \<noteq> statusDisabled)"

definition granted :: "IAMSys \<Rightarrow> string \<Rightarrow> string \<Rightarrow> bool" where
  "granted sys u n \<longleftrightarrow> n \<noteq> [] \<and>
     (mapped_name (iamUserPolicyMap sys) u = n \<or>
      (\<exists>g. member_of (iamGroupsMap sys) u g \<and> group_enabled sys g \<and> mapped_name (group_policies sys) g = n))"

definition doc_statement :: "IAMSys \<Rightarrow> string \<Rightarrow> iam_Statement \<Rightarrow> bool" where
  "doc_statement sys n st = (case map_of (iamPolicyDocsMap sys) n of None \<Rightarrow> False | Some p \<Rightarrow> st \<in> set (ip_Statements p))"

definition granted_statement :: "IAMSys \<Rightarrow> string \<Rightarrow> iam_Statement \<Rightarrow> bool" where
  "granted_statement sys u st \<longleftrightarrow> (\<exists>n. granted sys u n \<and> doc_statement sys n st)"

lemma available_statements:
  "st \<in> set (ip_Statements (combined (available_policies sys names))) \<longleftrightarrow> (\<exists>n \<in> set names. doc_statement sys n st)"
proof -
  have c: "st \<in> set (ip_Statements (combined ps)) \<longleftrightarrow> (\<exists>p \<in> set ps. st \<in> set (ip_Statements p))" for ps
    by (cases ps) simp_all
  show ?thesis unfolding c
    by (induction names) (simp_all add: available_policies_def List.map_filter_simps doc_statement_def split: option.split)
qed

lemma set_group_policy:
  "n \<in> set (group_policy sys g) \<longleftrightarrow> n \<noteq> [] \<and> group_enabled sys g \<and> mapped_name (group_policies sys) g = n"
  by (auto simp: group_policy_def group_enabled_def split: option.split)

context iam_storage
begin

lemma policyDBGet_granted:
  assumes "memberships_ok sys" "map_of (iamUsersMap sys) u = Some cred"
  shows "\<exists>names. policyDBGet E sys u False = Inr names \<and>
    set names = (if cr_Status cred = statusDisabled then {} else {n. granted sys u n})"
proof -
  let ?grp = "concat (map (group_policy sys) (member_groups E sys u))"
  let ?own = "if mapped_name (iamUserPolicyMap sys) u \<noteq> [] then [mapped_name (iamUserPolicyMap sys) u] else []"
  have "set (member_groups E sys u) = {g. member_of (iamGroupsMap sys) u g}"
    using assms(1) by (auto simp: in_member_groups memberships_ok_def)
  then have g: "n \<in> set ?grp \<longleftrightarrow>
      n \<noteq> [] \<and> (\<exists>g. member_of (iamGroupsMap sys) u g \<and> group_enabled sys g \<and> mapped_name (group_policies sys) g = n)" for n
    by (simp add: set_group_policy)
  have "n \<in> set (?own @ ?grp) \<longleftrightarrow> granted sys u n" for n
    unfolding set_append Un_iff g granted_def by (cases "n = mapped_name (iamUserPolicyMap sys) u") simp_all
  then have "set (?own @ ?grp) = {n. granted sys u n}" by blast
  then have "set (if cr_Status cred = statusDisabled then [] else ?own @ ?grp) =
      (if cr_Status cred = statusDisabled then {} else {n. granted sys u n})"
    by (simp only: list.set split: if_split) simp
  moreover have "policyDBGet E sys u False = Inr (if cr_Status cred = statusDisabled then [] else ?own @ ?grp)"
    using assms(2) by (simp add: policyDBGet_def)
  ultimately show ?thesis by blast
qed

lemma IsAllowed_decides:
  assumes "memberships_ok sys" "map_of (iamUsersMap sys) (ia_AccountName args) = Some cred" "\<not> IsTemp cred"
    "ia_AccountName args \<noteq> []" "ie_objectAPI E" "ie_OPA E = None" "\<not> ia_IsOwner args"
    "values_ok (ia_ConditionValues args)"
    "\<forall>st. granted_statement sys (ia_AccountName args) st \<longrightarrow> iam_answerable lib args st"
  shows "IsAllowed E sys args =
    Inr (cr_Status cred \<noteq> statusDisabled \<and>
         (\<forall>st. granted_statement sys (ia_AccountName args) st \<and> is_Effect st = Deny \<longrightarrow> \<not> iam_applies lib args st) \<and>
         (\<exists>st. granted_statement sys (ia_AccountName args) st \<and> is_Effect st = Allow \<and> iam_applies lib args st))"
proof -
  let ?u = "ia_AccountName args"
  obtain names where names: "policyDBGet E sys ?u False = Inr names"
    "set names = (if cr_Status cred = statusDisabled then {} else {n. granted sys ?u n})"
    using policyDBGet_granted [OF assms(1,2)] by blast
  let ?ps = "available_policies sys names"
  have "st \<in> set (ip_Statements (combined ?ps)) \<longleftrightarrow> cr_Status cred \<noteq> statusDisabled \<and> granted_statement sys ?u st" for st
    using names(2) by (simp add: available_statements granted_statement_def)
  then have st: "set (ip_Statements (combined ?ps)) = {st. cr_Status cred \<noteq> statusDisabled \<and> granted_statement sys ?u st}"
    by blast
  have "iam_Policy_IsAllowed lib (combined ?ps) args =
      Inr ((\<forall>st \<in> set (ip_Statements (combined ?ps)). is_Effect st = Deny \<longrightarrow> \<not> iam_applies lib args st) \<and>
           (ia_IsOwner args \<or> (\<exists>st \<in> set (ip_Statements (combined ?ps)). is_Effect st = Allow \<and> iam_applies lib args st)))"
    using assms(9) by (intro iam_Policy_IsAllowed_decides [OF assms(8)]) (simp add: st)
  also have "\<dots> = Inr (cr_Status cred \<noteq> statusDisabled \<and>
         (\<forall>st. granted_statement sys ?u st \<and> is_Effect st = Deny \<longrightarrow> \<not> iam_applies lib args st) \<and>
         (\<exists>st. granted_statement sys ?u st \<and> is_Effect st = Allow \<and> iam_applies lib args st))"
    unfolding st using assms(7) by auto
  finally have c: "iam_Policy_IsAllowed lib (combined ?ps) args = \<dots>" .
  have e: "iam_Policy_IsAllowed lib (combined []) args = Inr False"
    using assms(7) by (simp add: iam_Policy_IsAllowed_def)
  have "IsAllowed E sys args = (if names = [] \<or> ?ps = [] then Inr False else iam_Policy_IsAllowed lib (combined ?ps) args)"
    using assms(2-7) names(1) by (simp add: IsAllowed_def IsTempUser_def PolicyDBGet_def)
  also have "\<dots> = iam_Policy_IsAllowed lib (combined ?ps) args"
    using e by (cases "?ps = []") (auto simp: available_policies_def List.map_filter_def)
  finally have "IsAllowed E sys args = iam_Policy_IsAllowed lib (combined ?ps) args" .
  then show ?thesis using c by simp
qed

end

text \<open>What holds for temporary credentials that do not come from LDAP.\<close>

lemma session_allows_within:
  assumes "session_allows E sys pname args c = Inr True"
  shows "doc_allows E sys pname args = Inr True \<and>
    (\<exists>str raw sub. c = ClaimString str \<and> ie_decode_policy E str = Inr raw \<and> iam_ParseConfig (ie_lib E) raw = Inr sub \<and>
       iam_Policy_IsAllowed (ie_lib E) sub args = Inr True)"
proof (cases c)
  case (ClaimString str)
  obtain raw where raw: "ie_decode_policy E str = Inr raw"
    using assms ClaimString by (cases "ie_decode_policy E str") (simp_all add: session_allows_def)
  obtain sub where sub: "iam_ParseConfig (ie_lib E) raw = Inr sub"
    using assms ClaimString raw by (cases "iam_ParseConfig (ie_lib E) raw") (simp_all add: session_allows_def)
  have "doc_allows E sys pname args = Inr True \<and> iam_Policy_IsAllowed (ie_lib E) sub args = Inr True"
    using assms ClaimString raw sub by (simp add: session_allows_def split: sum.splits if_splits bool.splits)
  then show ?thesis using ClaimString raw sub by simp
qed (use assms in \<open>simp_all add: session_allows_def\<close>)

lemma IsAllowedSTS_within:
  assumes "IsAllowedSTS E sys args = Inr True" "map_of (ia_Claims args) ''ldapUser'' = None"
  shows "\<exists>mp. map_of (iamUserPolicyMap sys) (ia_AccountName args) = Some mp \<and>
    (\<exists>ps. GetPolicies args (ie_claim_name E) = Some (mp_Policy mp # ps)) \<and>
    doc_allows E sys (mp_Policy mp) args = Inr True \<and>
    (\<forall>c. map_of (ia_Claims args) ''sessionPolicy'' = Some c \<longrightarrow> session_allows E sys (mp_Policy mp) args c = Inr True)"
proof -
  obtain l where l: "GetPolicies args (ie_claim_name E) = Some l"
    using assms by (cases "GetPolicies args (ie_claim_name E)") (simp_all add: IsAllowedSTS_def)
  then obtain pname ps where p: "GetPolicies args (ie_claim_name E) = Some (pname # ps)"
    using assms by (cases l) (simp_all add: IsAllowedSTS_def)
  then obtain mp where mp: "map_of (iamUserPolicyMap sys) (ia_AccountName args) = Some mp"
    using assms by (cases "map_of (iamUserPolicyMap sys) (ia_AccountName args)") (simp_all add: IsAllowedSTS_def)
  have eq: "pname = mp_Policy mp" using assms p mp by (simp add: IsAllowedSTS_def split: if_splits)
  show ?thesis
  proof (cases "map_of (ia_Claims args) ''sessionPolicy''")
    case None
    then show ?thesis using assms p mp eq by (simp add: IsAllowedSTS_def)
  next
    case (Some c)
    then have "session_allows E sys (mp_Policy mp) args c = Inr True" using assms p mp eq by (simp add: IsAllowedSTS_def)
    from this session_allows_within [OF this] show ?thesis using p mp eq Some by simp
  qed
qed

lemma policyDBGet_status:
  assumes "map_of (iamUsersMap sys) u = Some cred" "cr_Status cred \<noteq> statusDisabled" "cr_Status cred' \<noteq> statusDisabled"
  shows "policyDBGet E (sys\<lparr>iamUsersMap := AList.update u cred' (iamUsersMap sys)\<rparr>) u False = policyDBGet E sys u False"
proof -
  let ?sys = "sys\<lparr>iamUsersMap := AList.update u cred' (iamUsersMap sys)\<rparr>"
  have "group_policy ?sys = group_policy sys"
    by (rule ext) (simp add: group_policy_def group_policies_def split: option.split)
  then show ?thesis using assms by (simp add: policyDBGet_def update_conv' member_groups_def)
qed

end
