(* ===== verification/Config_Files.thy ===== *)
theory Config_Files
  imports Object_Store Kinetic_Listing
begin

text \<open>
  Configuration files, \<^verbatim>\<open>cmd/config-common.go\<close>: they are objects of the bucket \<^verbatim>\<open>.minio.sys\<close>, read, written and deleted
  through the object layer, here the Kinetic layer. What the rest of the server may rely on is the locale
  \<open>config_files\<close>, a map from paths to bytes; the layer on a healthy drive provides it (\<open>config_layer\<close>), by the
  simulation of \<open>Object_Store\<close>.

  The file is uploaded with its digest. \<open>strict\<close> is the flag \<^verbatim>\<open>StrictS3Compat\<close> of the command line.
\<close>

definition ObjectOptions0 :: ObjectOptions where
  "ObjectOptions0 = \<lparr>oo_UserDefined = None\<rparr>"

definition readConfig :: "('d, 'm) env \<Rightarrow> string \<Rightarrow> ('d, 'm, error + bytes) go" where
  "readConfig E configFile =
     do {
       res \<leftarrow> GetObject E minioMetaBucket configFile 0 (- 1);
       State_Monad.return (case res of
           Inl err \<Rightarrow> Inl (if isErrObjectNotFound err then Iam errConfigNotFound else err)
         | Inr buffer \<Rightarrow>
             if length (blob_bytes E buffer) = 0 then Inl (Iam errConfigNotFound) else Inr (blob_bytes E buffer))
     }"

definition deleteConfig :: "('d, 'm) env \<Rightarrow> string \<Rightarrow> ('d, 'm, error option) go" where
  "deleteConfig E configFile = DeleteObject E minioMetaBucket configFile"

definition config_reader :: "('d, 'm) env \<Rightarrow> bool \<Rightarrow> bytes \<Rightarrow> error + Reader" where
  "config_reader E strict data =
     NewReader data False (int (length data)) [] (hex_EncodeToString (e_sha256 E data)) (int (length data)) strict"

definition saveConfig :: "('d, 'm) env \<Rightarrow> bool \<Rightarrow> string \<Rightarrow> bytes \<Rightarrow> ('d, 'm, error option) go" where
  "saveConfig E strict configFile data =
     (case config_reader E strict data of
        Inl err \<Rightarrow> State_Monad.return (Some err)
      | Inr hashReader \<Rightarrow> do {
          res \<leftarrow> PutObject E minioMetaBucket configFile hashReader ObjectOptions0;
          State_Monad.return (case res of Inl err \<Rightarrow> Some err | Inr _ \<Rightarrow> None)
        })"

definition checkConfig :: "('d, 'm) env \<Rightarrow> string \<Rightarrow> ('d, 'm, error option) go" where
  "checkConfig E configFile =
     do {
       res \<leftarrow> GetObjectInfo E minioMetaBucket configFile;
       State_Monad.return (case res of Inl err \<Rightarrow> Some (Iam errConfigNotFound) | Inr _ \<Rightarrow> None)
     }"

abbreviation maxObjectList :: int where "maxObjectList \<equiv> 10000"

section \<open>A map from paths to bytes\<close>

record 's config_api =
  cf_read :: "string \<Rightarrow> 's \<Rightarrow> (error + bytes) \<times> 's"
  cf_save :: "string \<Rightarrow> bytes \<Rightarrow> 's \<Rightarrow> error option \<times> 's"
  cf_delete :: "string \<Rightarrow> 's \<Rightarrow> error option \<times> 's"
  cf_list :: "string \<Rightarrow> string \<Rightarrow> 's \<Rightarrow> (error + ListObjectsInfo) option \<times> 's"

text \<open>\<open>cf_list\<close> is the call of \<^verbatim>\<open>ListObjects\<close> with the delimiter and at most \<^verbatim>\<open>maxObjectList\<close> names.\<close>

definition kinetic_config :: "nat \<Rightarrow> ('d, 'm) env \<Rightarrow> bool \<Rightarrow> ('d, 'm) world config_api" where
  "kinetic_config fuel E strict =
     \<lparr>cf_read = (\<lambda>p. run_state (readConfig E p)), cf_save = (\<lambda>p d. run_state (saveConfig E strict p d)),
      cf_delete = (\<lambda>p. run_state (deleteConfig E p)),
      cf_list = (\<lambda>pre marker. run_state (ListObjects fuel E minioMetaBucket pre marker SlashSeparator maxObjectList))\<rparr>"

text \<open>The deletion of a file that is not there is reported as a missing file, not as a missing object.\<close>

locale config_files =
  fixes C :: "'s config_api" and good :: "'s \<Rightarrow> bool" and files :: "'s \<Rightarrow> string \<rightharpoonup> bytes"
    and usable :: "string \<Rightarrow> bool" and small :: "bytes \<Rightarrow> bool"
  assumes read: "good s \<Longrightarrow> usable p \<Longrightarrow>
      \<exists>s'. cf_read C p s = (case files s p of None \<Rightarrow> Inl (Iam errConfigNotFound) | Some d \<Rightarrow> Inr d, s') \<and>
           good s' \<and> files s' = files s"
    and save: "good s \<Longrightarrow> usable p \<Longrightarrow> d \<noteq> [] \<Longrightarrow>
      \<exists>e s'. cf_save C p d s = (e, s') \<and> good s' \<and> files s' = (if e = None then (files s)(p \<mapsto> d) else files s) \<and>
             (small d \<longrightarrow> e = None)"
    and delete_present: "good s \<Longrightarrow> usable p \<Longrightarrow> files s p = Some d \<Longrightarrow>
      \<exists>s'. cf_delete C p s = (None, s') \<and> good s' \<and> files s' = (files s)(p := None)"
    and delete_missing: "good s \<Longrightarrow> usable p \<Longrightarrow> files s p = None \<Longrightarrow>
      \<exists>s'. cf_delete C p s = (Some (Storage errFileNotFound), s') \<and> good s' \<and> files s' = files s"

text \<open>The layer: a world that simulates a store with the bucket, the paths the input checks accept, and bodies whose
  metadata fit.\<close>

definition meta_file :: "('d \<Rightarrow> kstore) \<Rightarrow> ('d, 'm) world \<Rightarrow> string \<rightharpoonup> bytes" where
  "meta_file contents w p =
     (case contents (w_drive w) (makeKey minioMetaBucket p) of Some (_, Raw d) \<Rightarrow> Some d | _ \<Rightarrow> None)"

definition meta_world :: "('d, 'm) env \<Rightarrow> ('d \<Rightarrow> kstore) \<Rightarrow> ('d, 'm) world \<Rightarrow> bool" where
  "meta_world E contents w \<longleftrightarrow> (\<exists>S. simulates E contents w S \<and> minioMetaBucket \<in> s3_buckets S)"

definition meta_path :: "('d, 'm) env \<Rightarrow> string \<Rightarrow> bool" where
  "meta_path E p \<longleftrightarrow> wf_request E (ReqGet minioMetaBucket p) \<and> wf_request E (ReqDelete minioMetaBucket p) \<and>
     (\<forall>sz. putable minioMetaBucket p sz) \<and> (\<forall>v t r. fits16 E (Json (written_meta E v t p r ObjectOptions0)))"

definition one_block :: "bytes \<Rightarrow> bool" where
  "one_block d \<longleftrightarrow> int (length d) \<le> blockSizeV1"

context kinetic_layer
begin

text \<open>A body of more than a block is refused before anything is written.\<close>

lemma run_putObject_large:
  assumes "ready w" "blockSizeV1 < r_size r"
  shows "run_state (putObject E b x r opts) w = (Inl (Storage errInvalidArgument), touched w)"
proof -
  obtain c ce where "CGetMeta (e_ops E) (bucket_key b) option_nosync (w_drive w) = (c, ce)"
    "ce = None \<or> ce = Some (Kinetic errKineticNotFound)" using CGetMeta_codes by blast
  then show ?thesis
    using assms by (auto simp: putObject_def kc_defs run ready_defs touched_def)
qed

lemma run_PutObject_large:
  assumes "ready w" "nul_free b" "fresh (w_ns w) b []" "fresh (w_ns w) b x" "bucket_at E (store w) b"
    "putable b x (r_size r)" "blockSizeV1 < r_size r"
  shows "\<exists>w'. run_state (PutObject E b x r opts) w = (Inl (Storage errInvalidArgument), w') \<and> settled w w' \<and>
    w_drive w' = w_drive w"
proof -
  let ?w = "(keyed (bucket_key b) w)\<lparr>w_ns := locked (e_lrw E) (w_ns w) b x False, w_activeIO := w_activeIO w + 1\<rparr>"
  have "ready ?w" using assms(1) by simp
  from run_putObject_large [OF this assms(7), of b x opts] show ?thesis
    using assms(1-6)
    by (auto simp: PutObject_def run_checkPutObjectArgs run run_ns_GetLock run_ns_Unlock settled_def)
qed

end

locale config_layer = healthy_layer E contents readers writer
  for E :: "('d, 'm) env" and contents :: "'d \<Rightarrow> kstore" and readers :: "'m \<Rightarrow> nat" and writer :: "'m \<Rightarrow> bool" +
  assumes md5_not_Nil: "e_md5 E h \<noteq> []"
begin

lemma meta_file_eq:
  assumes "simulates E contents w S"
  shows "meta_file contents w p = s3_objects S (minioMetaBucket, p)"
proof -
  have "stored_as E (contents (w_drive w) (makeKey minioMetaBucket p)) (s3_objects S (minioMetaBucket, p))"
    using assms by (simp add: simulates_def represents_def)
  then show ?thesis by (cases "s3_objects S (minioMetaBucket, p)") (auto simp: stored_as_def meta_file_def)
qed

lemma meta_step:
  assumes "meta_world E contents w" "wf_request E rq"
  obtains S w' where "minioMetaBucket \<in> s3_buckets S" "run_state (serve E rq) w = (fst (spec_serve S rq), w')"
    "meta_file contents w = (\<lambda>p. s3_objects S (minioMetaBucket, p))" "simulates E contents w' (snd (spec_serve S rq))"
proof -
  obtain S where S: "simulates E contents w S" "minioMetaBucket \<in> s3_buckets S" using assms(1) by (auto simp: meta_world_def)
  obtain w' where "run_state (serve E rq) w = (fst (spec_serve S rq), w')" "simulates E contents w' (snd (spec_serve S rq))"
    using serve_step [OF S(1) assms(2)] md5_not_Nil by (metis prod.collapse)
  then show ?thesis using that S meta_file_eq [OF S(1)] by blast
qed

lemma run_then: "run_state m w = (x, w') \<Longrightarrow> run_state (do { y \<leftarrow> m; State_Monad.return (f y) }) w = (f x, w')"
  by (simp add: run)

lemma meta_read:
  assumes "meta_world E contents w" "meta_path E p"
  shows "\<exists>w'. run_state (readConfig E p) w =
      (case meta_file contents w p of None \<Rightarrow> Inl (Iam errConfigNotFound) | Some d \<Rightarrow> Inr d, w') \<and>
    meta_world E contents w' \<and> meta_file contents w' = meta_file contents w"
proof -
  have wf: "wf_request E (ReqGet minioMetaBucket p)" using assms(2) by (simp add: meta_path_def)
  obtain S w' where S: "minioMetaBucket \<in> s3_buckets S"
    "run_state (serve E (ReqGet minioMetaBucket p)) w = (fst (spec_serve S (ReqGet minioMetaBucket p)), w')"
    "meta_file contents w = (\<lambda>p. s3_objects S (minioMetaBucket, p))" "simulates E contents w' S"
    using meta_step [OF assms(1) wf] by (metis snd_conv spec_serve.simps(3))
  obtain res w1 where g: "run_state (GetObject E minioMetaBucket p 0 (- 1)) w = (res, w1)" by fastforce
  have sim: "stored_as E (contents (w_drive w') (makeKey minioMetaBucket p)) (s3_objects S (minioMetaBucket, p))"
    using S(4) by (simp add: simulates_def represents_def)
  have r: "w1 = w'" "res = (case s3_objects S (minioMetaBucket, p) of
      None \<Rightarrow> Inl (Name (ObjectNotFound minioMetaBucket p)) | Some v \<Rightarrow> Inr (Raw v))"
    using S(1,2) run_then [OF g, of "\<lambda>res. case res of Inr v \<Rightarrow> Body v | Inl e \<Rightarrow> Err e"]
    by (auto split: option.splits sum.splits)
  have "run_state (readConfig E p) w =
      (case meta_file contents w p of None \<Rightarrow> Inl (Iam errConfigNotFound) | Some d \<Rightarrow> Inr d, w')"
    unfolding readConfig_def run_then [OF g] using sim
    by (cases "s3_objects S (minioMetaBucket, p)")
      (auto simp: r S(3) isErrObjectNotFound_def blob_bytes_def stored_as_def)
  moreover have "meta_world E contents w'" using S(1,4) by (auto simp: meta_world_def)
  moreover have "meta_file contents w' = meta_file contents w" using meta_file_eq [OF S(4)] S(3) by auto
  ultimately show ?thesis by blast
qed

lemma config_reader_ok:
  "\<exists>r. config_reader E True d = Inr r \<and> r_src r = d \<and> r_size r = int (length d) \<and> (one_block d \<longrightarrow> plain_body r)"
  by (simp add: config_reader_def NewReader_def hex_roundtrip plain_body_def one_block_def)

lemma meta_save_small:
  assumes "meta_world E contents w" "meta_path E p" "config_reader E True d = Inr r" "r_src r = d" "plain_body r" "d \<noteq> []"
  shows "\<exists>w'. run_state (saveConfig E True p d) w = (None, w') \<and> meta_world E contents w' \<and>
    meta_file contents w' = (meta_file contents w)(p \<mapsto> d)"
proof -
  let ?rq = "ReqPut minioMetaBucket p r ObjectOptions0"
  have wf: "wf_request E ?rq" using assms by (simp add: meta_path_def)
  obtain S w' where S: "minioMetaBucket \<in> s3_buckets S" "run_state (serve E ?rq) w = (fst (spec_serve S ?rq), w')"
    "meta_file contents w = (\<lambda>p. s3_objects S (minioMetaBucket, p))" "simulates E contents w' (snd (spec_serve S ?rq))"
    using meta_step [OF assms(1) wf] .
  obtain res w1 where g: "run_state (PutObject E minioMetaBucket p r ObjectOptions0) w = (res, w1)" by fastforce
  have res: "w1 = w'" "\<exists>oi. res = Inr oi"
    using S(1,2) run_then [OF g, of "\<lambda>res. case res of Inr oi \<Rightarrow> Done | Inl e \<Rightarrow> Err e"] by (auto split: sum.splits)
  have "run_state (saveConfig E True p d) w = (None, w')"
    unfolding saveConfig_def assms(3) sum.case run_then [OF g] using res by auto
  moreover have "meta_file contents w' = (meta_file contents w)(p \<mapsto> d)"
    using meta_file_eq [OF S(4)] S(1) by (auto simp: S(3) assms(4) fun_eq_iff)
  moreover have "meta_world E contents w'"
    unfolding meta_world_def using S(1,4) by (intro exI [of _ "snd (spec_serve S ?rq)"]) simp
  ultimately show ?thesis by blast
qed

lemma meta_save_large:
  assumes "meta_world E contents w" "meta_path E p" "config_reader E True d = Inr r" "blockSizeV1 < r_size r"
  shows "\<exists>w'. run_state (saveConfig E True p d) w = (Some (Storage errInvalidArgument), w') \<and> meta_world E contents w' \<and>
    meta_file contents w' = meta_file contents w"
proof -
  obtain S where S: "simulates E contents w S" "minioMetaBucket \<in> s3_buckets S" using assms(1) by (auto simp: meta_world_def)
  have w: "ready w" "w_ns w = []" "bucket_at E (store w) minioMetaBucket"
    using S by (auto simp: simulates_def represents_def)
  have n: "nul_free minioMetaBucket" "putable minioMetaBucket p (r_size r)"
    using assms(2) by (auto simp: meta_path_def wf_names_def)
  have "fresh (w_ns w) minioMetaBucket y" for y using w(2) by simp
  from run_PutObject_large [OF w(1) n(1) this this w(3) n(2) assms(4), of ObjectOptions0]
  obtain w' where w': "run_state (PutObject E minioMetaBucket p r ObjectOptions0) w = (Inl (Storage errInvalidArgument), w')"
    "settled w w'" "w_drive w' = w_drive w" by blast
  have "simulates E contents w' S" using S(1) w'(2,3) by (simp add: simulates_def settled_def)
  then have "meta_world E contents w'" using S(2) by (auto simp: meta_world_def)
  moreover have "meta_file contents w' = meta_file contents w" using w'(3) by (auto simp: meta_file_def)
  moreover have "run_state (saveConfig E True p d) w = (Some (Storage errInvalidArgument), w')"
    unfolding saveConfig_def assms(3) sum.case run_then [OF w'(1)] by simp
  ultimately show ?thesis by blast
qed

lemma meta_save:
  assumes "meta_world E contents w" "meta_path E p" "d \<noteq> []"
  shows "\<exists>e w'. run_state (saveConfig E True p d) w = (e, w') \<and> meta_world E contents w' \<and>
    meta_file contents w' = (if e = None then (meta_file contents w)(p \<mapsto> d) else meta_file contents w) \<and>
    (one_block d \<longrightarrow> e = None)"
proof -
  obtain r where r: "config_reader E True d = Inr r" "r_src r = d" "r_size r = int (length d)" "one_block d \<longrightarrow> plain_body r"
    using config_reader_ok by blast
  show ?thesis
  proof (cases "one_block d")
    case True
    then show ?thesis using meta_save_small [OF assms(1,2) r(1,2) _ assms(3)] r(4) by auto
  next
    case False
    then have "blockSizeV1 < r_size r" using r(3) by (simp add: one_block_def)
    from meta_save_large [OF assms(1,2) r(1) this] show ?thesis using False by auto
  qed
qed

lemma meta_delete:
  assumes "meta_world E contents w" "meta_path E p"
  shows "\<exists>w'. run_state (deleteConfig E p) w =
      (if meta_file contents w p = None then Some (Storage errFileNotFound) else None, w') \<and>
    meta_world E contents w' \<and> meta_file contents w' = (meta_file contents w)(p := None)"
proof -
  let ?rq = "ReqDelete minioMetaBucket p"
  have wf: "wf_request E ?rq" using assms(2) by (simp add: meta_path_def)
  obtain S w' where S: "minioMetaBucket \<in> s3_buckets S" "run_state (serve E ?rq) w = (fst (spec_serve S ?rq), w')"
    "meta_file contents w = (\<lambda>p. s3_objects S (minioMetaBucket, p))" "simulates E contents w' (snd (spec_serve S ?rq))"
    using meta_step [OF assms(1) wf] .
  obtain res w1 where g: "run_state (DeleteObject E minioMetaBucket p) w = (res, w1)" by fastforce
  have res: "w1 = w'" "res = (if meta_file contents w p = None then Some (Storage errFileNotFound) else None)"
    using S(2) run_then [OF g, of outcome] by (auto simp: S(3) outcome_def split: option.splits)
  have "meta_file contents w' = (meta_file contents w)(p := None)"
    using meta_file_eq [OF S(4)] by (auto simp: S(3) fun_eq_iff split: option.splits)
  moreover have "minioMetaBucket \<in> s3_buckets (snd (spec_serve S ?rq))" using S(1) by (simp split: option.split)
  then have "meta_world E contents w'" unfolding meta_world_def using S(4) by blast
  ultimately show ?thesis unfolding deleteConfig_def g res by blast
qed

end

sublocale config_layer \<subseteq>
  config_files "kinetic_config fuel E True" "meta_world E contents" "meta_file contents" "meta_path E" one_block for fuel
proof (unfold_locales, goal_cases)
  case (1 s p)
  then show ?case using meta_read by (simp add: kinetic_config_def)
next
  case (2 s p d)
  then show ?case using meta_save by (simp add: kinetic_config_def)
next
  case (3 s p d)
  then show ?case using meta_delete [of s p] by (simp add: kinetic_config_def)
next
  case (4 s p)
  then show ?case using meta_delete [of s p] by (simp add: kinetic_config_def fun_upd_idem)
qed

interpretation mem_config: config_layer mem_env map_of fst snd
  by unfold_locales (simp add: base_env_def on_memory_def)

end
