(* ===== verification/Iam_Store.thy ===== *)
theory Iam_Store
  imports Iam_System Config_Files
begin

text \<open>
  Where the system of users, groups and policies keeps its state: \<^verbatim>\<open>IAMObjectStore\<close> of \<^verbatim>\<open>cmd/iam-object-store.go\<close>, one
  configuration file for each user, group, policy and mapping of a policy, with the loading of everything at
  the start and at every refresh.

  Files are reached through \<open>config_api\<close> of \<open>Config_Files\<close>. How \<^verbatim>\<open>encoding/json\<close> prints and reads the values, and the
  encryption of the files, are the parameters \<open>iam_json\<close>. \<open>objectStoreAPI\<close> is the store as the interface
  \<open>IAMStorageAPI\<close> that \<open>Iam_System\<close> calls.

  The lemmas show that memory and files agree after every operation, on a drive that accepts writes, and
  where the errors of the store are not those its callers expect.
\<close>

section \<open>Paths\<close>

abbreviation iamConfigPrefix :: string where "iamConfigPrefix \<equiv> ''config/iam''"
abbreviation iamConfigUsersPrefix :: string where "iamConfigUsersPrefix \<equiv> ''config/iam/users/''"
abbreviation iamConfigGroupsPrefix :: string where "iamConfigGroupsPrefix \<equiv> ''config/iam/groups/''"
abbreviation iamConfigPoliciesPrefix :: string where "iamConfigPoliciesPrefix \<equiv> ''config/iam/policies/''"
abbreviation iamConfigSTSPrefix :: string where "iamConfigSTSPrefix \<equiv> ''config/iam/sts/''"
abbreviation iamConfigPolicyDBUsersPrefix :: string where "iamConfigPolicyDBUsersPrefix \<equiv> ''config/iam/policydb/users/''"
abbreviation iamConfigPolicyDBSTSUsersPrefix :: string where
  "iamConfigPolicyDBSTSUsersPrefix \<equiv> ''config/iam/policydb/sts-users/''"
abbreviation iamConfigPolicyDBGroupsPrefix :: string where "iamConfigPolicyDBGroupsPrefix \<equiv> ''config/iam/policydb/groups/''"

definition getIAMFormatFilePath :: string where
  "getIAMFormatFilePath = iamConfigPrefix @ SlashSeparator @ ''format.json''"

definition getUserIdentityPath :: "string \<Rightarrow> bool \<Rightarrow> string" where
  "getUserIdentityPath user isSTS =
     (let basePath = (if isSTS then iamConfigSTSPrefix else iamConfigUsersPrefix)
      in pathJoin [basePath, user, ''identity.json''])"

definition getGroupInfoPath :: "string \<Rightarrow> string" where
  "getGroupInfoPath g = pathJoin [iamConfigGroupsPrefix, g, ''members.json'']"

definition getPolicyDocPath :: "string \<Rightarrow> string" where
  "getPolicyDocPath name = pathJoin [iamConfigPoliciesPrefix, name, ''policy.json'']"

definition getMappedPolicyPath :: "string \<Rightarrow> bool \<Rightarrow> bool \<Rightarrow> string" where
  "getMappedPolicyPath name isSTS isGroup =
     (if isSTS then pathJoin [iamConfigPolicyDBSTSUsersPrefix, name @ ''.json'']
      else if isGroup then pathJoin [iamConfigPolicyDBGroupsPrefix, name @ ''.json'']
      else pathJoin [iamConfigPolicyDBUsersPrefix, name @ ''.json''])"

section \<open>Files\<close>

record iam_json =
  js_user :: "UserIdentity \<Rightarrow> bytes"
  js_group :: "GroupInfo \<Rightarrow> bytes"
  js_mapped :: "MappedPolicy \<Rightarrow> bytes"
  js_policy :: "iam_Policy \<Rightarrow> bytes"
  js_format :: "int \<Rightarrow> bytes"
  un_user :: "bytes \<Rightarrow> UserIdentity option"
  un_group :: "bytes \<Rightarrow> GroupInfo option"
  un_mapped :: "bytes \<Rightarrow> MappedPolicy option"
  un_policy :: "bytes \<Rightarrow> iam_raw_policy option"
  un_format :: "bytes \<Rightarrow> int option"
  un_string :: "bytes \<Rightarrow> string option"
  un_cred :: "bytes \<Rightarrow> Credentials option"
  json_encrypted :: bool
  json_encrypt :: "bytes \<Rightarrow> error + bytes"
  json_decrypt :: "bytes \<Rightarrow> error + bytes"

text \<open>What the store finds around it: the JSON functions, the files, the sets of strings, the time, and whether there
  is an object layer.\<close>

record 's store_env =
  se_json :: iam_json
  se_files :: "'s config_api"
  se_lib :: policy_lib
  se_now :: int
  se_objectAPI :: bool

definition saveIAMConfig :: "'s store_env \<Rightarrow> bytes \<Rightarrow> string \<Rightarrow> 's \<Rightarrow> error option \<times> 's" where
  "saveIAMConfig E data path s =
     (if json_encrypted (se_json E) then
        (case json_encrypt (se_json E) data of Inl e \<Rightarrow> (Some e, s) | Inr data \<Rightarrow> cf_save (se_files E) path data s)
      else cf_save (se_files E) path data s)"

text \<open>\<^verbatim>\<open>json.Unmarshal\<close> into a type without decoder of its own.\<close>

definition plain_json :: "(bytes \<Rightarrow> 'a option) \<Rightarrow> bytes \<Rightarrow> error + 'a" where
  "plain_json un data = (case un data of None \<Rightarrow> Inl (Lib ErrJson) | Some item \<Rightarrow> Inr item)"

definition loadIAMConfig :: "'s store_env \<Rightarrow> (bytes \<Rightarrow> error + 'a) \<Rightarrow> string \<Rightarrow> 's \<Rightarrow> (error + 'a) \<times> 's" where
  "loadIAMConfig E un path s =
     (case cf_read (se_files E) path s of
        (Inl e, s) \<Rightarrow> (Inl e, s)
      | (Inr data, s) \<Rightarrow>
          (case (if json_encrypted (se_json E) then json_decrypt (se_json E) data else Inr data) of
             Inl e \<Rightarrow> (Inl e, s)
           | Inr data \<Rightarrow> (un data, s)))"

definition deleteIAMConfig :: "'s store_env \<Rightarrow> string \<Rightarrow> 's \<Rightarrow> error option \<times> 's" where
  "deleteIAMConfig E path s =
     (case cf_delete (se_files E) path s of
        (Some e, s) \<Rightarrow> (Some (if isErrObjectNotFound e then Iam errConfigNotFound else e), s)
      | (None, s) \<Rightarrow> (None, s))"

text \<open>A missing file is an error of its own for each kind of file.\<close>

definition missing_as :: "iam_err \<Rightarrow> error \<Rightarrow> error" where
  "missing_as e err = (if err = Iam errConfigNotFound then Iam e else err)"

definition load_entry ::
  "'s store_env \<Rightarrow> (bytes \<Rightarrow> error + 'a) \<Rightarrow> iam_err \<Rightarrow> string \<Rightarrow> string \<Rightarrow> (string \<times> 'a) list \<Rightarrow> 's \<Rightarrow>
   (error option \<times> (string \<times> 'a) list) \<times> 's" where
  "load_entry E un missing path name m s =
     (if \<not> se_objectAPI E then ((Some not_initialized, m), s)
      else case loadIAMConfig E un path s of
          (Inl err, s) \<Rightarrow> ((Some (missing_as missing err), m), s)
        | (Inr v, s) \<Rightarrow> ((None, AList.update name v m), s))"

definition decode_policy_doc :: "'s store_env \<Rightarrow> bytes \<Rightarrow> error + iam_Policy" where
  "decode_policy_doc E data =
     (case plain_json (un_policy (se_json E)) data of Inl e \<Rightarrow> Inl e | Inr raw \<Rightarrow> iam_Policy_Unmarshal (se_lib E) raw)"

definition loadPolicyDoc :: "'s store_env \<Rightarrow> string \<Rightarrow> policy_docs \<Rightarrow> 's \<Rightarrow> (error option \<times> policy_docs) \<times> 's" where
  "loadPolicyDoc E policy m s = load_entry E (decode_policy_doc E) errNoSuchPolicy (getPolicyDocPath policy) policy m s"

definition loadGroup :: "'s store_env \<Rightarrow> string \<Rightarrow> groups_map \<Rightarrow> 's \<Rightarrow> (error option \<times> groups_map) \<times> 's" where
  "loadGroup E g m s = load_entry E (plain_json (un_group (se_json E))) errNoSuchGroup (getGroupInfoPath g) g m s"

definition loadMappedPolicy ::
  "'s store_env \<Rightarrow> string \<Rightarrow> bool \<Rightarrow> bool \<Rightarrow> mapped_policies \<Rightarrow> 's \<Rightarrow> (error option \<times> mapped_policies) \<times> 's" where
  "loadMappedPolicy E name isSTS isGroup m s =
     load_entry E (plain_json (un_mapped (se_json E))) errNoSuchPolicy (getMappedPolicyPath name isSTS isGroup) name m s"

definition loadUser :: "'s store_env \<Rightarrow> string \<Rightarrow> bool \<Rightarrow> users_map \<Rightarrow> 's \<Rightarrow> (error option \<times> users_map) \<times> 's" where
  "loadUser E user isSTS m s =
     (if \<not> se_objectAPI E then ((Some not_initialized, m), s)
      else case loadIAMConfig E (plain_json (un_user (se_json E))) (getUserIdentityPath user isSTS) s of
          (Inl err, s) \<Rightarrow> ((Some (missing_as errNoSuchUser err), m), s)
        | (Inr u, s) \<Rightarrow>
            if IsExpired (se_now E) (ui_Credentials u) then
              (let s = snd (deleteIAMConfig E (getUserIdentityPath user isSTS) s);
                   s = snd (deleteIAMConfig E (getMappedPolicyPath user isSTS False) s)
               in ((None, m), s))
            else (let cred = ui_Credentials u;
                      cred = (if cr_AccessKey cred = [] then cred\<lparr>cr_AccessKey := user\<rparr> else cred)
                  in ((None, AList.update user cred m), s)))"

definition savePolicyDoc :: "'s store_env \<Rightarrow> string \<Rightarrow> iam_Policy \<Rightarrow> 's \<Rightarrow> error option \<times> 's" where
  "savePolicyDoc E policyName p s =
     (case Policy_Marshal (se_lib E) p of
        Inl e \<Rightarrow> (Some e, s)
      | Inr p \<Rightarrow> saveIAMConfig E (js_policy (se_json E) p) (getPolicyDocPath policyName) s)"

definition saveMappedPolicy :: "'s store_env \<Rightarrow> string \<Rightarrow> bool \<Rightarrow> bool \<Rightarrow> MappedPolicy \<Rightarrow> 's \<Rightarrow> error option \<times> 's" where
  "saveMappedPolicy E name isSTS isGroup mp s =
     saveIAMConfig E (js_mapped (se_json E) mp) (getMappedPolicyPath name isSTS isGroup) s"

definition saveUserIdentity :: "'s store_env \<Rightarrow> string \<Rightarrow> bool \<Rightarrow> UserIdentity \<Rightarrow> 's \<Rightarrow> error option \<times> 's" where
  "saveUserIdentity E name isSTS u s = saveIAMConfig E (js_user (se_json E) u) (getUserIdentityPath name isSTS) s"

definition saveGroupInfo :: "'s store_env \<Rightarrow> string \<Rightarrow> GroupInfo \<Rightarrow> 's \<Rightarrow> error option \<times> 's" where
  "saveGroupInfo E name gi s = saveIAMConfig E (js_group (se_json E) gi) (getGroupInfoPath name) s"

definition delete_entry :: "'s store_env \<Rightarrow> iam_err \<Rightarrow> string \<Rightarrow> 's \<Rightarrow> error option \<times> 's" where
  "delete_entry E missing path s =
     (case deleteIAMConfig E path s of (err, s) \<Rightarrow> (map_option (missing_as missing) err, s))"

definition deletePolicyDoc :: "'s store_env \<Rightarrow> string \<Rightarrow> 's \<Rightarrow> error option \<times> 's" where
  "deletePolicyDoc E name s = delete_entry E errNoSuchPolicy (getPolicyDocPath name) s"

definition deleteMappedPolicy :: "'s store_env \<Rightarrow> string \<Rightarrow> bool \<Rightarrow> bool \<Rightarrow> 's \<Rightarrow> error option \<times> 's" where
  "deleteMappedPolicy E name isSTS isGroup s = delete_entry E errNoSuchPolicy (getMappedPolicyPath name isSTS isGroup) s"

definition deleteUserIdentity :: "'s store_env \<Rightarrow> string \<Rightarrow> bool \<Rightarrow> 's \<Rightarrow> error option \<times> 's" where
  "deleteUserIdentity E name isSTS s = delete_entry E errNoSuchUser (getUserIdentityPath name isSTS) s"

definition deleteGroupInfo :: "'s store_env \<Rightarrow> string \<Rightarrow> 's \<Rightarrow> error option \<times> 's" where
  "deleteGroupInfo E name s = delete_entry E errNoSuchGroup (getGroupInfoPath name) s"

definition objectStoreAPI :: "'s store_env \<Rightarrow> 's IAMStorageAPI" where
  "objectStoreAPI E =
     \<lparr>st_loadPolicyDoc = loadPolicyDoc E, st_loadUser = loadUser E, st_loadGroup = loadGroup E,
      st_loadMappedPolicy = loadMappedPolicy E, st_savePolicyDoc = savePolicyDoc E, st_saveMappedPolicy = saveMappedPolicy E,
      st_saveUserIdentity = saveUserIdentity E, st_saveGroupInfo = saveGroupInfo E, st_deletePolicyDoc = deletePolicyDoc E,
      st_deleteMappedPolicy = deleteMappedPolicy E, st_deleteUserIdentity = deleteUserIdentity E,
      st_deleteGroupInfo = deleteGroupInfo E\<rparr>"

section \<open>Loading everything\<close>

text \<open>The names under a prefix, page after page, each handed to the body of the loop; the first error ends it, and
  \<open>None\<close> means that the fuel for the pages ran out.\<close>

definition page_items :: "string \<Rightarrow> bool \<Rightarrow> ListObjectsInfo \<Rightarrow> string list" where
  "page_items pathPrefix dirs lo =
     map (\<lambda>item. strings_TrimSuffix (strings_TrimPrefix item pathPrefix) SlashSeparator)
       (if dirs then lo_Prefixes lo else map oi_Name (lo_Objects lo))"

fun each_item :: "(string \<Rightarrow> 'm \<Rightarrow> 's \<Rightarrow> (error option \<times> 'm) \<times> 's) \<Rightarrow> string list \<Rightarrow> 'm \<Rightarrow> 's \<Rightarrow> (error option \<times> 'm) \<times> 's" where
  "each_item body [] m s = ((None, m), s)"
| "each_item body (item # items) m s =
     (case body item m s of
        ((Some e, m), s) \<Rightarrow> ((Some e, m), s)
      | ((None, m), s) \<Rightarrow> each_item body items m s)"

fun listIAMConfigItems ::
  "nat \<Rightarrow> 's config_api \<Rightarrow> (string \<Rightarrow> 'm \<Rightarrow> 's \<Rightarrow> (error option \<times> 'm) \<times> 's) \<Rightarrow> string \<Rightarrow> bool \<Rightarrow> string \<Rightarrow> 'm \<Rightarrow> 's \<Rightarrow>
   (error option \<times> 'm) option \<times> 's" where
  "listIAMConfigItems 0 C body pathPrefix dirs marker m s = (None, s)"
| "listIAMConfigItems (Suc n) C body pathPrefix dirs marker m s =
     (case cf_list C pathPrefix marker s of
        (None, s) \<Rightarrow> (None, s)
      | (Some (Inl e), s) \<Rightarrow> (Some (Some e, m), s)
      | (Some (Inr lo), s) \<Rightarrow>
          (case each_item body (page_items pathPrefix dirs lo) m s of
             ((Some e, m), s) \<Rightarrow> (Some (Some e, m), s)
           | ((None, m), s) \<Rightarrow>
               if \<not> lo_IsTruncated lo then (Some (None, m), s)
               else listIAMConfigItems n C body pathPrefix dirs (lo_NextMarker lo) m s))"

record iam_maps =
  lm_docs :: policy_docs
  lm_users :: users_map
  lm_groups :: groups_map
  lm_userpol :: mapped_policies
  lm_grouppol :: mapped_policies

type_synonym 's load_stage = "iam_maps \<Rightarrow> 's \<Rightarrow> (error option \<times> iam_maps) option \<times> 's"

definition load_loop ::
  "nat \<Rightarrow> 's store_env \<Rightarrow> string \<Rightarrow> bool \<Rightarrow> (iam_maps \<Rightarrow> 'm) \<Rightarrow> ('m \<Rightarrow> iam_maps \<Rightarrow> iam_maps) \<Rightarrow>
   (string \<Rightarrow> 'm \<Rightarrow> 's \<Rightarrow> (error option \<times> 'm) \<times> 's) \<Rightarrow> 's load_stage" where
  "load_loop fuel E pathPrefix dirs field upd body maps s =
     (if \<not> se_objectAPI E then (Some (Some not_initialized, maps), s)
      else case listIAMConfigItems fuel (se_files E) body pathPrefix dirs [] (field maps) s of
          (None, s) \<Rightarrow> (None, s)
        | (Some (err, m), s) \<Rightarrow> (Some (err, upd m maps), s))"

definition loadPolicyDocs :: "nat \<Rightarrow> 's store_env \<Rightarrow> 's load_stage" where
  "loadPolicyDocs fuel E =
     load_loop fuel E iamConfigPoliciesPrefix True lm_docs (\<lambda>m. lm_docs_update (\<lambda>_. m)) (loadPolicyDoc E)"

definition loadUsers :: "nat \<Rightarrow> 's store_env \<Rightarrow> bool \<Rightarrow> 's load_stage" where
  "loadUsers fuel E isSTS =
     load_loop fuel E (if isSTS then iamConfigSTSPrefix else iamConfigUsersPrefix) True lm_users
       (\<lambda>m. lm_users_update (\<lambda>_. m)) (\<lambda>userName. loadUser E userName isSTS)"

definition loadGroups :: "nat \<Rightarrow> 's store_env \<Rightarrow> 's load_stage" where
  "loadGroups fuel E =
     load_loop fuel E iamConfigGroupsPrefix True lm_groups (\<lambda>m. lm_groups_update (\<lambda>_. m)) (loadGroup E)"

definition loadMappedPolicies :: "nat \<Rightarrow> 's store_env \<Rightarrow> bool \<Rightarrow> bool \<Rightarrow> 's load_stage" where
  "loadMappedPolicies fuel E isSTS isGroup =
     (let basePath = (if isSTS then iamConfigPolicyDBSTSUsersPrefix
                      else if isGroup then iamConfigPolicyDBGroupsPrefix else iamConfigPolicyDBUsersPrefix);
          body = (\<lambda>policyFile. loadMappedPolicy E (strings_TrimSuffix policyFile ''.json'') isSTS isGroup)
      in if isGroup then load_loop fuel E basePath False lm_grouppol (\<lambda>m. lm_grouppol_update (\<lambda>_. m)) body
         else load_loop fuel E basePath False lm_userpol (\<lambda>m. lm_userpol_update (\<lambda>_. m)) body)"

fun load_stages :: "'s load_stage list \<Rightarrow> 's load_stage" where
  "load_stages [] maps s = (Some (None, maps), s)"
| "load_stages (f # fs) maps s =
     (case f maps s of
        (None, s) \<Rightarrow> (None, s)
      | (Some (Some e, maps), s) \<Rightarrow> (Some (Some e, maps), s)
      | (Some (None, maps), s) \<Rightarrow> load_stages fs maps s)"

definition all_stages :: "nat \<Rightarrow> 's store_env \<Rightarrow> bool \<Rightarrow> 's load_stage list" where
  "all_stages fuel E isMinIOUsersSys =
     [loadPolicyDocs fuel E, loadUsers fuel E True] @
     (if isMinIOUsersSys then [loadUsers fuel E False, loadGroups fuel E, loadMappedPolicies fuel E False False] else []) @
     [loadMappedPolicies fuel E True False, loadMappedPolicies fuel E False True]"

definition install :: "policy_lib \<Rightarrow> iam_maps \<Rightarrow> IAMSys \<Rightarrow> IAMSys" where
  "install L maps sys =
     (let sys = sys\<lparr>iamUsersMap := lm_users maps, iamPolicyDocsMap := setDefaultCannedPolicies (lm_docs maps),
                    iamUserPolicyMap := lm_userpol maps, iamGroupPolicyMap := Some (lm_grouppol maps),
                    iamGroupsMap := lm_groups maps\<rparr>
      in sys\<lparr>iamUserGroupMemberships := buildUserGroupMemberships L sys\<rparr>)"

definition loadAll :: "nat \<Rightarrow> 's store_env \<Rightarrow> 's iam_state \<Rightarrow> error option option \<times> 's iam_state" where
  "loadAll fuel E = (\<lambda>(sys, s).
     if \<not> se_objectAPI E then (Some (Some not_initialized), sys, s)
     else (case load_stages (all_stages fuel E (usersSysType sys = MinIOUsersSysType))
                  \<lparr>lm_docs = [], lm_users = [], lm_groups = [], lm_userpol = [], lm_grouppol = []\<rparr> s of
         (None, s) \<Rightarrow> (None, sys, s)
       | (Some (Some e, maps), s) \<Rightarrow> (Some (Some e), sys, s)
       | (Some (None, maps), s) \<Rightarrow> (Some None, install (se_lib E) maps sys, s)))"

section \<open>Migration and start\<close>

definition zeroCred :: Credentials where
  "zeroCred = \<lparr>cr_AccessKey = [], cr_SecretKey = [], cr_Expiration = zeroTime, cr_SessionToken = [], cr_Status = []\<rparr>"

definition migrate_policy :: "'s store_env \<Rightarrow> bool \<Rightarrow> string \<Rightarrow> string \<Rightarrow> 's \<Rightarrow> error option \<times> 's" where
  "migrate_policy E isSTS basePrefix user s =
     (let oldPolicyPath = pathJoin [basePrefix, user, ''policy.json'']
      in case loadIAMConfig E (plain_json (un_string (se_json E))) oldPolicyPath s of
           (Inl _, s) \<Rightarrow> (None, s)
         | (Inr policyName, s) \<Rightarrow>
             (case saveMappedPolicy E user isSTS False (newMappedPolicy policyName) s of
                (Some e, s) \<Rightarrow> (Some e, s)
              | (None, s) \<Rightarrow> (None, snd (deleteIAMConfig E oldPolicyPath s))))"

definition migrate_identity :: "'s store_env \<Rightarrow> string \<Rightarrow> string \<Rightarrow> 's \<Rightarrow> error option \<times> 's" where
  "migrate_identity E basePrefix user s =
     (let identityPath = pathJoin [basePrefix, user, ''identity.json'']
      in case loadIAMConfig E (plain_json (un_cred (se_json E))) identityPath s of
           (Inl _, s) \<Rightarrow> (None, s)
         | (Inr cred, s) \<Rightarrow>
             if cred = zeroCred then (None, s)
             else saveIAMConfig E (js_user (se_json E) (newUserIdentity (cred\<lparr>cr_AccessKey := user\<rparr>))) identityPath s)"

definition migrate_user :: "'s store_env \<Rightarrow> bool \<Rightarrow> string \<Rightarrow> string \<Rightarrow> unit \<Rightarrow> 's \<Rightarrow> (error option \<times> unit) \<times> 's" where
  "migrate_user E isSTS basePrefix user m s =
     (case migrate_policy E isSTS basePrefix user s of
        (Some e, s) \<Rightarrow> ((Some e, ()), s)
      | (None, s) \<Rightarrow> (case migrate_identity E basePrefix user s of (err, s) \<Rightarrow> ((err, ()), s)))"

definition migrateUsersConfigToV1 :: "nat \<Rightarrow> 's store_env \<Rightarrow> bool \<Rightarrow> 's \<Rightarrow> (error option \<times> unit) option \<times> 's" where
  "migrateUsersConfigToV1 fuel E isSTS s =
     (let basePrefix = (if isSTS then iamConfigSTSPrefix else iamConfigUsersPrefix)
      in listIAMConfigItems fuel (se_files E) (migrate_user E isSTS basePrefix) basePrefix True [] () s)"

definition migrateToV1 :: "nat \<Rightarrow> 's store_env \<Rightarrow> 's \<Rightarrow> error option option \<times> 's" where
  "migrateToV1 fuel E s =
     (case loadIAMConfig E (plain_json (un_format (se_json E))) getIAMFormatFilePath s of
        (Inr version, s) \<Rightarrow>
          (Some (if version \<ge> 1 then None else Some (Lib (ErrOther ''got an invalid IAM format version''))), s)
      | (Inl err, s) \<Rightarrow>
          if err \<noteq> Iam errConfigNotFound then (Some (Some err), s)
          else (case migrateUsersConfigToV1 fuel E False s of
              (None, s) \<Rightarrow> (None, s)
            | (Some (Some e, _), s) \<Rightarrow> (Some (Some e), s)
            | (Some (None, _), s) \<Rightarrow>
                (case migrateUsersConfigToV1 fuel E True s of
                   (None, s) \<Rightarrow> (None, s)
                 | (Some (Some e, _), s) \<Rightarrow> (Some (Some e), s)
                 | (Some (None, _), s) \<Rightarrow>
                     (case saveIAMConfig E (js_format (se_json E) 1) getIAMFormatFilePath s of (err, s) \<Rightarrow> (Some err, s)))))"

text \<open>\<^verbatim>\<open>Init\<close> without etcd. The refresh that \<^verbatim>\<open>watch\<close> starts is \<open>loadAll\<close> again, from time to time.\<close>

definition IAMSys_Init :: "nat \<Rightarrow> 's store_env \<Rightarrow> 's iam_state \<Rightarrow> error option option \<times> 's iam_state" where
  "IAMSys_Init fuel E = (\<lambda>(sys, s).
     if \<not> se_objectAPI E then (Some (Some not_initialized), sys, s)
     else (let sys = sys\<lparr>has_store := True\<rparr>
           in case migrateToV1 fuel E s of
                (None, s) \<Rightarrow> (None, sys, s)
              | (Some (Some e), s) \<Rightarrow> (Some (Some e), sys, s)
              | (Some None, s) \<Rightarrow> loadAll fuel E (sys, s)))"

section \<open>Paths of plain names\<close>

lemma Split_component: "plain_component c \<Longrightarrow> strings_Split (c @ CHR ''/'' # s) CHR ''/'' = c # strings_Split s CHR ''/''"
  by (simp add: plain_component_def Split_append_sep)

lemma clean_component: "plain_component c \<Longrightarrow> clean_step rooted st (c # cs) = clean_step rooted (c # st) cs"
  by (simp add: plain_component_def)

lemma plain_json_name: "CHR ''/'' \<notin> set n \<Longrightarrow> plain_component (n @ ''.json'')"
  by (simp add: plain_component_def)

lemma plain_no_slash: "plain_component n \<Longrightarrow> CHR ''/'' \<notin> set n"
  by (simp add: plain_component_def)

lemmas path_eval = pathJoin_def path_Join_def path_Clean_def Let_def HasSuffix_def strings_HasSuffix_def plain_component_def Split_component clean_component

lemma plain_paths:
  assumes "plain_component n"
  shows "getUserIdentityPath n sts = (if sts then ''config/iam/sts/'' else ''config/iam/users/'') @ n @ ''/identity.json''"
    "getGroupInfoPath n = ''config/iam/groups/'' @ n @ ''/members.json''"
    "getPolicyDocPath n = ''config/iam/policies/'' @ n @ ''/policy.json''"
    "getMappedPolicyPath n sts grp =
      (if sts then ''config/iam/policydb/sts-users/'' else if grp then ''config/iam/policydb/groups/''
       else ''config/iam/policydb/users/'') @ n @ ''.json''"
  using assms Split_no_sep [OF plain_no_slash [OF plain_json_name [OF plain_no_slash [OF assms]]]]
    clean_component [OF plain_json_name [OF plain_no_slash [OF assms]]]
  by (simp_all add: getUserIdentityPath_def getGroupInfoPath_def getPolicyDocPath_def getMappedPolicyPath_def path_eval)

section \<open>The system on the store\<close>

definition on_store :: "'s store_env \<Rightarrow> 's iam_env \<Rightarrow> 's iam_env" where
  "on_store SE E = E\<lparr>ie_api := objectStoreAPI SE, ie_lib := se_lib SE\<rparr>"

lemma on_store_simps [simp]:
  "ie_api (on_store SE E) = objectStoreAPI SE" "ie_lib (on_store SE E) = se_lib SE"
  "ie_objectAPI (on_store SE E) = ie_objectAPI E" "ie_etcd (on_store SE E) = ie_etcd E"
  "ie_OPA (on_store SE E) = ie_OPA E" "ie_now (on_store SE E) = ie_now E"
  by (simp_all add: on_store_def)

lemma api_simps [simp]:
  "st_loadPolicyDoc (objectStoreAPI SE) = loadPolicyDoc SE" "st_loadUser (objectStoreAPI SE) = loadUser SE"
  "st_loadGroup (objectStoreAPI SE) = loadGroup SE" "st_loadMappedPolicy (objectStoreAPI SE) = loadMappedPolicy SE"
  "st_savePolicyDoc (objectStoreAPI SE) = savePolicyDoc SE" "st_saveMappedPolicy (objectStoreAPI SE) = saveMappedPolicy SE"
  "st_saveUserIdentity (objectStoreAPI SE) = saveUserIdentity SE" "st_saveGroupInfo (objectStoreAPI SE) = saveGroupInfo SE"
  "st_deletePolicyDoc (objectStoreAPI SE) = deletePolicyDoc SE" "st_deleteMappedPolicy (objectStoreAPI SE) = deleteMappedPolicy SE"
  "st_deleteUserIdentity (objectStoreAPI SE) = deleteUserIdentity SE" "st_deleteGroupInfo (objectStoreAPI SE) = deleteGroupInfo SE"
  by (simp_all add: objectStoreAPI_def)

lemma load_entry_cases:
  assumes "load_entry E un missing path name m s = ((err, m'), s')"
  shows "(err = None \<and> (\<exists>v. m' = AList.update name v m)) \<or> (err \<noteq> None \<and> m' = m)"
  using assms by (auto simp: load_entry_def split: if_splits prod.splits sum.splits)

lemma store_storage: "string_sets (se_lib SE) \<Longrightarrow> iam_storage (on_store SE E)"
  unfolding iam_storage_def iam_storage_axioms_def
  by (auto simp: loadGroup_def update_conv' dest!: load_entry_cases)

interpretation stored: iam_storage "on_store (SE\<lparr>se_lib := list_lib\<rparr>) E" for SE E
  by (rule store_storage) (simp add: lists.string_sets_axioms)

section \<open>Loading everything\<close>

lemma each_item_distinct:
  assumes "\<And>item m s. distinct (map fst m) \<Longrightarrow> distinct (map fst (snd (fst (body item m s))))" "distinct (map fst m)"
  shows "distinct (map fst (snd (fst (each_item body items m s))))"
  using assms(2)
proof (induction items arbitrary: m s)
  case (Cons item items)
  have "distinct (map fst (snd (fst (body item m s))))" by (rule assms(1) [OF Cons.prems])
  then show ?case using Cons.IH by (auto split: prod.splits option.splits)
qed simp

lemma listIAMConfigItems_distinct:
  assumes "\<And>item m s. distinct (map fst m) \<Longrightarrow> distinct (map fst (snd (fst (body item m s))))" "distinct (map fst m)"
    "listIAMConfigItems n C body pre dirs marker m s = (Some (err, m'), s')"
  shows "distinct (map fst m')"
  using assms(2,3)
proof (induction n arbitrary: marker m s)
  case (Suc n)
  obtain lo s1 where l: "cf_list C pre marker s = (Some lo, s1)"
    using Suc.prems(2) by (auto split: prod.splits option.splits)
  show ?case
  proof (cases lo)
    case (Inr info)
    obtain e m1 s2 where "each_item body (page_items pre dirs info) m s1 = ((e, m1), s2)" by (metis prod.exhaust)
    moreover from this have "distinct (map fst m1)"
      using each_item_distinct [of body m "page_items pre dirs info" s1] assms(1) Suc.prems(1) by simp
    ultimately show ?thesis using Suc l Inr by (auto split: option.splits if_splits)
  qed (use Suc.prems l in simp)
qed simp

lemma loadGroup_distinct: "distinct (map fst m) \<Longrightarrow> distinct (map fst (snd (fst (loadGroup E g m s))))"
  by (auto simp: loadGroup_def load_entry_def distinct_update split: prod.splits sum.splits)

lemma load_loop_groups:
  assumes "load_loop fuel E pre dirs field (\<lambda>m. upd (\<lambda>_. m)) body maps s = (Some (err, maps'), s')"
    "\<And>m. lm_groups (upd (\<lambda>_. m) maps) = lm_groups maps"
  shows "lm_groups maps' = lm_groups maps"
  using assms by (auto simp: load_loop_def split: if_splits prod.splits option.splits)

definition groups_distinct :: "iam_maps \<Rightarrow> bool" where
  "groups_distinct maps = distinct (map fst (lm_groups maps))"

lemma stage_distinct:
  assumes "f \<in> set (all_stages fuel E ldap)" "groups_distinct maps" "f maps s = (Some (err, maps'), s')"
  shows "groups_distinct maps'"
proof -
  have "f = loadGroups fuel E \<or> lm_groups maps' = lm_groups maps"
    using assms(1,3) by (auto simp: all_stages_def loadPolicyDocs_def loadUsers_def loadMappedPolicies_def Let_def
      split: if_splits dest!: load_loop_groups)
  moreover have "groups_distinct maps'" if "f = loadGroups fuel E"
    using assms(2,3) that listIAMConfigItems_distinct [where m = "lm_groups maps", OF loadGroup_distinct]
    by (auto simp: loadGroups_def load_loop_def groups_distinct_def split: if_splits prod.splits option.splits)
  ultimately show ?thesis using assms(2) by (auto simp: groups_distinct_def)
qed

lemma load_stages_distinct:
  assumes "set fs \<subseteq> set (all_stages fuel E ldap)" "groups_distinct maps" "load_stages fs maps s = (Some (err, maps'), s')"
  shows "groups_distinct maps'"
  using assms
proof (induction fs arbitrary: maps s)
  case (Cons f fs)
  obtain r s1 where f: "f maps s = (r, s1)" by fastforce
  obtain e maps1 where r: "r = Some (e, maps1)" using Cons.prems(3) f by (cases r) auto
  have "groups_distinct maps1" using stage_distinct [of f fuel E ldap maps s e maps1 s1] Cons.prems f r by simp
  then show ?case using Cons f r by (cases e) auto
qed simp

lemma load_stages_distinct':
  "load_stages (all_stages fuel E mio) \<lparr>lm_docs = [], lm_users = [], lm_groups = [], lm_userpol = [], lm_grouppol = []\<rparr> s =
     (Some (err, maps), s') \<Longrightarrow> distinct (map fst (lm_groups maps))"
  by (drule load_stages_distinct [OF subset_refl, unfolded groups_distinct_def, rotated]) simp_all

context iam_storage
begin

lemma in_group_build:
  assumes "distinct (map fst gs)"
  shows "in_group (fold (\<lambda>(g, gi). updateGroupMembershipsMap lib g gi) gs m) u h \<longleftrightarrow> in_group m u h \<or> member_of gs u h"
  using assms
proof (induction gs arbitrary: m)
  case (Cons x gs)
  obtain g gi where x: "x = (g, gi)" by fastforce
  have "\<not> member_of gs u g" using Cons.prems x by (auto simp: member_of_def dest!: map_of_SomeD) force
  then show ?case
    using Cons x by (auto simp: updateGroupMembershipsMap_def in_group_add_all member_of_def)
qed (simp add: member_of_def)

lemma loadAll_memberships:
  assumes "loadAll fuel SE (sys, s) = (Some None, sys', s')" "lib = se_lib SE"
  shows "in_group (iamUserGroupMemberships sys') u g \<longleftrightarrow>
    in_group (iamUserGroupMemberships sys) u g \<or> member_of (iamGroupsMap sys') u g"
proof -
  obtain maps where m: "load_stages (all_stages fuel SE (usersSysType sys = MinIOUsersSysType))
      \<lparr>lm_docs = [], lm_users = [], lm_groups = [], lm_userpol = [], lm_grouppol = []\<rparr> s = (Some (None, maps), s')"
    "sys' = install (se_lib SE) maps sys"
    using assms(1) by (auto simp: loadAll_def split: if_splits prod.splits option.splits)
  show ?thesis
    using in_group_build [OF load_stages_distinct' [OF m(1)]]
    by (simp add: m(2) install_def buildUserGroupMemberships_def assms(2))
qed

end

lemma loadAll_failed: "loadAll fuel SE (sys, s) = (Some (Some e), sys', s') \<Longrightarrow> sys' = sys"
  by (auto simp: loadAll_def split: if_splits prod.splits option.splits)

section \<open>Memory and files\<close>

text \<open>The files of the store, and what each holds when it agrees with the memory. Policies are left out: the canned
  ones are in memory only.\<close>

datatype iam_file = UserFile string | GroupFile string | UserMapping string | GroupMapping string | PolicyFile string

primrec file_name :: "iam_file \<Rightarrow> string" where
  "file_name (UserFile n) = n"
| "file_name (GroupFile n) = n"
| "file_name (UserMapping n) = n"
| "file_name (GroupMapping n) = n"
| "file_name (PolicyFile n) = n"

primrec file_path :: "iam_file \<Rightarrow> string" where
  "file_path (UserFile n) = getUserIdentityPath n False"
| "file_path (GroupFile n) = getGroupInfoPath n"
| "file_path (UserMapping n) = getMappedPolicyPath n False False"
| "file_path (GroupMapping n) = getMappedPolicyPath n False True"
| "file_path (PolicyFile n) = getPolicyDocPath n"

primrec expected :: "iam_json \<Rightarrow> IAMSys \<Rightarrow> iam_file \<Rightarrow> bytes option option" where
  "expected J sys (UserFile n) = Some (map_option (\<lambda>c. js_user J (newUserIdentity c)) (map_of (iamUsersMap sys) n))"
| "expected J sys (GroupFile n) = Some (map_option (js_group J) (map_of (iamGroupsMap sys) n))"
| "expected J sys (UserMapping n) = Some (map_option (js_mapped J) (map_of (iamUserPolicyMap sys) n))"
| "expected J sys (GroupMapping n) = Some (map_option (js_mapped J) (map_of (group_policies sys) n))"
| "expected J sys (PolicyFile n) = None"

definition agrees :: "iam_json \<Rightarrow> (string \<Rightarrow> bool) \<Rightarrow> (string \<rightharpoonup> bytes) \<Rightarrow> IAMSys \<Rightarrow> bool" where
  "agrees J name f sys \<longleftrightarrow>
     (\<forall>k d. name (file_name k) \<longrightarrow> expected J sys k = Some d \<longrightarrow> f (file_path k) = d)"

definition lasting :: "(string \<Rightarrow> bool) \<Rightarrow> IAMSys \<Rightarrow> bool" where
  "lasting name sys \<longleftrightarrow>
     (\<forall>u c. map_of (iamUsersMap sys) u = Some c \<longrightarrow> \<not> IsTemp c \<and> cr_AccessKey c = u \<and> cr_Expiration c = zeroTime) \<and>
     (\<forall>u. map_of (iamUserPolicyMap sys) u \<noteq> None \<longrightarrow> name u) \<and>
     (\<forall>g. map_of (group_policies sys) g \<noteq> None \<longrightarrow> name g) \<and>
     (\<forall>g. map_of (iamGroupsMap sys) g \<noteq> None \<longrightarrow> name g) \<and> iamGroupPolicyMap sys \<noteq> None"

definition mirrored_state ::
  "iam_json \<Rightarrow> (string \<Rightarrow> bool) \<Rightarrow> ('s \<Rightarrow> bool) \<Rightarrow> ('s \<Rightarrow> string \<rightharpoonup> bytes) \<Rightarrow> IAMSys \<Rightarrow> 's \<Rightarrow> bool" where
  "mirrored_state J name good files sys s \<longleftrightarrow> good s \<and> agrees J name (files s) sys \<and> lasting name sys"

lemma file_path_inj:
  assumes "plain_component (file_name a)" "plain_component (file_name b)"
  shows "file_path a = file_path b \<longleftrightarrow> a = b"
  by (cases a; cases b) (use assms in \<open>simp_all add: plain_paths\<close>)

locale iam_store = config_files "se_files SE" good files usable small
  for SE :: "'s store_env" and good :: "'s \<Rightarrow> bool" and files :: "'s \<Rightarrow> string \<rightharpoonup> bytes" and usable small +
  fixes name :: "string \<Rightarrow> bool"
  assumes names: "name (file_name k) \<Longrightarrow> plain_component (file_name k) \<and> usable (file_path k)"
    and store_ready: "se_objectAPI SE" "\<not> json_encrypted (se_json SE)"
    and json_not_Nil: "js_user (se_json SE) ui \<noteq> []" "js_group (se_json SE) gi \<noteq> []" "js_mapped (se_json SE) mp \<noteq> []"
      "js_policy (se_json SE) p \<noteq> []"
begin

abbreviation "J \<equiv> se_json SE"

abbreviation "mirrored \<equiv> mirrored_state J name good files"

lemma path_eq: "name (file_name a) \<Longrightarrow> name (file_name b) \<Longrightarrow> file_path a = file_path b \<longleftrightarrow> a = b"
  using file_path_inj names by blast

lemma save_file:
  assumes "good s" "name (file_name k)" "d \<noteq> []"
  shows "\<exists>e s'. saveIAMConfig SE d (file_path k) s = (e, s') \<and> good s' \<and>
    files s' = (if e = None then (files s)(file_path k \<mapsto> d) else files s)"
  using save [OF assms(1) _ assms(3)] names [OF assms(2)] store_ready by (fastforce simp: saveIAMConfig_def)

lemma delete_file:
  assumes "good s" "name (file_name k)"
  shows "\<exists>s'. delete_entry SE missing (file_path k) s =
      (if files s (file_path k) = None then Some (Storage errFileNotFound) else None, s') \<and>
    good s' \<and> files s' = (files s)(file_path k := None)"
proof (cases "files s (file_path k)")
  case None
  then show ?thesis using delete_missing [OF assms(1) _ None] names [OF assms(2)]
    by (auto simp: delete_entry_def deleteIAMConfig_def isErrObjectNotFound_def missing_as_def fun_upd_idem)
next
  case (Some d)
  then show ?thesis using delete_present [OF assms(1) _ Some] names [OF assms(2)]
    by (auto simp: delete_entry_def deleteIAMConfig_def)
qed

text \<open>The file of \<open>k\<close> becomes what the memory has for it, and everything else stays.\<close>

lemma agrees_upd:
  assumes "agrees J name f sys" "name (file_name k)" "expected J sys' k = Some d"
    "\<And>j. j \<noteq> k \<Longrightarrow> expected J sys' j = expected J sys j"
  shows "agrees J name (f(file_path k := d)) sys'"
  unfolding agrees_def
proof (intro allI impI)
  fix j x assume j: "name (file_name j)" "expected J sys' j = Some x"
  show "(f(file_path k := d)) (file_path j) = x"
  proof (cases "j = k")
    case False
    then show ?thesis using j assms path_eq [of j k] by (auto simp: agrees_def)
  qed (use j assms(3) in simp)
qed

lemma agrees_policy: "agrees J name f sys \<Longrightarrow> name n \<Longrightarrow> agrees J name (f(getPolicyDocPath n := d)) sys"
  unfolding agrees_def
proof (intro allI impI)
  fix j x assume a: "\<forall>k d. name (file_name k) \<longrightarrow> expected J sys k = Some d \<longrightarrow> f (file_path k) = d" "name n"
    and j: "name (file_name j)" "expected J sys j = Some x"
  have "file_path j \<noteq> file_path (PolicyFile n)" using path_eq [of j "PolicyFile n"] a j by auto
  then show "(f(getPolicyDocPath n := d)) (file_path j) = x" using a j by simp
qed

lemma mirrored_save:
  assumes "mirrored sys s" "name (file_name k)" "d \<noteq> []" "saveIAMConfig SE d (file_path k) s = (e, s')"
    "expected J sys' k = Some (Some d)" "\<And>j. j \<noteq> k \<Longrightarrow> expected J sys' j = expected J sys j" "lasting name sys'"
  shows "mirrored (if e = None then sys' else sys) s'"
proof -
  have "good s'" "files s' = (if e = None then (files s)(file_path k \<mapsto> d) else files s)"
    using save_file [of s k d] assms(1-4) by (auto simp: mirrored_state_def)
  then show ?thesis using assms(1,7) agrees_upd [OF _ assms(2,5,6)] by (auto simp: mirrored_state_def)
qed

lemma mirrored_delete:
  assumes "mirrored sys s" "name (file_name k)" "delete_entry SE missing (file_path k) s = (e, s')"
    "expected J sys' k = Some None" "\<And>j. j \<noteq> k \<Longrightarrow> expected J sys' j = expected J sys j" "lasting name sys'"
  shows "mirrored sys' s'" "e \<noteq> None \<Longrightarrow> mirrored sys s'"
proof -
  have d: "good s'" "files s' = (files s)(file_path k := None)"
    "e = (if files s (file_path k) = None then Some (Storage errFileNotFound) else None)"
    using delete_file [of s k missing] assms(1-3) by (auto simp: mirrored_state_def)
  show "mirrored sys' s'" using assms(1,6) d agrees_upd [OF _ assms(2,4,5)] by (auto simp: mirrored_state_def)
  show "e \<noteq> None \<Longrightarrow> mirrored sys s'" using assms(1) d by (auto simp: mirrored_state_def fun_upd_idem split: if_splits)
qed

end

definition mapping_file :: "bool \<Rightarrow> string \<Rightarrow> iam_file" where
  "mapping_file grp n = (if grp then GroupMapping n else UserMapping n)"

lemma mapping_file_simps [simp]:
  "file_name (mapping_file grp n) = n" "getMappedPolicyPath n False grp = file_path (mapping_file grp n)"
  by (simp_all add: mapping_file_def)

lemma expected_drop:
  "expected J (drop_mapping grp n sys) j = (if j = mapping_file grp n then Some None else expected J sys j)"
  by (cases j) (auto simp: drop_mapping_def mapping_file_def group_policies_def delete_conv' split: option.split)

lemma lasting_drop: "lasting name sys \<Longrightarrow> lasting name (drop_mapping grp n sys)"
  by (auto simp: lasting_def drop_mapping_def group_policies_def delete_conv' split: option.splits if_splits)

lemma expected_docs [simp]: "expected J (sys\<lparr>iamPolicyDocsMap := m\<rparr>) = expected J sys"
  by (rule ext, rename_tac j, case_tac j) (simp_all add: group_policies_def)

lemma lasting_docs [simp]: "lasting name (sys\<lparr>iamPolicyDocsMap := m\<rparr>) = lasting name sys"
  by (simp add: lasting_def group_policies_def)

lemma expected_memberships [simp]: "expected J (sys\<lparr>iamUserGroupMemberships := m\<rparr>) = expected J sys"
  by (rule ext, rename_tac j, case_tac j) (simp_all add: group_policies_def)

lemma lasting_memberships [simp]: "lasting name (sys\<lparr>iamUserGroupMemberships := m\<rparr>) = lasting name sys"
  by (simp add: lasting_def group_policies_def)

lemma expected_entry:
  "j \<noteq> GroupFile g \<Longrightarrow> expected J (sys\<lparr>iamGroupsMap := AList.update g gi m\<rparr>) j = expected J (sys\<lparr>iamGroupsMap := m\<rparr>) j"
  "j \<noteq> GroupFile g \<Longrightarrow> expected J (sys\<lparr>iamGroupsMap := AList.delete g m\<rparr>) j = expected J (sys\<lparr>iamGroupsMap := m\<rparr>) j"
  "j \<noteq> UserFile g \<Longrightarrow> expected J (sys\<lparr>iamUsersMap := AList.update g c us\<rparr>) j = expected J (sys\<lparr>iamUsersMap := us\<rparr>) j"
  "j \<noteq> UserFile g \<Longrightarrow> expected J (sys\<lparr>iamUsersMap := AList.delete g us\<rparr>) j = expected J (sys\<lparr>iamUsersMap := us\<rparr>) j"
  "j \<noteq> UserMapping g \<Longrightarrow> expected J (sys\<lparr>iamUserPolicyMap := AList.update g mp ms\<rparr>) j = expected J (sys\<lparr>iamUserPolicyMap := ms\<rparr>) j"
  by (cases j; simp add: group_policies_def update_conv' delete_conv')+

lemma lasting_entry:
  "lasting name sys \<Longrightarrow> name g \<Longrightarrow> lasting name (sys\<lparr>iamGroupsMap := AList.update g gi (iamGroupsMap sys)\<rparr>)"
  "lasting name sys \<Longrightarrow> lasting name (sys\<lparr>iamGroupsMap := AList.delete g (iamGroupsMap sys)\<rparr>)"
  "lasting name sys \<Longrightarrow> \<not> IsTemp c \<and> cr_AccessKey c = g \<and> cr_Expiration c = zeroTime \<Longrightarrow>
     lasting name (sys\<lparr>iamUsersMap := AList.update g c (iamUsersMap sys)\<rparr>)"
  "lasting name sys \<Longrightarrow> lasting name (sys\<lparr>iamUsersMap := AList.delete g (iamUsersMap sys)\<rparr>)"
  "lasting name sys \<Longrightarrow> name g \<Longrightarrow> lasting name (sys\<lparr>iamUserPolicyMap := AList.update g mp (iamUserPolicyMap sys)\<rparr>)"
  by (simp add: lasting_def group_policies_def update_conv' delete_conv')+

context iam_store
begin

abbreviation "ENV E \<equiv> on_store SE E"

lemma map_mapping:
  assumes "mirrored sys s" "name n" "saveMappedPolicy SE n False grp mp s = (None, s')" "iamGroupPolicyMap sys = Some m"
  shows "mirrored (if grp then sys\<lparr>iamGroupPolicyMap := Some (AList.update n mp m)\<rparr>
    else sys\<lparr>iamUserPolicyMap := AList.update n mp (iamUserPolicyMap sys)\<rparr>) s'" (is "mirrored ?sys s'")
proof -
  have e: "expected J ?sys (mapping_file grp n) = Some (Some (js_mapped J mp))"
    by (simp add: mapping_file_def group_policies_def update_conv')
  have o: "expected J ?sys j = expected J sys j" if "j \<noteq> mapping_file grp n" for j
    using that assms(4) by (cases j) (auto simp: mapping_file_def group_policies_def update_conv')
  have l: "lasting name ?sys"
    using assms(1,2,4) by (auto simp: mirrored_state_def lasting_def group_policies_def update_conv')
  have k: "saveIAMConfig SE (js_mapped J mp) (file_path (mapping_file grp n)) s = (None, s')"
    using assms(3) by (simp add: saveMappedPolicy_def)
  show ?thesis using mirrored_save [OF assms(1) _ json_not_Nil(3) k e o l] assms(2) by simp
qed

end

context iam_store
begin

lemma save_failed:
  assumes "mirrored sys s" "name (file_name k)" "d \<noteq> []" "saveIAMConfig SE d (file_path k) s = (Some e, s')"
  shows "mirrored sys s'"
  using save_file [of s k d] assms by (auto simp: mirrored_state_def)

lemma mapped_name_known:
  "mirrored sys s \<Longrightarrow> map_of (iamUserPolicyMap sys) n \<noteq> None \<or> map_of (group_policies sys) n \<noteq> None \<or>
     map_of (iamGroupsMap sys) n \<noteq> None \<Longrightarrow> name n"
  unfolding mirrored_state_def lasting_def by blast

lemma policyDBSet_mirrored:
  assumes "mirrored sys s" "name n" "policyDBSet (ENV E) n policy False grp (sys, s) = (r, sys', s')"
  shows "mirrored sys' s'"
proof -
  obtain m where m: "iamGroupPolicyMap sys = Some m" using assms(1) by (auto simp: mirrored_state_def lasting_def)
  obtain e s1 where d: "deleteMappedPolicy SE n False grp s = (e, s1)" by fastforce
  obtain e2 s2 where v: "saveMappedPolicy SE n False grp (newMappedPolicy policy) s = (e2, s2)" by fastforce
  have del: "mirrored (drop_mapping grp n sys) s1" "e \<noteq> None \<Longrightarrow> mirrored sys s1"
    using mirrored_delete [OF assms(1), of "mapping_file grp n" errNoSuchPolicy e s1 "drop_mapping grp n sys"] d assms(1,2)
    by (simp_all add: deleteMappedPolicy_def expected_drop lasting_drop mirrored_state_def)
  have fail: "mirrored sys s2" if "e2 = Some x" for x
    using save_failed [OF assms(1), of "mapping_file grp n" "js_mapped J (newMappedPolicy policy)" x s2] v that assms(2)
    by (simp add: saveMappedPolicy_def json_not_Nil)
  note ok = map_mapping [OF assms(1,2) _ m, of grp "newMappedPolicy policy" s2]
  show ?thesis
    using assms(1,3) d v m del fail ok
    by (auto simp: policyDBSet_def Let_def split: if_splits option.splits)
qed

lemma drop_mappings_mirrored:
  assumes "mirrored sys s" "\<forall>n \<in> set ns. name (fst n) \<and> \<not> snd n" "drop_mappings (ENV E) grp ns (sys, s) = (sys', s')"
  shows "mirrored sys' s'"
  using assms
proof (induction ns arbitrary: sys s)
  case (Cons n ns)
  obtain r sys1 s1 where p: "policyDBSet (ENV E) (fst n) [] False grp (sys, s) = (r, sys1, s1)" by (metis prod_cases3)
  then have "drop_mappings (ENV E) grp ns (sys1, s1) = (sys', s')"
    using Cons.prems by (cases n) (simp add: drop_mappings_def)
  with Cons.IH show ?case using policyDBSet_mirrored [OF Cons.prems(1) _ p] Cons.prems(2) by simp
qed (simp add: drop_mappings_def)

lemma PolicyFile_mirrored:
  assumes "mirrored sys s" "name n"
  shows "savePolicyDoc SE n p s = (e, s') \<Longrightarrow> mirrored sys s'" "deletePolicyDoc SE n s = (e, s') \<Longrightarrow> mirrored sys s'"
proof -
  have "good s" "agrees J name (files s) sys" "lasting name sys" using assms(1) by (auto simp: mirrored_state_def)
  note facts = this agrees_policy [OF this(2) assms(2)]
  show "savePolicyDoc SE n p s = (e, s') \<Longrightarrow> mirrored sys s'"
    using save_file [OF facts(1), of "PolicyFile n" "js_policy J p"] facts assms json_not_Nil(4)
    by (auto simp: savePolicyDoc_def Policy_Marshal_def mirrored_state_def split: option.splits if_splits)
  show "deletePolicyDoc SE n s = (e, s') \<Longrightarrow> mirrored sys s'"
    using delete_file [OF facts(1), of "PolicyFile n" errNoSuchPolicy] facts assms(2)
    by (auto simp: deletePolicyDoc_def mirrored_state_def)
qed

lemma mirrored_docs: "mirrored (sys\<lparr>iamPolicyDocsMap := m\<rparr>) s = mirrored sys s"
  by (simp add: mirrored_state_def agrees_def)

lemma SetPolicy_mirrored:
  assumes "mirrored sys s" "name n" "SetPolicy (ENV E) n p (sys, s) = (r, sys', s')"
  shows "mirrored sys' s'"
  using assms(1,3) PolicyFile_mirrored(1) [OF assms(1,2)]
  by (auto simp: SetPolicy_def mirrored_docs split: if_splits prod.splits option.splits)

lemma mapped_to_known: "u \<in> set (mapped_to p m) \<Longrightarrow> map_of m u \<noteq> None"
  unfolding mapped_to_def map_of_eq_None_iff by auto

lemma DeletePolicy_mirrored:
  assumes "mirrored sys s" "name n" "DeletePolicy (ENV E) n (sys, s) = (r, sys', s')"
  shows "mirrored sys' s'"
proof -
  obtain e s1 where d: "deletePolicyDoc SE n s = (e, s1)" by fastforce
  let ?sys = "sys\<lparr>iamPolicyDocsMap := AList.delete n (iamPolicyDocsMap sys)\<rparr>"
  let ?us = "map (\<lambda>u. (u, is_sts ?sys u)) (mapped_to n (iamUserPolicyMap sys))"
  obtain sys2 s2 where u: "drop_mappings (ENV E) False ?us (?sys, s1) = (sys2, s2)" by fastforce
  let ?gs = "map (\<lambda>g. (g, False)) (mapped_to n (group_policies sys2))"
  obtain sys3 s3 where g: "drop_mappings (ENV E) True ?gs (sys2, s2) = (sys3, s3)" by fastforce
  have m1: "mirrored ?sys s1" using PolicyFile_mirrored(2) [OF assms(1,2) d] by (simp add: mirrored_docs)
  have "\<not> is_sts ?sys u" for u using assms(1) by (auto simp: is_sts_def mirrored_state_def lasting_def split: option.split)
  then have m2: "mirrored sys2 s2"
    using drop_mappings_mirrored [OF m1 _ u] mapped_name_known [OF assms(1)] mapped_to_known by fastforce
  have m3: "mirrored sys3 s3"
    using drop_mappings_mirrored [OF m2 _ g] mapped_name_known [OF m2] mapped_to_known by fastforce
  show ?thesis using assms(1,3) d u g m1 m3 by (auto simp: DeletePolicy_def Let_def split: if_splits)
qed

lemma save_credentials_mirrored:
  assumes "mirrored sys s" "name u" "\<not> IsTemp c \<and> cr_AccessKey c = u \<and> cr_Expiration c = zeroTime"
    "save_credentials (ENV E) u False c (sys, s) = (r, sys', s')"
  shows "mirrored sys' s'"
proof -
  let ?sys = "sys\<lparr>iamUsersMap := AList.update u c (iamUsersMap sys)\<rparr>"
  obtain e s1 where v: "saveUserIdentity SE u False (newUserIdentity c) s = (e, s1)" by fastforce
  then have k: "saveIAMConfig SE (js_user J (newUserIdentity c)) (file_path (UserFile u)) s = (e, s1)"
    by (simp add: saveUserIdentity_def)
  have "mirrored (if e = None then ?sys else sys) s1"
    using assms by (intro mirrored_save [OF assms(1) _ json_not_Nil(1) k])
      (simp_all add: update_conv' expected_entry lasting_entry mirrored_state_def)
  then show ?thesis using assms(4) v by (auto simp: save_credentials_def split: option.splits if_splits)
qed

lemma save_long_term:
  "mirrored sys s \<Longrightarrow> name u \<Longrightarrow>
   save_credentials (ENV E) u False \<lparr>cr_AccessKey = u, cr_SecretKey = k, cr_Expiration = zeroTime, cr_SessionToken = [],
     cr_Status = status\<rparr> (sys, s) = (r, sys', s') \<Longrightarrow> mirrored sys' s'"
  by (erule save_credentials_mirrored) (simp_all add: IsTemp_def)

lemma save_group:
  assumes "mirrored sys s" "name g" "saveGroupInfo SE g gi s = (e, s')"
  shows "mirrored (if e = None then sys\<lparr>iamGroupsMap := AList.update g gi (iamGroupsMap sys), iamUserGroupMemberships := m\<rparr> else sys) s'"
proof -
  have k: "saveIAMConfig SE (js_group J gi) (file_path (GroupFile g)) s = (e, s')" using assms(3) by (simp add: saveGroupInfo_def)
  show ?thesis
    using assms by (intro mirrored_save [OF assms(1) _ json_not_Nil(2) k])
      (simp_all add: update_conv' expected_entry lasting_entry mirrored_state_def)
qed

lemma save_group_mirrored:
  assumes "mirrored sys s" "name g"
  shows "saveGroupInfo SE g gi s = (Some e, s') \<Longrightarrow> mirrored sys s'"
    "saveGroupInfo SE g gi s = (None, s') \<Longrightarrow>
      mirrored (sys\<lparr>iamGroupsMap := AList.update g gi (iamGroupsMap sys), iamUserGroupMemberships := m\<rparr>) s'"
    "saveGroupInfo SE g gi s = (None, s') \<Longrightarrow> mirrored (sys\<lparr>iamGroupsMap := AList.update g gi (iamGroupsMap sys)\<rparr>) s'"
  using save_group [OF assms, of gi "Some e" s'] save_group [OF assms, of gi None s' m]
    save_group [OF assms, of gi None s' "iamUserGroupMemberships sys"] by simp_all

lemma AddUsersToGroup_mirrored:
  assumes "mirrored sys s" "name g" "AddUsersToGroup (ENV E) g us (sys, s) = (r, sys', s')"
  shows "mirrored sys' s'"
  using assms
  by (auto simp: AddUsersToGroup_def Let_def split: if_splits prod.splits option.splits intro: save_group_mirrored)

lemma SetGroupStatus_mirrored:
  assumes "mirrored sys s" "name g" "SetGroupStatus (ENV E) g b (sys, s) = (r, sys', s')"
  shows "mirrored sys' s'"
  using assms
  by (auto simp: SetGroupStatus_def Let_def split: if_splits prod.splits option.splits intro: save_group_mirrored)

lemma delete_group_mirrored:
  assumes "mirrored sys s" "name g" "map_of (iamGroupsMap sys) g \<noteq> None" "delete_group (ENV E) g (sys, s) = (r, sys', s')"
  shows "mirrored sys' s'"
proof -
  obtain e s1 where p: "deleteMappedPolicy SE g False True s = (e, s1)" by fastforce
  obtain e2 s2 where d: "deleteGroupInfo SE g s1 = (e2, s2)" by fastforce
  let ?sys = "drop_mapping True g sys"
  let ?gone = "?sys\<lparr>iamGroupsMap := AList.delete g (iamGroupsMap sys)\<rparr>"
  have gone: "?gone = drop_mapping True g (sys\<lparr>iamGroupsMap := AList.delete g (iamGroupsMap sys)\<rparr>)"
    by (simp add: drop_mapping_def)
  have same: "iamGroupsMap ?sys = iamGroupsMap sys" "?sys\<lparr>iamGroupsMap := iamGroupsMap sys\<rparr> = ?sys"
    by (simp_all add: drop_mapping_def)
  have l: "lasting name ?sys" using assms(1) by (simp add: mirrored_state_def lasting_drop)
  have m1: "mirrored ?sys s1" "e \<noteq> None \<Longrightarrow> mirrored sys s1"
    using mirrored_delete [OF assms(1), of "mapping_file True g" errNoSuchPolicy e s1 ?sys] p assms(2) l
    by (simp_all add: deleteMappedPolicy_def expected_drop)
  have err: "e = None \<or> e = Some (Storage errFileNotFound)"
    using delete_file [of s "mapping_file True g" errNoSuchPolicy] assms(1,2) p
    by (auto simp: deleteMappedPolicy_def mirrored_state_def split: if_splits)
  have there: "files s1 (file_path (GroupFile g)) \<noteq> None"
    using m1(1) assms(2,3) unfolding mirrored_state_def agrees_def
    by (elim conjE allE [of _ "GroupFile g"]) (auto simp: same)
  have ok: "e2 = None" using delete_file [of s1 "GroupFile g" errNoSuchGroup] m1(1) assms(2) d there
    by (auto simp: deleteGroupInfo_def mirrored_state_def)
  have "mirrored ?gone s2"
    using mirrored_delete(1) [OF m1(1), of "GroupFile g" errNoSuchGroup e2 s2 ?gone] d assms(2)
      expected_entry(2) [where sys = ?sys and m = "iamGroupsMap sys" and J = J] lasting_entry(2) [OF l, of g]
    by (simp add: deleteGroupInfo_def same delete_conv')
  then show ?thesis using assms(4) p d err m1(2) ok by (auto simp: delete_group_def gone)
qed

lemma RemoveUsersFromGroup_mirrored:
  assumes "mirrored sys s" "RemoveUsersFromGroup (ENV E) g us (sys, s) = (r, sys', s')"
  shows "mirrored sys' s'"
proof (cases "map_of (iamGroupsMap sys) g")
  case None
  then show ?thesis using assms by (auto simp: RemoveUsersFromGroup_def split: if_splits option.splits)
next
  case (Some gi)
  then have g: "name g" "map_of (iamGroupsMap sys) g \<noteq> None" using mapped_name_known [OF assms(1)] by auto
  show ?thesis
    using assms g Some delete_group_mirrored [OF assms(1) g]
    by (auto simp: RemoveUsersFromGroup_def Let_def split: if_splits prod.splits option.splits intro: save_group_mirrored)
qed

lemma leave_groups_mirrored:
  assumes "mirrored sys s" "leave_groups (ENV E) u gs (sys, s) = (r, sys', s')"
  shows "mirrored sys' s'"
  using assms
proof (induction gs arbitrary: sys s)
  case (Cons g gs)
  obtain e sys1 s1 where "RemoveUsersFromGroup (ENV E) g [u] (sys, s) = (e, sys1, s1)" by (metis prod_cases3)
  then show ?case using Cons RemoveUsersFromGroup_mirrored [of sys s E g "[u]" e sys1 s1] by (cases e) auto
qed simp

lemma forget_user_mirrored:
  assumes "mirrored sys s" "name u" "forget_user (ENV E) u (sys, s) = (r, sys', s')"
  shows "mirrored sys' s'"
proof -
  obtain e s1 where p: "deleteMappedPolicy SE u False False s = (e, s1)" by fastforce
  obtain e2 s2 where d: "deleteUserIdentity SE u False s1 = (e2, s2)" by fastforce
  let ?sys = "drop_mapping False u sys"
  let ?gone = "?sys\<lparr>iamUsersMap := AList.delete u (iamUsersMap sys)\<rparr>"
  have same: "iamUsersMap ?sys = iamUsersMap sys" "?sys\<lparr>iamUsersMap := iamUsersMap sys\<rparr> = ?sys"
    by (simp_all add: drop_mapping_def)
  have l: "lasting name ?sys" using assms(1) by (simp add: mirrored_state_def lasting_drop)
  have m1: "mirrored ?sys s1"
    using mirrored_delete [OF assms(1), of "mapping_file False u" errNoSuchPolicy e s1 ?sys] p assms(2) l
    by (simp add: deleteMappedPolicy_def expected_drop)
  have "mirrored ?gone s2"
    using mirrored_delete(1) [OF m1, of "UserFile u" errNoSuchUser e2 s2 ?gone] d assms(2)
      expected_entry(4) [where sys = ?sys and us = "iamUsersMap sys" and J = J] lasting_entry(4) [OF l, of u]
    by (simp add: deleteUserIdentity_def same delete_conv')
  moreover have "?gone = sys\<lparr>iamUsersMap := AList.delete u (iamUsersMap sys),
      iamUserPolicyMap := AList.delete u (iamUserPolicyMap sys)\<rparr>"
    by (simp add: drop_mapping_def)
  ultimately show ?thesis using assms(1,3) p d by (auto simp: forget_user_def split: if_splits)
qed

lemma DeleteUser_mirrored:
  assumes "mirrored sys s" "name u" "DeleteUser (ENV E) u (sys, s) = (r, sys', s')"
  shows "mirrored sys' s'"
proof (cases "ie_objectAPI E \<and> (\<exists>info. GetUserInfo (ENV E) sys u = Inr info)")
  case True
  then obtain info where info: "GetUserInfo (ENV E) sys u = Inr info" by blast
  obtain e sys1 s1 where lv: "leave_groups (ENV E) u (mu_MemberOf info) (sys, s) = (e, sys1, s1)" by (metis prod_cases3)
  have "mirrored sys1 s1" by (rule leave_groups_mirrored [OF assms(1) lv])
  then show ?thesis using assms(2,3) True info lv forget_user_mirrored [of sys1 s1 u E r sys' s']
    by (cases e) (auto simp: DeleteUser_def)
qed (use assms in \<open>auto simp: DeleteUser_def split: sum.splits if_splits\<close>)

lemma SetUser_mirrored:
  assumes "mirrored sys s" "name u" "SetUser (ENV E) u info (sys, s) = (r, sys', s')"
  shows "mirrored sys' s'"
  using assms
  by (auto simp: SetUser_def split: if_splits prod.splits option.splits intro: save_long_term policyDBSet_mirrored)

lemma SetUserStatus_mirrored:
  assumes "mirrored sys s" "name u" "SetUserStatus (ENV E) u status (sys, s) = (r, sys', s')"
  shows "mirrored sys' s'"
  using assms
  by (auto simp: SetUserStatus_def split: if_splits prod.splits option.splits intro: save_long_term)

lemma SetUserSecretKey_mirrored:
  assumes "mirrored sys s" "name u" "SetUserSecretKey (ENV E) u secret (sys, s) = (r, sys', s')"
  shows "mirrored sys' s'"
proof (cases "map_of (iamUsersMap sys) u")
  case (Some c)
  then have "\<not> IsTemp c \<and> cr_AccessKey c = u \<and> cr_Expiration c = zeroTime"
    using assms(1) by (simp add: mirrored_state_def lasting_def)
  then show ?thesis
    using assms Some save_credentials_mirrored [OF assms(1,2), of "c\<lparr>cr_SecretKey := secret\<rparr>"]
    by (auto simp: SetUserSecretKey_def IsTemp_def split: if_splits)
qed (use assms in \<open>auto simp: SetUserSecretKey_def split: if_splits\<close>)

end

text \<open>The requests of an administrator for users with lasting credentials, under names the store can keep.\<close>

primrec lasting_request :: "(string \<Rightarrow> bool) \<Rightarrow> iam_request \<Rightarrow> bool" where
  "lasting_request name (ReqSetPolicy n p) = name n"
| "lasting_request name (ReqDeletePolicy n) = name n"
| "lasting_request name (ReqPolicyDBSet n policy grp) = name n"
| "lasting_request name (ReqSetUser u info) = name u"
| "lasting_request name (ReqSetTempUser u c policy) = False"
| "lasting_request name (ReqSetUserStatus u status) = name u"
| "lasting_request name (ReqSetUserSecretKey u secret) = name u"
| "lasting_request name (ReqDeleteUser u) = name u"
| "lasting_request name (ReqAddUsersToGroup g us) = name g"
| "lasting_request name (ReqRemoveUsersFromGroup g us) = name g"
| "lasting_request name (ReqSetGroupStatus g b) = name g"
| "lasting_request name (ReqLoadGroup g) = False"
| "lasting_request name (ReqLoadPolicy n) = False"
| "lasting_request name (ReqLoadPolicyMapping n grp) = False"
| "lasting_request name (ReqLoadUser u sts) = False"

context iam_store
begin

lemma PolicyDBSet_mirrored:
  "mirrored sys s \<Longrightarrow> name n \<Longrightarrow> PolicyDBSet (ENV E) n policy grp (sys, s) = (r, sys', s') \<Longrightarrow> mirrored sys' s'"
  using policyDBSet_mirrored by (auto simp: PolicyDBSet_def split: if_splits)

lemma iam_serve_mirrored:
  assumes "mirrored sys s" "lasting_request name rq" "iam_serve (ENV E) rq (sys, s) = (r, sys', s')"
  shows "mirrored sys' s'"
  using assms(2,3)
  by (cases rq) (simp_all add: SetPolicy_mirrored [OF assms(1)] DeletePolicy_mirrored [OF assms(1)]
      PolicyDBSet_mirrored [OF assms(1)] SetUser_mirrored [OF assms(1)] SetUserStatus_mirrored [OF assms(1)]
      SetUserSecretKey_mirrored [OF assms(1)] DeleteUser_mirrored [OF assms(1)] AddUsersToGroup_mirrored [OF assms(1)]
      RemoveUsersFromGroup_mirrored [OF assms(1)] SetGroupStatus_mirrored [OF assms(1)])

lemma iam_serve_all_mirrored:
  assumes "mirrored sys s" "list_all (lasting_request name) rqs" "iam_serve_all (ENV E) rqs (sys, s) = (sys', s')"
  shows "mirrored sys' s'"
  using assms
proof (induction rqs arbitrary: sys s)
  case (Cons rq rqs)
  obtain r sys1 s1 where r: "iam_serve (ENV E) rq (sys, s) = (r, sys1, s1)" by (metis prod_cases3)
  then show ?case using Cons iam_serve_mirrored [OF Cons.prems(1) _ r] by simp
qed simp

text \<open>What loading finds.\<close>

lemma load_file:
  assumes "mirrored sys s" "name (file_name k)" "expected J sys k = Some d"
  shows "\<exists>s'. loadIAMConfig SE un (file_path k) s =
    (case d of None \<Rightarrow> Inl (Iam errConfigNotFound) | Some bs \<Rightarrow> un bs, s') \<and> mirrored sys s'"
proof -
  have g: "good s" "files s (file_path k) = d" using assms by (auto simp: mirrored_state_def agrees_def)
  obtain s' where "cf_read (se_files SE) (file_path k) s =
      (case d of None \<Rightarrow> Inl (Iam errConfigNotFound) | Some d \<Rightarrow> Inr d, s')" "good s'" "files s' = files s"
    using read [OF g(1)] names [OF assms(2)] g(2) by blast
  then show ?thesis using assms(1) store_ready by (auto simp: loadIAMConfig_def mirrored_state_def split: option.split)
qed

end

lemma expected_mapping:
  "expected J sys (mapping_file grp n) =
     Some (map_option (js_mapped J) (map_of (if grp then group_policies sys else iamUserPolicyMap sys) n))"
  by (simp add: mapping_file_def)

context iam_store
begin

lemma load_entry_mirrored:
  assumes "mirrored sys s" "name (file_name k)" "expected J sys k = Some (map_option js v)" "v \<noteq> None \<Longrightarrow> un (js (the v)) = Some (the v)"
  shows "fst (load_entry SE (plain_json un) missing (file_path k) n [] s) =
    (case v of None \<Rightarrow> (Some (Iam missing), []) | Some x \<Rightarrow> (None, [(n, x)]))"
  using load_file [OF assms(1-3), of "plain_json un"] assms(4) store_ready(1)
  by (cases v) (auto simp: load_entry_def missing_as_def plain_json_def)

lemma mirrored_file:
  "mirrored sys s \<Longrightarrow> name (file_name k) \<Longrightarrow> expected J sys k = Some d \<Longrightarrow> good s \<and> files s (file_path k) = d"
  by (simp add: mirrored_state_def agrees_def)

lemma loadGroup_mirrored:
  assumes "mirrored sys s" "name g" "\<forall>gi. map_of (iamGroupsMap sys) g = Some gi \<longrightarrow> un_group J (js_group J gi) = Some gi"
  shows "fst (loadGroup SE g [] s) =
    (case map_of (iamGroupsMap sys) g of None \<Rightarrow> (Some (Iam errNoSuchGroup), []) | Some gi \<Rightarrow> (None, [(g, gi)]))"
  using load_entry_mirrored [OF assms(1), of "GroupFile g" "js_group J" "map_of (iamGroupsMap sys) g"] assms(2,3)
  by (auto simp: loadGroup_def)

lemma loadMappedPolicy_mirrored:
  assumes "mirrored sys s" "name n"
    "\<forall>mp. map_of (if grp then group_policies sys else iamUserPolicyMap sys) n = Some mp \<longrightarrow> un_mapped J (js_mapped J mp) = Some mp"
  shows "fst (loadMappedPolicy SE n False grp [] s) =
    (case map_of (if grp then group_policies sys else iamUserPolicyMap sys) n of
       None \<Rightarrow> (Some (Iam errNoSuchPolicy), []) | Some mp \<Rightarrow> (None, [(n, mp)]))"
  using load_entry_mirrored [OF assms(1), of "mapping_file grp n" "js_mapped J"
      "map_of (if grp then group_policies sys else iamUserPolicyMap sys) n"] assms(2,3)
  by (auto simp: loadMappedPolicy_def expected_mapping)

lemma loadUser_mirrored:
  assumes "mirrored sys s" "name u"
    "\<forall>c. map_of (iamUsersMap sys) u = Some c \<longrightarrow> un_user J (js_user J (newUserIdentity c)) = Some (newUserIdentity c)"
  shows "fst (loadUser SE u False [] s) =
    (case map_of (iamUsersMap sys) u of None \<Rightarrow> (Some (Iam errNoSuchUser), []) | Some c \<Rightarrow> (None, [(u, c)]))"
proof (cases "map_of (iamUsersMap sys) u")
  case None
  then show ?thesis
    using load_file [OF assms(1), of "UserFile u" None "plain_json (un_user J)"] assms(2) store_ready(1)
    by (auto simp: loadUser_def missing_as_def)
next
  case (Some c)
  then have c: "\<not> IsTemp c" "cr_AccessKey c = u" "cr_Expiration c = zeroTime"
    using assms(1) by (simp_all add: mirrored_state_def lasting_def)
  have "u \<noteq> []" using names [of "UserFile u"] assms(2) by (simp add: plain_component_def)
  then show ?thesis
    using load_file [OF assms(1), of "UserFile u" "Some (js_user J (newUserIdentity c))" "plain_json (un_user J)"]
      assms(2,3) store_ready(1) Some c
    by (auto simp: loadUser_def plain_json_def IsExpired_def newUserIdentity_def)
qed

text \<open>A group without members and without a policy: the missing mapping is not the error that is ignored.\<close>

lemma delete_group_refused:
  assumes "mirrored sys s" "map_of (iamGroupsMap sys) g = Some gi" "gi_Members gi = []" "map_of (group_policies sys) g = None"
    "has_store sys" "ie_objectAPI E" "usersSysType sys = MinIOUsersSysType"
  shows "\<exists>s'. RemoveUsersFromGroup (ENV E) g [] (sys, s) = (Some (Storage errFileNotFound), sys, s') \<and> mirrored sys s'"
proof -
  have g: "name g" using mapped_name_known [OF assms(1)] assms(2) by simp
  then have f: "files s (file_path (mapping_file True g)) = None" and gd: "good s" "g \<noteq> []"
    using mirrored_file [OF assms(1), of "mapping_file True g" None] assms(4) names [of "GroupFile g"]
    by (simp_all add: expected_mapping plain_component_def)
  obtain s' where d: "deleteMappedPolicy SE g False True s = (Some (Storage errFileNotFound), s')" "good s'" "files s' = files s"
    using delete_file [OF gd(1), of "mapping_file True g" errNoSuchPolicy] g f
    by (auto simp: deleteMappedPolicy_def fun_upd_idem)
  then have "mirrored sys s'" using assms(1) by (simp add: mirrored_state_def)
  then show ?thesis using assms(2-7) d(1) gd(2) by (simp add: RemoveUsersFromGroup_def delete_group_def)
qed

lemma LoadGroup_missing:
  assumes "good s" "name g" "files s (getGroupInfoPath g) = None" "has_store sys" "\<not> ie_etcd E"
  shows "\<exists>s'. LoadGroup (ENV E) True g (sys, s) = (Some (Iam errNoSuchGroup), sys, s')"
proof -
  obtain s' where "cf_read (se_files SE) (file_path (GroupFile g)) s = (Inl (Iam errConfigNotFound), s')"
    using read [OF assms(1), of "file_path (GroupFile g)"] names [of "GroupFile g"] assms(2,3) by auto
  then show ?thesis using assms(4,5) store_ready(1)
    by (simp add: LoadGroup_def loadGroup_def load_entry_def loadIAMConfig_def missing_as_def)
qed

end

end
