(* ===== verification/Iam_Properties.thy ===== *)
theory Iam_Properties
  imports Iam_Store
begin

text \<open>
  What the user management promises. The first part puts \<open>Iam_Store\<close> on the configuration files of the Kinetic layer,
  in general (\<open>layer_iam_store\<close>) and on the drive in memory (\<open>mem_iam\<close>), where a simple text format stands for JSON.
  The second part has the properties, each with a witness on that drive.
\<close>

section \<open>The store on the Kinetic layer\<close>

context config_layer
begin

lemma layer_files: "config_files (kinetic_config fuel E True) (meta_world E contents) (meta_file contents) (meta_path E) one_block"
  by unfold_locales

end

text \<open>The names whose files have paths that the layer accepts.\<close>

definition storable :: "('d, 'm) env \<Rightarrow> string \<Rightarrow> bool" where
  "storable E n \<longleftrightarrow> plain_component n \<and>
     list_all (meta_path E) (map file_path [UserFile n, GroupFile n, UserMapping n, GroupMapping n, PolicyFile n])"

definition json_never_empty :: "iam_json \<Rightarrow> bool" where
  "json_never_empty J \<longleftrightarrow> (\<forall>u g m p. js_user J u \<noteq> [] \<and> js_group J g \<noteq> [] \<and> js_mapped J m \<noteq> [] \<and> js_policy J p \<noteq> [])"

lemma layer_iam_store:
  assumes "config_layer E contents readers writer" "se_files SE = kinetic_config fuel E True" "se_objectAPI SE"
    "\<not> json_encrypted (se_json SE)" "json_never_empty (se_json SE)"
  shows "iam_store SE (meta_world E contents) (meta_file contents) (meta_path E) one_block (storable E)"
proof -
  have c: "config_files (se_files SE) (meta_world E contents) (meta_file contents) (meta_path E) one_block"
    unfolding assms(2) by (rule config_layer.layer_files [OF assms(1)])
  have n: "storable E (file_name k) \<Longrightarrow> plain_component (file_name k) \<and> meta_path E (file_path k)" for k
    by (cases k) (simp_all add: storable_def)
  show ?thesis
    unfolding iam_store_def iam_store_axioms_def using c n assms(3-5) by (simp add: json_never_empty_def)
qed

section \<open>A text format\<close>

text \<open>Every character of a string is marked, so that strings, lists and numbers can be told apart.\<close>

definition enc_string :: "string \<Rightarrow> bytes" where
  "enc_string s = concat (map (\<lambda>c. [CHR ''x'', c]) s) @ ''.''"

fun dec_string :: "bytes \<Rightarrow> (string \<times> bytes) option" where
  "dec_string (m # c # bs) =
     (if m = CHR ''x'' then map_option (\<lambda>(s, r). (c # s, r)) (dec_string bs)
      else if m = CHR ''.'' then Some ([], c # bs) else None)"
| "dec_string [m] = (if m = CHR ''.'' then Some ([], []) else None)"
| "dec_string [] = None"

fun enc_strings :: "string list \<Rightarrow> bytes" where
  "enc_strings [] = ''n''"
| "enc_strings (s # ss) = CHR ''c'' # enc_string s @ enc_strings ss"

fun dec_strings :: "nat \<Rightarrow> bytes \<Rightarrow> string list option" where
  "dec_strings 0 bs = None"
| "dec_strings (Suc n) [] = None"
| "dec_strings (Suc n) (t # bs) =
     (if t = CHR ''n'' then Some []
      else case dec_string bs of None \<Rightarrow> None | Some (s, r) \<Rightarrow> map_option ((#) s) (dec_strings n r))"

fun enc_nat :: "nat \<Rightarrow> string" where
  "enc_nat n = (if n = 0 then [] else (if odd n then CHR ''1'' else CHR ''0'') # enc_nat (n div 2))"

declare enc_nat.simps [simp del]

fun dec_nat :: "string \<Rightarrow> nat" where
  "dec_nat [] = 0"
| "dec_nat (c # s) = (if c = CHR ''1'' then 1 else 0) + 2 * dec_nat s"

definition enc_int :: "int \<Rightarrow> string" where
  "enc_int i = (if i < 0 then CHR ''-'' # enc_nat (nat (- i)) else CHR ''+'' # enc_nat (nat i))"

definition dec_int :: "string \<Rightarrow> int" where
  "dec_int s = (if take 1 s = ''-'' then - int (dec_nat (drop 1 s)) else int (dec_nat (drop 1 s)))"

lemma dec_enc_string: "dec_string (enc_string s @ r) = Some (s, r)"
  by (induction s) (cases r; simp add: enc_string_def)+

lemma dec_enc_strings: "length (enc_strings ss) \<le> n \<Longrightarrow> dec_strings n (enc_strings ss) = Some ss"
proof (induction ss arbitrary: n)
  case Nil
  then show ?case by (cases n) simp_all
next
  case (Cons s ss)
  then show ?case by (cases n) (simp_all add: dec_enc_string)
qed

lemma dec_enc_nat: "dec_nat (enc_nat n) = n"
proof (induction n rule: enc_nat.induct)
  case (1 n)
  then show ?case by (cases "n = 0") (simp_all add: enc_nat.simps [of n] enc_nat.simps [of 0])
qed

lemma dec_enc_int: "dec_int (enc_int i) = i"
  by (simp add: dec_int_def enc_int_def dec_enc_nat)

lemma enc_strings_not_Nil: "enc_strings ss \<noteq> []"
  by (cases ss) simp_all

definition text_json :: iam_json where
  "text_json =
     \<lparr>js_user = (\<lambda>u. let c = ui_Credentials u in enc_strings [enc_int (ui_Version u), cr_AccessKey c, cr_SecretKey c,
                  enc_int (cr_Expiration c), cr_SessionToken c, cr_Status c]),
      js_group = (\<lambda>g. enc_strings (enc_int (gi_Version g) # gi_Status g # gi_Members g)),
      js_mapped = (\<lambda>m. enc_strings [enc_int (mp_Version m), mp_Policy m]),
      js_policy = (\<lambda>p. enc_strings [ip_ID p, ip_Version p]),
      js_format = (\<lambda>v. enc_strings [enc_int v]),
      un_user = (\<lambda>bs. case dec_strings (length bs) bs of
          Some [v, ak, sk, ex, tok, st] \<Rightarrow> Some \<lparr>ui_Version = dec_int v, ui_Credentials =
            \<lparr>cr_AccessKey = ak, cr_SecretKey = sk, cr_Expiration = dec_int ex, cr_SessionToken = tok, cr_Status = st\<rparr>\<rparr>
        | _ \<Rightarrow> None),
      un_group = (\<lambda>bs. case dec_strings (length bs) bs of
          Some (v # st # ms) \<Rightarrow> Some \<lparr>gi_Version = dec_int v, gi_Status = st, gi_Members = ms\<rparr> | _ \<Rightarrow> None),
      un_mapped = (\<lambda>bs. case dec_strings (length bs) bs of
          Some [v, p] \<Rightarrow> Some \<lparr>mp_Version = dec_int v, mp_Policy = p\<rparr> | _ \<Rightarrow> None),
      un_policy = (\<lambda>bs. None),
      un_format = (\<lambda>bs. case dec_strings (length bs) bs of Some [v] \<Rightarrow> Some (dec_int v) | _ \<Rightarrow> None),
      un_string = (\<lambda>bs. map_option fst (dec_string bs)),
      un_cred = (\<lambda>bs. None), json_encrypted = False, json_encrypt = Inr, json_decrypt = Inr\<rparr>"

lemma text_json_roundtrip:
  "un_user text_json (js_user text_json u) = Some u" "un_group text_json (js_group text_json g) = Some g"
  "un_mapped text_json (js_mapped text_json m) = Some m"
  by (simp_all add: text_json_def Let_def dec_enc_strings dec_enc_int del: enc_strings.simps)

lemma text_json_not_empty: "json_never_empty text_json"
  by (simp add: json_never_empty_def text_json_def Let_def)

section \<open>The store in memory\<close>

definition mem_store :: "nat \<Rightarrow> (mem_drive, nat \<times> bool) world store_env" where
  "mem_store fuel = \<lparr>se_json = text_json, se_files = kinetic_config fuel mem_env True, se_lib = list_lib, se_now = 0,
     se_objectAPI = True\<rparr>"

lemma mem_store_simps [simp]:
  "se_json (mem_store fuel) = text_json" "se_files (mem_store fuel) = kinetic_config fuel mem_env True"
  "se_lib (mem_store fuel) = list_lib" "se_now (mem_store fuel) = 0" "se_objectAPI (mem_store fuel)"
  by (simp_all add: mem_store_def)

lemma text_json_plain: "\<not> json_encrypted text_json"
  by (simp add: text_json_def)

interpretation mem_iam: iam_store "mem_store fuel" "meta_world mem_env map_of" "meta_file map_of" "meta_path mem_env"
  one_block "storable mem_env" for fuel
  by (rule layer_iam_store [OF mem_config.config_layer_axioms])
    (simp_all add: text_json_plain text_json_not_empty)

text \<open>A drive with nothing but the bucket of the configuration files, and the system after \<^verbatim>\<open>loadAll\<close> on it.\<close>

definition new_world :: "(mem_drive, nat \<times> bool) world" where
  "new_world = snd (run_state (serve mem_env (ReqMake minioMetaBucket)) (mem_world []))"

definition started :: IAMSys where
  "started = (NewIAMSys False)\<lparr>has_store := True, iamGroupPolicyMap := Some [],
     iamPolicyDocsMap := setDefaultCannedPolicies []\<rparr>"

lemma new_world_ok: "meta_world mem_env map_of new_world \<and> meta_file map_of new_world = Map.empty"
proof -
  let ?S = "\<lparr>s3_buckets = {}, s3_objects = (\<lambda>k. None)\<rparr>"
  let ?S' = "?S\<lparr>s3_buckets := {minioMetaBucket}\<rparr>"
  have s: "simulates mem_env map_of (mem_world []) ?S"
    by (rule simulates_new [OF mem_layer.kinetic_layer_axioms]) simp_all
  have wf: "Object_Store.wf_request mem_env (ReqMake minioMetaBucket)"
    by (simp add: wf_names_def nul_free_def)
  have sp: "spec_serve ?S (ReqMake minioMetaBucket) = (Done, ?S')" by simp
  have "\<exists>w'. run_state (serve mem_env (ReqMake minioMetaBucket)) (mem_world []) = (Done, w') \<and> simulates mem_env map_of w' ?S'"
    by (rule mem_layer.serve_step [OF s wf _ sp]) simp
  then have "simulates mem_env map_of new_world ?S'" by (auto simp: new_world_def)
  moreover from mem_config.meta_file_eq [OF this] have "meta_file map_of new_world = Map.empty" by auto
  ultimately show ?thesis unfolding meta_world_def by (intro conjI exI [of _ ?S']) simp_all
qed

lemma started_mirrored: "mirrored_state text_json (storable mem_env) (meta_world mem_env map_of) (meta_file map_of) started new_world"
proof -
  have "expected text_json started k = Some d \<Longrightarrow> d = None" for k d
    by (cases k) (simp_all add: started_def NewIAMSys_def group_policies_def)
  then show ?thesis
    using new_world_ok
    by (auto simp: mirrored_state_def agrees_def lasting_def started_def NewIAMSys_def group_policies_def)
qed

lemma example_storable: "storable mem_env ''alice''" "storable mem_env ''staff''"
  by (simp_all add: storable_def meta_path_def plain_paths plain_component_def names_eval wf_names_def nul_free_def
      del: mapping_file_simps(2))

section \<open>An example\<close>

context iam_store
begin

lemma save_small:
  assumes "mirrored sys s" "name (file_name k)" "d \<noteq> []" "small d"
  shows "\<exists>s'. saveIAMConfig SE d (file_path k) s = (None, s')"
  using save [of s "file_path k" d] names [OF assms(2)] assms store_ready(2)
  by (auto simp: saveIAMConfig_def mirrored_state_def)

end

definition example_env :: "(mem_drive, nat \<times> bool) world iam_env" where
  "example_env = on_store (mem_store 1)
     \<lparr>ie_lib = list_lib, ie_api = objectStoreAPI (mem_store 1), ie_objectAPI = True, ie_etcd = False, ie_OPA = None, ie_now = 0,
      ie_claim_name = ''policy'', ie_decode_policy = (\<lambda>str. Inl (Lib ErrJson))\<rparr>"

definition example_cred :: Credentials where
  "example_cred = \<lparr>cr_AccessKey = ''alice'', cr_SecretKey = ''password'', cr_Expiration = zeroTime, cr_SessionToken = [],
     cr_Status = statusEnabled\<rparr>"

definition example_user :: UserInfo where
  "example_user = \<lparr>mu_SecretKey = ''password'', mu_PolicyName = [], mu_Status = statusEnabled, mu_MemberOf = []\<rparr>"

definition example_run :: "iam_request list" where
  "example_run = [ReqSetUser ''alice'' example_user, ReqAddUsersToGroup ''staff'' [''alice'']]"

definition example_sys :: IAMSys where
  "example_sys = started\<lparr>iamUsersMap := [(''alice'', example_cred)], iamGroupsMap := [(''staff'', newGroupInfo [''alice''])],
     iamUserGroupMemberships := [(''alice'', [''staff''])]\<rparr>"

abbreviation "mem_mirrored \<equiv> mirrored_state text_json (storable mem_env) (meta_world mem_env map_of) (meta_file map_of)"

lemma example_small:
  "one_block (js_user text_json (newUserIdentity example_cred))" "one_block (js_group text_json (newGroupInfo [''alice'']))"
  "one_block (js_group text_json (newGroupInfo []))"
  by (simp_all add: one_block_def text_json_def newUserIdentity_def newGroupInfo_def example_cred_def Let_def enc_string_def
      enc_int_def enc_nat.simps)

lemma mem_step:
  assumes "mem_mirrored sys s" "lasting_request (storable mem_env) rq" "iam_serve example_env rq (sys, s) = (r, sys', s')"
  shows "mem_mirrored sys' s'"
  using mem_iam.iam_serve_mirrored [of 1 sys s rq] assms by (simp add: example_env_def)

lemma mem_save:
  assumes "mem_mirrored sys s" "storable mem_env (file_name k)" "d \<noteq> []" "one_block d"
  shows "\<exists>s'. saveIAMConfig (mem_store 1) d (file_path k) s = (None, s')"
  using mem_iam.save_small [of 1 sys s k d] assms by auto

lemma example_step1:
  "\<exists>s'. iam_serve example_env (ReqSetUser ''alice'' example_user) (started, new_world) =
     (None, started\<lparr>iamUsersMap := [(''alice'', example_cred)]\<rparr>, s') \<and>
     mem_mirrored (started\<lparr>iamUsersMap := [(''alice'', example_cred)]\<rparr>) s'"
proof -
  obtain s' where "saveIAMConfig (mem_store 1) (js_user text_json (newUserIdentity example_cred))
      (file_path (UserFile ''alice'')) new_world = (None, s')"
    using mem_save [OF started_mirrored, of "UserFile ''alice''" "js_user text_json (newUserIdentity example_cred)"] example_storable example_small text_json_not_empty
    by (auto simp: json_never_empty_def)
  then have r: "iam_serve example_env (ReqSetUser ''alice'' example_user) (started, new_world) =
      (None, started\<lparr>iamUsersMap := [(''alice'', example_cred)]\<rparr>, s')"
    by (simp add: example_env_def SetUser_def save_credentials_def saveUserIdentity_def example_user_def example_cred_def
        started_def NewIAMSys_def is_sts_def)
  then show ?thesis using mem_step [OF started_mirrored _ r] by (simp add: example_storable)
qed

lemma mem_add_group:
  assumes "mem_mirrored sys s" "first_error (member_error sys) us = None" "has_store sys" "iamGroupsMap sys = []"
    "usersSysType sys = MinIOUsersSysType" "one_block (js_group text_json (newGroupInfo us))"
  obtains s' where "iam_serve example_env (ReqAddUsersToGroup ''staff'' us) (sys, s) =
      (None, sys\<lparr>iamGroupsMap := [(''staff'', newGroupInfo us)], iamUserGroupMemberships :=
        fold (add_membership list_lib ''staff'') us (iamUserGroupMemberships sys)\<rparr>, s')"
    "mem_mirrored (sys\<lparr>iamGroupsMap := [(''staff'', newGroupInfo us)], iamUserGroupMemberships :=
        fold (add_membership list_lib ''staff'') us (iamUserGroupMemberships sys)\<rparr>) s'"
proof -
  obtain s' where "saveIAMConfig (mem_store 1) (js_group text_json (newGroupInfo us)) (file_path (GroupFile ''staff'')) s =
      (None, s')"
    using mem_save [OF assms(1), of "GroupFile ''staff''" "js_group text_json (newGroupInfo us)"] example_storable assms(6) text_json_not_empty
    by (auto simp: json_never_empty_def)
  then have r: "iam_serve example_env (ReqAddUsersToGroup ''staff'' us) (sys, s) =
      (None, sys\<lparr>iamGroupsMap := [(''staff'', newGroupInfo us)], iamUserGroupMemberships :=
        fold (add_membership list_lib ''staff'') us (iamUserGroupMemberships sys)\<rparr>, s')"
    using assms(2-5) by (simp add: example_env_def AddUsersToGroup_def saveGroupInfo_def)
  show thesis by (rule that [OF r mem_step [OF assms(1) _ r]]) (simp add: example_storable)
qed

lemma example_run_result:
  "\<exists>s'. iam_serve_all example_env example_run (started, new_world) = (example_sys, s') \<and> mem_mirrored example_sys s'"
proof -
  let ?sys = "started\<lparr>iamUsersMap := [(''alice'', example_cred)]\<rparr>"
  obtain s1 where s1: "iam_serve example_env (ReqSetUser ''alice'' example_user) (started, new_world) = (None, ?sys, s1)"
    "mem_mirrored ?sys s1" using example_step1 by blast
  have a: "first_error (member_error ?sys) [''alice''] = None"
    by (simp add: member_error_def example_cred_def IsTemp_def)
  have eq: "?sys\<lparr>iamGroupsMap := [(''staff'', newGroupInfo [''alice''])], iamUserGroupMemberships :=
      fold (add_membership list_lib ''staff'') [''alice''] (iamUserGroupMemberships ?sys)\<rparr> = example_sys"
    by (simp add: example_sys_def started_def NewIAMSys_def add_membership_def list_lib_def)
  show ?thesis
    using mem_add_group [OF s1(2) a _ _ _ example_small(2)] s1(1) unfolding eq
    by (simp add: example_run_def started_def NewIAMSys_def) (metis snd_conv)
qed

text \<open>The example user as a member of a group with a canned policy, and as temporary credentials for it.\<close>

definition example_reader :: IAMSys where
  "example_reader = example_sys\<lparr>iamGroupPolicyMap := Some [(''staff'', newMappedPolicy ''readonly'')]\<rparr>"

definition example_temp :: IAMSys where
  "example_temp = started\<lparr>iamUsersMap := [(''alice'', example_cred\<lparr>cr_SessionToken := ''token''\<rparr>)],
     iamUserPolicyMap := [(''alice'', newMappedPolicy ''readonly'')]\<rparr>"

definition alice_args :: "Action \<Rightarrow> (string \<times> claim) list \<Rightarrow> iam_Args" where
  "alice_args act claims = \<lparr>ia_AccountName = ''alice'', ia_Action = act, ia_BucketName = ''bkt'', ia_ConditionValues = [],
     ia_IsOwner = False, ia_ObjectName = ''a'', ia_Claims = claims\<rparr>"

lemmas example_defs = example_reader_def example_temp_def example_sys_def started_def NewIAMSys_def newGroupInfo_def
  newMappedPolicy_def example_cred_def alice_args_def

lemma example_reader_granted: "granted example_reader ''alice'' n \<longleftrightarrow> n = ''readonly''"
  by (auto simp: granted_def example_defs member_of_def mapped_name_def group_policies_def group_enabled_def split: if_splits)

lemma readonly_doc: "map_of (setDefaultCannedPolicies []) ''readonly'' = Some ReadOnly"
  by (simp add: setDefaultCannedPolicies_def default_policy_def)

lemma readonly_decides:
  "iam_Policy_IsAllowed L ReadOnly (alice_args act claims) = Inr (act \<in> {''s3:GetBucketLocation'', ''s3:GetObject''})"
proof -
  have "literal ''s3:GetBucketLocation''" "literal ''s3:GetObject''" by (simp_all add: literal_def byte_def)
  then show ?thesis
    by (simp add: ReadOnly_def canned_decides values_ok_def alice_args_def glob_exact del: runes.simps)
qed

lemma readonly_applies:
  "(\<exists>st \<in> set (ip_Statements ReadOnly). is_Effect st = Allow \<and> iam_applies list_lib (alice_args act claims) st) \<longleftrightarrow>
     act \<in> {''s3:GetBucketLocation'', ''s3:GetObject''}"
  using lists.iam_Policy_IsAllowed_decides [of "alice_args act claims" ReadOnly] readonly_decides [of list_lib act claims]
  by (auto simp: values_ok_def iam_answerable_def alice_args_def ReadOnly_def canned_def)

section \<open>Users and groups\<close>



text \<open>C7. A request of a user is allowed exactly if the user is not disabled, no denying statement of the policies that count for
  the user applies to it, and an allowing one does; the policies that count are the user's own and those of the enabled
  groups the user is a member of.\<close>

theorem user_policies_decide:
  assumes "string_sets (se_lib SE)" "memberships_ok sys" "map_of (iamUsersMap sys) (ia_AccountName args) = Some cred"
    "\<not> IsTemp cred" "ia_AccountName args \<noteq> []" "ie_objectAPI E" "ie_OPA E = None" "\<not> ia_IsOwner args"
    "values_ok (ia_ConditionValues args)"
    "\<forall>st. granted_statement sys (ia_AccountName args) st \<longrightarrow> iam_answerable (se_lib SE) args st"
  shows "IsAllowed (on_store SE E) sys args =
    Inr (cr_Status cred \<noteq> statusDisabled \<and>
         (\<forall>st. granted_statement sys (ia_AccountName args) st \<and> is_Effect st = Deny \<longrightarrow> \<not> iam_applies (se_lib SE) args st) \<and>
         (\<exists>st. granted_statement sys (ia_AccountName args) st \<and> is_Effect st = Allow \<and> iam_applies (se_lib SE) args st))"
  using iam_storage.IsAllowed_decides [OF store_storage [OF assms(1), of E] assms(2-5), unfolded on_store_simps] assms(6-10)
  by blast

theorem user_policies_decide_witness:
  "IsAllowed example_env example_reader (alice_args ''s3:GetObject'' []) = Inr True \<and>
   IsAllowed example_env example_reader (alice_args ''s3:PutObject'' []) = Inr False"
proof -
  have st: "granted_statement example_reader ''alice'' st \<longleftrightarrow> st \<in> set (ip_Statements ReadOnly)" for st
    by (simp add: granted_statement_def example_reader_granted doc_statement_def)
      (simp add: example_reader_def example_sys_def started_def readonly_doc)
  have ok: "memberships_ok example_reader"
    by (auto simp: memberships_ok_def example_defs in_group_def member_of_def)
  have ans: "granted_statement example_reader ''alice'' st \<Longrightarrow> iam_answerable list_lib a st" for st a
    by (simp add: st iam_answerable_def ReadOnly_def canned_def)
  have args: "ia_AccountName (alice_args act [])= ''alice''" "\<not> ia_IsOwner (alice_args act [])"
    "values_ok (ia_ConditionValues (alice_args act []))" for act by (simp_all add: alice_args_def values_ok_def)
  have u: "map_of (iamUsersMap example_reader) ''alice'' = Some example_cred" "\<not> IsTemp example_cred"
    "cr_Status example_cred \<noteq> statusDisabled" by (simp_all add: example_defs IsTemp_def)
  have deny: "st \<in> set (ip_Statements ReadOnly) \<Longrightarrow> is_Effect st \<noteq> Deny" for st by (simp add: ReadOnly_def canned_def)
  have "IsAllowed example_env example_reader (alice_args act []) =
      Inr (\<exists>st \<in> set (ip_Statements ReadOnly). is_Effect st = Allow \<and> iam_applies list_lib (alice_args act []) st)" for act
    unfolding example_env_def
    by (subst user_policies_decide [OF _ ok, where cred = example_cred])
      (auto simp: lists.string_sets_axioms args u ans st deny)
  then show ?thesis by (simp only: readonly_applies) simp
qed



text \<open>C21. A user who was disabled is locked out, in one of two ways: after \<^verbatim>\<open>SetUserStatus\<close> the credentials are no longer valid,
  and after \<^verbatim>\<open>SetUser\<close> with the status \<^verbatim>\<open>disabled\<close> they are, but every request is refused.\<close>

theorem disabled_user_locked_out:
  assumes "ie_OPA E = None" "ia_AccountName args = u" "\<not> ia_IsOwner args"
  shows "(SetUserStatus E u statusDisabled (sys, s) = (None, sys1, s1) \<longrightarrow> \<not> snd (GetUser E sys1 u)) \<and>
    (mu_Status info = statusDisabled \<and> SetUser E u info (sys, s) = (None, sys2, s2) \<longrightarrow>
       IsAllowed E sys2 args = Inr False \<and>
       snd (GetUser E sys2 u) = (IsAccessKeyValid u \<and> IsSecretKeyValid (mu_SecretKey info)))"
proof (intro conjI impI)
  assume "SetUserStatus E u statusDisabled (sys, s) = (None, sys1, s1)"
  then show "\<not> snd (GetUser E sys1 u)"
    by (auto simp: SetUserStatus_def save_credentials_def GetUser_def Credentials_IsValid_def Let_def update_conv'
        split: if_splits option.splits prod.splits)
next
  let ?c = "\<lparr>cr_AccessKey = u, cr_SecretKey = mu_SecretKey info, cr_Expiration = zeroTime, cr_SessionToken = [],
    cr_Status = mu_Status info\<rparr>"
  assume a: "mu_Status info = statusDisabled \<and> SetUser E u info (sys, s) = (None, sys2, s2)"
  then obtain sys1 s1 where sc: "save_credentials E u False ?c (sys, s) = (None, sys1, s1)"
    "iamUsersMap sys2 = iamUsersMap sys1"
    by (auto simp: SetUser_def policyDBSet_def drop_mapping_def Let_def split: if_splits prod.splits option.splits)
  then have c: "map_of (iamUsersMap sys2) u = Some ?c"
    by (auto simp: save_credentials_def update_conv' split: option.splits prod.splits)
  then show "IsAllowed E sys2 args = Inr False"
    using a assms by (auto simp: IsAllowed_def IsTempUser_def IsTemp_def PolicyDBGet_def policyDBGet_def)
  show "snd (GetUser E sys2 u) = (IsAccessKeyValid u \<and> IsSecretKeyValid (mu_SecretKey info))"
    using a c by (simp add: GetUser_def Credentials_IsValid_def IsExpired_def Let_def)
qed

text \<open>A store that takes every user.\<close>

definition open_env :: "unit iam_env" where
  "open_env = \<lparr>ie_lib = list_lib,
     ie_api = \<lparr>st_loadPolicyDoc = (\<lambda>n m s. ((None, m), s)), st_loadUser = (\<lambda>n b m s. ((None, m), s)),
       st_loadGroup = (\<lambda>n m s. ((None, m), s)), st_loadMappedPolicy = (\<lambda>n b g m s. ((None, m), s)),
       st_savePolicyDoc = (\<lambda>n p s. (None, s)), st_saveMappedPolicy = (\<lambda>n b g m s. (None, s)),
       st_saveUserIdentity = (\<lambda>n b u s. (None, s)), st_saveGroupInfo = (\<lambda>n g s. (None, s)),
       st_deletePolicyDoc = (\<lambda>n s. (None, s)), st_deleteMappedPolicy = (\<lambda>n b g s. (None, s)),
       st_deleteUserIdentity = (\<lambda>n b s. (None, s)), st_deleteGroupInfo = (\<lambda>n s. (None, s))\<rparr>,
     ie_objectAPI = True, ie_etcd = False, ie_OPA = None, ie_now = 0, ie_claim_name = ''policy'',
     ie_decode_policy = (\<lambda>str. Inl (Lib ErrJson))\<rparr>"

theorem disabled_user_locked_out_witness:
  "fst (SetUserStatus open_env ''alice'' statusDisabled (example_reader, ())) = None \<and>
   \<not> snd (GetUser open_env (fst (snd (SetUserStatus open_env ''alice'' statusDisabled (example_reader, ())))) ''alice'') \<and>
   IsAllowed open_env (fst (snd (SetUser open_env ''alice'' (example_user\<lparr>mu_Status := statusDisabled\<rparr>) (example_reader, ()))))
     (alice_args ''s3:GetObject'' []) = Inr False"
proof -
  obtain sys1 where s1: "SetUserStatus open_env ''alice'' statusDisabled (example_reader, ()) = (None, sys1, ())"
    by (simp add: SetUserStatus_def save_credentials_def open_env_def example_defs IsTemp_def)
  obtain sys2 where s2: "SetUser open_env ''alice'' (example_user\<lparr>mu_Status := statusDisabled\<rparr>) (example_reader, ()) = (None, sys2, ())"
    by (simp add: SetUser_def save_credentials_def open_env_def example_defs IsTemp_def is_sts_def example_user_def)
  have "ie_OPA open_env = None" "ia_AccountName (alice_args ''s3:GetObject'' []) = ''alice''"
    "\<not> ia_IsOwner (alice_args ''s3:GetObject'' [])" by (simp_all add: open_env_def alice_args_def)
  from disabled_user_locked_out [OF this, of example_reader "()" sys1 "()" "example_user\<lparr>mu_Status := statusDisabled\<rparr>" sys2 "()"]
  show ?thesis using s1 s2 by simp
qed

section \<open>Memory and drive\<close>

text \<open>The store on the Kinetic layer, without encryption of the files.\<close>

definition kinetic_store ::
  "('d, 'm) env \<Rightarrow> ('d \<Rightarrow> kstore) \<Rightarrow> ('m \<Rightarrow> nat) \<Rightarrow> ('m \<Rightarrow> bool) \<Rightarrow> ('d, 'm) world store_env \<Rightarrow> bool" where
  "kinetic_store E contents readers writer SE \<longleftrightarrow> config_layer E contents readers writer \<and>
     (\<exists>fuel. se_files SE = kinetic_config fuel E True) \<and> se_objectAPI SE \<and> \<not> json_encrypted (se_json SE) \<and>
     json_never_empty (se_json SE)"

lemma kinetic_iam_store:
  "kinetic_store E contents readers writer SE \<Longrightarrow>
   iam_store SE (meta_world E contents) (meta_file contents) (meta_path E) one_block (storable E)"
  unfolding kinetic_store_def by (elim conjE exE) (rule layer_iam_store)

lemma mem_kinetic_store: "kinetic_store mem_env map_of fst snd (mem_store fuel)"
  by (auto simp: kinetic_store_def mem_config.config_layer_axioms text_json_plain text_json_not_empty)



text \<open>C22. Two errors of the store are not the ones its callers expect. An empty group that has no policy cannot be deleted: the
  missing mapping is reported as a missing file and ends the deletion, although the code means to ignore it. And when
  the file of a group is gone, reloading the group fails and leaves the group, its policy and its members in memory,
  although the code means to remove them.\<close>

theorem group_removal_fails:
  assumes "kinetic_store E contents readers writer SE" "has_store sys" "ie_objectAPI IE" "\<not> ie_etcd IE"
  shows "(mirrored_state (se_json SE) (storable E) (meta_world E contents) (meta_file contents) sys s \<and>
       map_of (iamGroupsMap sys) g = Some gi \<and> gi_Members gi = [] \<and> map_of (group_policies sys) g = None \<and>
       usersSysType sys = MinIOUsersSysType \<longrightarrow>
       (\<exists>s'. RemoveUsersFromGroup (on_store SE IE) g [] (sys, s) = (Some (Storage errFileNotFound), sys, s'))) \<and>
    (meta_world E contents s \<and> storable E g \<and> meta_file contents s (getGroupInfoPath g) = None \<longrightarrow>
       (\<exists>s'. LoadGroup (on_store SE IE) True g (sys, s) = (Some (Iam errNoSuchGroup), sys, s')))"
  using iam_store.delete_group_refused [OF kinetic_iam_store [OF assms(1)], of sys s g gi IE]
    iam_store.LoadGroup_missing [OF kinetic_iam_store [OF assms(1)], of s g sys IE] assms(2-4) by blast

theorem group_removal_fails_witness:
  "\<exists>sys s s'. map_of (iamGroupsMap sys) ''staff'' = Some (newGroupInfo []) \<and>
     RemoveUsersFromGroup example_env ''staff'' [] (sys, s) = (Some (Storage errFileNotFound), sys, s')"
proof -
  have st: "has_store started" "usersSysType started = MinIOUsersSysType" "iamGroupsMap started = []"
    "iamGroupPolicyMap started = Some []" by (simp_all add: started_def NewIAMSys_def)
  obtain s where s: "mem_mirrored (started\<lparr>iamGroupsMap := [(''staff'', newGroupInfo [])], iamUserGroupMemberships :=
      iamUserGroupMemberships started\<rparr>) s"
    using mem_add_group [OF started_mirrored, of "[]"] st example_small(3) by auto
  let ?sys = "started\<lparr>iamGroupsMap := [(''staff'', newGroupInfo [])], iamUserGroupMemberships := iamUserGroupMemberships started\<rparr>"
  let ?E = "\<lparr>ie_lib = list_lib, ie_api = objectStoreAPI (mem_store 1), ie_objectAPI = True, ie_etcd = False, ie_OPA = None,
    ie_now = 0, ie_claim_name = ''policy'', ie_decode_policy = (\<lambda>str. Inl (Lib ErrJson))\<rparr>"
  have "\<exists>s'. RemoveUsersFromGroup (on_store (mem_store 1) ?E) ''staff'' [] (?sys, s) = (Some (Storage errFileNotFound), ?sys, s')"
    using group_removal_fails [OF mem_kinetic_store [of 1], of ?sys ?E s "''staff''" "newGroupInfo []"] s st
    by (simp add: newGroupInfo_def group_policies_def)
  then obtain s' where r: "RemoveUsersFromGroup (on_store (mem_store 1) ?E) ''staff'' [] (?sys, s) =
      (Some (Storage errFileNotFound), ?sys, s')" by blast
  show ?thesis unfolding example_env_def by (intro exI [of _ ?sys] exI [of _ s] exI [of _ s'] conjI r) simp
qed


definition empty_store :: "unit store_env" where
  "empty_store = \<lparr>se_json = text_json,
     se_files = \<lparr>cf_read = (\<lambda>p s. (Inl (Iam errConfigNotFound), s)), cf_save = (\<lambda>p d s. (None, s)), cf_delete = (\<lambda>p s. (None, s)),
       cf_list = (\<lambda>pre m s. (Some (Inr \<lparr>lo_IsTruncated = False, lo_NextMarker = [], lo_Objects = [], lo_Prefixes = []\<rparr>), s))\<rparr>,
     se_lib = list_lib, se_now = 0, se_objectAPI = True\<rparr>"


end
