(* ===== verification/Spec2Isabelle.thy ===== *)
theory Spec2Isabelle
  imports Object_Store Kinetic_Multipart Download_Properties Bucket_Policy Lock_Interleaving Iam_Properties
begin

text \<open>
  A verification library for S3-Kinetic, an S3 server that stores its objects in a key-value drive.

  \<^bold>\<open>The program.\<close> S3-Kinetic is the MinIO server with its storage backend replaced. HTTP handlers
  (\<^verbatim>\<open>cmd/object-handlers.go\<close>, \<^verbatim>\<open>cmd/web-handlers.go\<close>) authorise a request, with the policies of buckets and users, and call
  the object layer \<^verbatim>\<open>KineticObjects\<close> (\<^verbatim>\<open>cmd/kinetic.go\<close>, \<^verbatim>\<open>cmd/kinetic-multipart.go\<close>). The layer maps buckets, objects,
  parts and uploads to keys, and reads and writes them through a pool of clients (\<^verbatim>\<open>cmd/client.go\<close>) whose C
  functions are the drive's, kineticd, in the same process. A global mutex guards the drive, namespace
  locks guard the names. Users, groups and their policies are kept in memory (\<^verbatim>\<open>cmd/iam.go\<close>) and in configuration
  files, which are objects of the same layer (\<^verbatim>\<open>cmd/iam-object-store.go\<close>, \<^verbatim>\<open>cmd/config-common.go\<close>).

  \<^bold>\<open>The theories,\<close> each with the source it models; a definition has the name of the Go function or type,
  with a suffix or prefix where the name is taken.

  \<^item> Prelude. \<open>Go_Prelude\<close>, \<open>Go_Text\<close>: strings, numbers, UTF-8 and paths of Go's library. \<open>Object_Errors\<close>: the
    error values (\<^verbatim>\<open>cmd/object-api-errors.go\<close>, \<^verbatim>\<open>cmd/storage-errors.go\<close>, \<^verbatim>\<open>cmd/kinetic-errors.go\<close>); a run-time panic is the
    error \<open>GoPanic\<close>.
  \<^item> Names and keys. \<open>Object_Names\<close>: \<^verbatim>\<open>IsValidBucketName\<close>, \<^verbatim>\<open>IsValidObjectPrefix\<close>, \<^verbatim>\<open>pathJoin\<close> and the argument checks
    (\<^verbatim>\<open>cmd/object-api-utils.go\<close>, \<^verbatim>\<open>cmd/object-api-input-checks.go\<close>). \<open>Kinetic_Keys\<close>: \<^verbatim>\<open>IncStr\<close>, \<^verbatim>\<open>makeKey\<close>, \<^verbatim>\<open>newVersion\<close>,
    part names. \<open>Kinetic_Meta\<close>: \<^verbatim>\<open>fsMetaV1\<close>, \<^verbatim>\<open>ObjectInfo\<close> and the conversions between them.
  \<^item> Drive. \<open>Kinetic_Drive\<close>: \<^verbatim>\<open>CGet\<close>, \<^verbatim>\<open>CGetMeta\<close>, \<^verbatim>\<open>CPut\<close>, \<^verbatim>\<open>CGetKeyRange\<close> of \<^verbatim>\<open>cmd/client.go\<close> over the C functions, a parameter;
    the locales \<open>kinetic_drive\<close> and \<open>healthy_drive\<close> state what a drive promises. \<open>Reference_Drive\<close>: two drives that keep
    the promises.
  \<^item> Concurrency. \<open>Kinetic_Pool\<close>: \<^verbatim>\<open>GetKineticConnection\<close>, \<^verbatim>\<open>ReleaseConnection\<close> and goroutines that use them, as a step
    relation. \<open>Namespace_Lock\<close>: \<^verbatim>\<open>cmd/namespace-lock.go\<close> over the mutex of lsync (locale \<open>lrw_mutex\<close>). \<open>Lock_Interleaving\<close>:
    its critical sections as steps of goroutines that share the entries. \<open>Fs_IOPool\<close>: the pool
    of read-locked files (\<^verbatim>\<open>cmd/fs-v1-rwpool.go\<close>) and \<^verbatim>\<open>checkPathLength\<close>.
  \<^item> The object layer. \<open>Kinetic_World\<close>: the state \<open>world\<close> (drive, mutex, pool, locks, open files, counters), the
    parameters \<open>env\<close>, and the state monad the operations are written in. \<open>Kinetic_Buckets\<close>, \<open>Kinetic_Objects\<close>,
    \<open>Kinetic_Listing\<close>, \<open>Kinetic_Multipart\<close>: the operations of \<^verbatim>\<open>KineticObjects\<close>, whole, with every early return and the
    calls on mutex, pool and locks in the order of the code. \<open>Hash_Reader\<close>: the digest-checking body reader
    (\<^verbatim>\<open>pkg/hash/reader.go\<close>).
  \<^item> Downloads. \<open>Http_Range\<close>: \<^verbatim>\<open>cmd/httprange.go\<close>. \<open>Object_Ranges\<close>: the ranges to read of encrypted and compressed objects
    (\<^verbatim>\<open>cmd/encryption-v1.go\<close>, \<^verbatim>\<open>cmd/crypto/metadata.go\<close>), over the size functions of the sio library (locale \<open>dare_sizes\<close>).
    \<open>Kinetic_Read\<close>: \<^verbatim>\<open>Client.Read\<close>, the object readers of \<^verbatim>\<open>cmd/object-api-utils.go\<close>, \<^verbatim>\<open>GetObjectNInfo\<close> and the copy loops of the
    handlers. \<open>Kinetic_Download\<close>, \<open>Download_Properties\<close>: what a client receives.
  \<^item> Authorisation. \<open>Wildcard\<close>: \<^verbatim>\<open>pkg/wildcard/match.go\<close>. \<open>Policy_Conditions\<close>: \<^verbatim>\<open>pkg/bucket/policy/condition\<close> over the string
    sets of minio-go (locale \<open>string_sets\<close>). \<open>Bucket_Policy\<close>: \<^verbatim>\<open>pkg/bucket/policy\<close>, \<^verbatim>\<open>cmd/policy.go\<close>, \<^verbatim>\<open>pkg/handlers/proxy.go\<close>.
    \<open>Iam_Policy\<close>: the policies of users, \<^verbatim>\<open>pkg/iam/policy\<close>.
  \<^item> Users. \<open>Iam_System\<close>: \<^verbatim>\<open>IAMSys\<close> of \<^verbatim>\<open>cmd/iam.go\<close> and the credentials of \<^verbatim>\<open>pkg/auth\<close>, over the interface of its store (record
    \<open>IAMStorageAPI\<close>, locale \<open>iam_storage\<close>). \<open>Config_Files\<close>: \<^verbatim>\<open>cmd/config-common.go\<close> on the Kinetic layer, and what it promises (locale
    \<open>config_files\<close>). \<open>Iam_Store\<close>: \<^verbatim>\<open>IAMObjectStore\<close>, which implements the interface over those files (locale \<open>iam_store\<close>).
    \<open>Iam_Properties\<close>: what the composition promises.
  \<^item> Composition. \<open>Reference_Layer\<close>: the layer on the reference drives. \<open>Object_Store\<close>: an abstract store of buckets
    and objects, and the simulation. This theory: the properties of whole operations of the layer.

  \<^bold>\<open>What the theorems show.\<close> The object layer refines the abstract store for every sequence of bucket
  creations, uploads, downloads, stats and deletions. Uploads, completions and deletions of objects change
  the keys they should and no others, or report an error and change nothing. Listings return the keys of
  the range in order, grouped by the delimiter. Connections and namespace locks are exclusive, and each
  operation gives back what it takes. Downloads deliver the requested bytes, encrypted ranges cover
  them, and policies of buckets and of users decide as their meaning says. Memberships are the inverse of
  the member lists; users, groups and policy mappings on the drive agree with the memory after every
  administrative request; temporary credentials stay within their policies; disabled users are locked out. Names, keys, versions, part names and
  ranges have round trips and bounds. Several theorems state what the code does where that differs from its intention:
  downloads over a connection that was left in the middle of an object, the block that the browser
  download repeats, the ETag of the empty body, buckets whose emptiness is judged by one key, conditions
  on the source address that a header of the client overrides, groups that cannot be removed, memberships
  that survive a reload, and others named in the texts.

  \<^bold>\<open>Conventions.\<close> Go's \<^verbatim>\<open>string\<close> and \<^verbatim>\<open>[]byte\<close> are \<^typ>\<open>string\<close>; maps are association lists; \<^verbatim>\<open>int\<close> is \<^typ>\<open>int\<close>, with the
  wrap-around at 64 bits (\<open>wrap64\<close>) or at the 32 bits of C (\<open>C_int\<close>) where it can occur; an error is a value of a sum or an
  option. Properties of the layer assume \<open>kinetic_layer\<close>, the contract of the environment, which \<open>mem_layer\<close> and
  \<open>quota_layer\<close> establish. JSON and gob encodings are the abstract values \<open>blob\<close>; only their size matters, and it is a parameter.

  \<^bold>\<open>Fuel.\<close> Loops that ask the drive for page after page take fuel, \<open>None\<close> being that it ran out:
  \<^verbatim>\<open>ListObjects\<close> with one step more than the keys of the drive returns, as its properties prove. The copy loop of a
  download takes fuel because it need not end; the properties give the fuel that is enough (two steps for
  a whole object, one more than the parts for a multipart object, the number of blocks for the browser), and one
  property shows a download that no fuel is enough for. The listing of configuration files takes fuel for its
  pages; what is proved of loading everything holds for every fuel with which it returns. All other recursion is total.

  \<^bold>\<open>Concurrency.\<close> An operation runs in one goroutine on the world, uninterrupted; that connections are not
  shared and that locks exclude each other is proved of the interleaved steps of the pool and of the lock map,
  whose uninterrupted runs are the functions the operations call. \<open>w_blocked\<close> records that a goroutine would wait for ever.

  \<^bold>\<open>Not modelled.\<close> The network protocol of \<^verbatim>\<open>cmd/client.go\<close> (protobuf, HMAC, sockets), which the in-process mode does not use.
  HTTP parsing, routing, response headers, signatures and XML: input and output around the layer. The
  cryptography itself, and compression: the decoding readers are parameters. The upstream backends (erasure
  coding, file system), gateways, caches, peers, configuration, metrics, events, the query engine and
  the browser interface, none of which the Kinetic layer calls on the paths above. Of the user management, the etcd
  store, the policy service and the issuing of tokens, which are services of their own; JSON and the encryption
  of the files are parameters. Lifecycle and retention rules, which the handlers consult before the layer.
\<close>

section \<open>Uploads\<close>

lemma mem_key_range:
  "key_range s e si ei (dom (map_of d)) = sort (remdups (filter (in_key_range s e si ei) (map fst d)))"
proof -
  have "{k \<in> dom (map_of d). in_key_range s e si ei k} = set (filter (in_key_range s e si ei) (map fst d))"
    by (auto simp: dom_map_of_conv_image_fst)
  then show ?thesis by (simp add: key_range_def sorted_list_of_set_sort_remdups del: set_filter)
qed

context kinetic_layer
begin

lemma PutObject_atomic:
  assumes "ready w" "nul_free b" "nul_free x" "fresh (w_ns w) b []" "fresh (w_ns w) b x" "bucket_at E (store w) b"
    "putable b x (r_size r)" "readable E (store w) (makeKey b x)" "plain_body r" "\<forall>h. e_md5 E h \<noteq> []"
  shows "\<exists>res w' m. run_state (PutObject E b x r opts) w = (res, w') \<and> settled w w' \<and>
     store w' = (if isl res then store w else (store w)(makeKey b x \<mapsto> (Json m, Raw (r_src r)))) \<and>
     mget (fm_Meta m) ''version'' = newVersion (version_at (store w) (makeKey b x)) \<and>
     mget (fm_Meta m) ''size'' = FormatInt (int (length (r_src r)))"
proof -
  let ?m = "written_meta E (version_at (store w) (makeKey b x)) (w_tick w) x r opts"
  have key: "C_CString (makeKey b x) = makeKey b x" using assms(2,3) by simp
  obtain e d' where put: "CPut (e_ops E) (makeKey b x) (Json ?m) (Raw (r_src r)) option_nosync (w_drive w) = (e, d')"
    by fastforce
  have d': "contents d' = (if e = None then (store w)(makeKey b x \<mapsto> (Json ?m, Raw (r_src r))) else store w)"
    using CPut_contents [OF put] key by simp
  have m: "mget (fm_Meta ?m) ''version'' = newVersion (version_at (store w) (makeKey b x))"
    "mget (fm_Meta ?m) ''size'' = FormatInt (int (length (r_src r)))"
    using assms(9) by (simp_all add: written_meta_def plain_body_def)
  obtain w' where w': "run_state (PutObject E b x r opts) w =
     (case e of
        Some err \<Rightarrow> Inl err
      | None \<Rightarrow> Inr (ObjectInfo0\<lparr>oi_Bucket := b, oi_Name := x, oi_ModTime := e_now E (w_tick w + 1),
                   oi_Size := r_size r, oi_ETag := hex_EncodeToString (e_md5 E (r_src r))\<rparr>), w')"
     "settled w w'" "w_drive w' = d'"
    using run_PutObject [OF assms(1,2,4,5,6,7) _ assms(9,10), of opts e d'] assms(8) put key by auto
  obtain res where "run_state (PutObject E b x r opts) w = (res, w')" "isl res \<longleftrightarrow> e \<noteq> None"
    using w'(1) by (cases e) auto
  then have "run_state (PutObject E b x r opts) w = (res, w') \<and> settled w w' \<and>
     store w' = (if isl res then store w else (store w)(makeKey b x \<mapsto> (Json ?m, Raw (r_src r))))"
    using w'(2,3) d' by simp
  with m show ?thesis by blast
qed

end

text \<open>C3. An upload is all or nothing, on a drive whose writes may fail: either it succeeds, and then the
  object's key holds the body, and metadata whose version is the successor of the object's previous version
  and whose size is the body's, or it reports an error and no key has changed. No other key is ever touched,
  and no lock, connection or count is left over.\<close>

theorem upload_all_or_nothing:
  assumes "kinetic_layer E contents readers writer" "ready w" "nul_free b" "nul_free x"
    "fresh (w_ns w) b []" "fresh (w_ns w) b x" "bucket_at E (contents (w_drive w)) b" "putable b x (r_size r)"
    "readable E (contents (w_drive w)) (makeKey b x)" "plain_body r" "\<forall>h. e_md5 E h \<noteq> []"
  shows "\<exists>res w' m. run_state (PutObject E b x r opts) w = (res, w') \<and> settled w w' \<and>
     contents (w_drive w') = (if isl res then contents (w_drive w)
        else (contents (w_drive w))(makeKey b x \<mapsto> (Json m, Raw (r_src r)))) \<and>
     mget (fm_Meta m) ''version'' = newVersion (version_at (contents (w_drive w)) (makeKey b x)) \<and>
     mget (fm_Meta m) ''size'' = FormatInt (int (length (r_src r)))"
  by (rule kinetic_layer.PutObject_atomic [OF assms])

definition example_drive :: mem_drive where
  "example_drive = [(bucket_key ''bkt'', (Gob \<lparr>bi_Name = bucket_key ''bkt'', bi_Created = 0\<rparr>, Raw []))]"

lemma example_drive_simps [simp]:
  "bucket_at (on_quota n base_env) (map_of example_drive) ''bkt''" "bucket_at mem_env (map_of example_drive) ''bkt''"
  "map_of example_drive (makeKey ''bkt'' x) = None" "readable E (map_of example_drive) (makeKey ''bkt'' x)"
  by (simp_all add: example_drive_def bucket_at_def readable_def)

theorem upload_all_or_nothing_witness:
  "\<exists>res w' m. run_state (PutObject (on_quota 1 base_env) ''bkt'' ''a'' example_body example_opts)
       (mem_world example_drive) = (res, w') \<and> settled (mem_world example_drive) w' \<and>
     map_of (w_drive w') = (if isl res then map_of example_drive
        else (map_of example_drive)(makeKey ''bkt'' ''a'' \<mapsto> (Json m, Raw (r_src example_body)))) \<and>
     mget (fm_Meta m) ''version'' = ''00001'' \<and> mget (fm_Meta m) ''size'' = ''5''"
proof -
  have "newVersion (version_at (map_of example_drive) (makeKey ''bkt'' ''a'')) = ''00001''"
    "FormatInt (int (length (r_src example_body))) = ''5''"
    by (simp_all add: version_at_def newVersion_empty example_body_def) code_simp+
  moreover have "putable ''bkt'' ''a'' (r_size example_body)" "plain_body example_body"
    using example_names by (simp_all add: example_body_def plain_body_def)
  ultimately show ?thesis
    using upload_all_or_nothing [OF quota_layer.kinetic_layer_axioms [of 1 base_env],
        of "mem_world example_drive" "''bkt''" "''a''" example_body example_opts]
    by (simp add: nul_free_def cong: if_cong split del: if_split)
qed

section \<open>Listings\<close>

text \<open>C12. A recursive listing of a bucket returns, in key order and without duplicates, every visible object
  whose key lies between the prefix (or the marker) and the prefix's increment, up to the smaller of the
  requested number and 400; it is marked truncated, with a marker for the next page, only when more than 400
  were asked for and that many keys were found.\<close>

theorem listing_recursive_complete:
  assumes "kinetic_layer E contents readers writer" "ready w" "b \<noteq> []" "nul_free b" "nul_free pre" "nul_free marker"
    "CHR ''*'' \<notin> set pre" "ends_low pre" "marker = [] \<or> prefix pre marker" "tidy E (contents (w_drive w)) b" "0 < maxKeys"
    and "ks = key_range (makeKey b (if marker = [] then pre else marker)) (IncStr (makeKey b pre)) True True
                (dom (contents (w_drive w)))"
    and "length ks + 1 < fuel" "n = nat (min maxKeys maxKeyRange)"
  shows "run_state (ListObjects fuel E b pre marker [] maxKeys) w =
       (Some (Inr \<lparr>lo_IsTruncated = (maxKeyRange < maxKeys \<and> n \<le> length ks),
                   lo_NextMarker = (if maxKeyRange < maxKeys \<and> n \<le> length ks
                                    then drop (Suc (length b)) (IncStr (ks ! (n - 1))) else []),
                   lo_Objects = listed_objects E (contents (w_drive w)) b (take n ks), lo_Prefixes = []\<rparr>),
        touched w)"
  by (rule kinetic_layer.run_ListObjects_recursive [OF assms])


definition example_meta :: fsMetaV1 where
  "example_meta = newFSMetaV1\<lparr>fm_Meta := [(''size'', ''1'')]\<rparr>"

definition example_listing :: mem_drive where
  "example_listing = (makeKey ''bkt'' ''b'', (Json example_meta, Raw ''1'')) #
     (makeKey ''bkt'' ''a/c'', (Json example_meta, Raw ''2'')) # example_drive"

lemma example_listing_keys:
  "key_range (makeKey ''bkt'' []) (IncStr (makeKey ''bkt'' [])) True True (dom (map_of example_listing)) =
     [makeKey ''bkt'' ''a/c'', makeKey ''bkt'' ''b'']"
  unfolding mem_key_range IncStr_bucket
  by (simp add: example_listing_def example_drive_def in_key_range_def makeKey_def bucket_key_def)

lemma example_listing_tidy: "tidy mem_env (map_of example_listing) ''bkt''"
  by (simp add: tidy_def example_listing_def example_drive_def makeKey_def bucket_key_def nul_free_def)

lemma example_listing_objects:
  "map oi_Name (listed_objects mem_env (map_of example_listing) ''bkt'' [makeKey ''bkt'' ''a/c'', makeKey ''bkt'' ''b'']) =
     [''a/c'', ''b'']"
  "\<not> hidden_at mem_env (map_of example_listing) ''bkt'' (makeKey ''bkt'' ''a/c'')"
  by (simp_all add: listed_objects_def hidden_at_def object_info_def KVInfoToObjectInfo_def is_hidden_def decoded_def meta_at_def
      example_listing_def example_meta_def makeKey_def json_merge_def newFSMetaV1_def fsMetaV1_0_def kv_of_meta_def
      mget_def mcopy_def Let_def)

theorem listing_recursive_complete_witness:
  "\<exists>r. run_state (ListObjects 10 mem_env ''bkt'' [] [] [] 1000) (mem_world example_listing) =
     (Some (Inr r), touched (mem_world example_listing)) \<and>
     map oi_Name (lo_Objects r) = [''a/c'', ''b''] \<and> \<not> lo_IsTruncated r"
  using listing_recursive_complete [OF mem_layer.kinetic_layer_axioms [of base_env], where b = "''bkt''" and
      w = "mem_world example_listing" and pre = "[]" and marker = "[]" and maxKeys = 1000 and fuel = 10]
    example_listing_keys example_listing_tidy example_listing_objects
  by (simp add: nul_free_def ends_low_def)


section \<open>ETags, deletion and buckets\<close>

context healthy_layer
begin

lemma Put_then_Stat:
  assumes "ready w" "nul_free b" "nul_free x" "noslash b" "b \<noteq> []" "fresh (w_ns w) b []" "fresh (w_ns w) b x"
    "bucket_at E (store w) b" "putable b x (r_size r)" "readable E (store w) (makeKey b x)" "plain_body r"
    "\<forall>h. e_md5 E h \<noteq> []" "checkGetObjArgs (e_valid_bucket E) b x = None" "\<not> HasSuffix x SlashSeparator"
    "\<forall>v t. fits16 E (Json (written_meta E v t x r opts))"
    and um: "oo_UserDefined opts = Some um" "''md5Sum'' \<notin> fst ` set um"
  shows "\<exists>oi w1 oi' w2. run_state (PutObject E b x r opts) w = (Inr oi, w1) \<and>
     run_state (GetObjectInfo E b x) w1 = (Inr oi', w2) \<and> settled w w2 \<and> oi_Size oi' = oi_Size oi \<and>
     oi_ETag oi = hex_EncodeToString (e_md5 E (r_src r)) \<and> oi_ETag oi' = hex_EncodeToString (e_md5 E [])"
proof -
  let ?m = "written_meta E (version_at (store w) (makeKey b x)) (w_tick w) x r opts"
  have key: "C_CString (makeKey b x) = makeKey b x" using assms(2,3) by simp
  obtain d' where d': "CPut (e_ops E) (makeKey b x) (Json ?m) (Raw (r_src r)) option_nosync (w_drive w) = (None, d')"
    "contents d' = (store w)(makeKey b x \<mapsto> (Json ?m, Raw (r_src r)))"
    using CPut_total [of "makeKey b x" "Json ?m" "Raw (r_src r)" option_nosync "w_drive w"] key by auto
  obtain oi w1 where w1: "run_state (PutObject E b x r opts) w = (Inr oi, w1)" "settled w w1" "w_drive w1 = d'"
    "oi_Size oi = r_size r" "oi_ETag oi = hex_EncodeToString (e_md5 E (r_src r))"
    using run_PutObject [OF assms(1,2,6,7,8,9) _ assms(11,12), of opts None d'] d'(1) assms(10) key by auto
  have "run_state (GetObjectInfo E b x) w1 = (Inr (object_info E b x ?m), touched w1)"
    using run_GetObjectInfo(1) [of w1 b x ?m "Raw (r_src r)"] w1(2,3) d'(2) assms key by (simp add: settled_def)
  moreover have "oi_ETag (object_info E b x ?m) = hex_EncodeToString (e_md5 E [])"
    using stored_etag [OF assms(14) um(2)] by (simp add: written_meta_def um(1))
  moreover have "oi_Size (object_info E b x ?m) = r_size r"
    using assms(11) by (simp add: object_info_size written_meta_def decoded_mget ParseInt_FormatInt plain_body_def)
  moreover have "settled w (touched w1)"
    using w1(2) settled_touched settled_trans by (metis settled_def)
  ultimately show ?thesis using w1 by metis
qed

end

text \<open>C36. After a successful upload the object's stated size is the body's, but its stated ETag is the digest of
  the empty string, not the digest of the body which the upload itself returned: the metadata is composed
  before the body is read.\<close>

theorem stored_etag_is_of_empty_body:
  assumes "healthy_layer E contents readers writer" "ready w" "nul_free b" "nul_free x" "noslash b" "b \<noteq> []"
    "fresh (w_ns w) b []" "fresh (w_ns w) b x"
    "bucket_at E (contents (w_drive w)) b" "putable b x (r_size r)" "readable E (contents (w_drive w)) (makeKey b x)"
    "plain_body r" "\<forall>h. e_md5 E h \<noteq> []" "checkGetObjArgs (e_valid_bucket E) b x = None" "\<not> HasSuffix x SlashSeparator"
    "\<forall>v t. fits16 E (Json (written_meta E v t x r opts))"
    "oo_UserDefined opts = Some um" "''md5Sum'' \<notin> fst ` set um"
  shows "\<exists>oi w1 oi' w2. run_state (PutObject E b x r opts) w = (Inr oi, w1) \<and>
     run_state (GetObjectInfo E b x) w1 = (Inr oi', w2) \<and> settled w w2 \<and> oi_Size oi' = oi_Size oi \<and>
     oi_ETag oi = hex_EncodeToString (e_md5 E (r_src r)) \<and> oi_ETag oi' = hex_EncodeToString (e_md5 E [])"
  by (rule healthy_layer.Put_then_Stat [OF assms])

lemma example_plain: "plain_body example_body" "putable ''bkt'' ''a'' (r_size example_body)" "nul_free ''bkt''" "nul_free ''a''"
  using example_names by (simp_all add: example_body_def plain_body_def nul_free_def)

theorem stored_etag_is_of_empty_body_witness:
  "\<exists>oi w1 oi' w2. run_state (PutObject mem_env ''bkt'' ''a'' example_body example_opts) (mem_world example_drive) = (Inr oi, w1) \<and>
     run_state (GetObjectInfo mem_env ''bkt'' ''a'') w1 = (Inr oi', w2) \<and> oi_ETag oi' \<noteq> oi_ETag oi"
proof -
  have len: "length (hex_EncodeToString ''mhello'') \<noteq> length (hex_EncodeToString ''m'')" by (simp add: hex_length)
  have "\<exists>oi w1 oi' w2. run_state (PutObject mem_env ''bkt'' ''a'' example_body example_opts) (mem_world example_drive) = (Inr oi, w1) \<and>
     run_state (GetObjectInfo mem_env ''bkt'' ''a'') w1 = (Inr oi', w2) \<and> settled (mem_world example_drive) w2 \<and>
     oi_Size oi' = oi_Size oi \<and> oi_ETag oi = hex_EncodeToString (e_md5 mem_env (r_src example_body)) \<and>
     oi_ETag oi' = hex_EncodeToString (e_md5 mem_env [])"
    by (rule stored_etag_is_of_empty_body [OF mem_layer.healthy_layer_axioms, where um = "[]"])
      (use example_names example_plain in \<open>simp_all add: example_opts_def\<close>)
  then obtain oi w1 oi' w2 where r: "run_state (PutObject mem_env ''bkt'' ''a'' example_body example_opts) (mem_world example_drive) = (Inr oi, w1)"
     "run_state (GetObjectInfo mem_env ''bkt'' ''a'') w1 = (Inr oi', w2)"
     "oi_ETag oi = hex_EncodeToString ''mhello''" "oi_ETag oi' = hex_EncodeToString ''m''"
    by (auto simp: example_body_def)
  then have "oi_ETag oi' \<noteq> oi_ETag oi" using len by metis
  with r(1,2) show ?thesis by blast
qed

text \<open>C14. Deleting an object removes its key and the keys of all the parts its metadata lists, and nothing
  else.\<close>

theorem delete_removes_object_and_parts:
  assumes "healthy_layer E contents readers writer" "ready w" "fresh (w_ns w) b x"
    "checkDelObjArgs (e_valid_bucket E) b x = None"
    "contents (w_drive w) (C_CString (makeKey b x)) = Some (Json m, v)" "fits16 E (Json m)"
  shows "\<exists>w'. run_state (DeleteObject E b x) w = (None, w') \<and> settled w w' \<and>
     contents (w_drive w') = contents (w_drive w) |` (- insert (C_CString (makeKey b x))
                             (part_keys b x (mget (fm_Meta (decoded m)) ''version'') (fm_Parts m)))"
  by (rule healthy_layer.run_DeleteObject_all [OF assms])

definition example_parts_meta :: fsMetaV1 where
  "example_parts_meta = newFSMetaV1\<lparr>fm_Meta := [(''version'', ''00001'')],
     fm_Parts := [\<lparr>op_ETag = ''e1'', op_Number = 1, op_Size = 3, op_ActualSize = 3\<rparr>,
                  \<lparr>op_ETag = ''e2'', op_Number = 2, op_Size = 2, op_ActualSize = 2\<rparr>]\<rparr>"

definition example_multipart :: mem_drive where
  "example_multipart = (makeKey ''bkt'' ''a'', (Json example_parts_meta, Raw [])) #
     (part_key ''bkt'' ''a'' ''00001'' 1 ''e1'' 3, (Json example_meta, Raw ''abc'')) #
     (part_key ''bkt'' ''a'' ''00001'' 2 ''e2'' 2, (Json example_meta, Raw ''de'')) # example_drive"

theorem delete_removes_object_and_parts_witness:
  "\<exists>w'. run_state (DeleteObject mem_env ''bkt'' ''a'') (mem_world example_multipart) = (None, w') \<and>
     map_of (w_drive w') (makeKey ''bkt'' ''a'') = None \<and>
     map_of (w_drive w') (C_CString (part_key ''bkt'' ''a'' ''00001'' 2 ''e2'' 2)) = None"
proof -
  have m: "map_of example_multipart (C_CString (makeKey ''bkt'' ''a'')) = Some (Json example_parts_meta, Raw [])"
    using example_plain by (simp add: example_multipart_def)
  obtain w' where w': "run_state (DeleteObject mem_env ''bkt'' ''a'') (mem_world example_multipart) = (None, w')"
    "map_of (w_drive w') = map_of example_multipart |` (- insert (C_CString (makeKey ''bkt'' ''a''))
       (part_keys ''bkt'' ''a'' (mget (fm_Meta (decoded example_parts_meta)) ''version'') (fm_Parts example_parts_meta)))"
    using delete_removes_object_and_parts [OF mem_layer.healthy_layer_axioms [of base_env],
        of "mem_world example_multipart" "''bkt''" "''a''" example_parts_meta "Raw []"] m example_names by auto
  have "mget (fm_Meta (decoded example_parts_meta)) ''version'' = ''00001''"
    by (subst decoded_mget) (simp_all add: example_parts_meta_def mget_def)
  then have "C_CString (part_key ''bkt'' ''a'' ''00001'' 2 ''e2'' 2) \<in>
     part_keys ''bkt'' ''a'' (mget (fm_Meta (decoded example_parts_meta)) ''version'') (fm_Parts example_parts_meta)"
    by (simp add: part_keys_def example_parts_meta_def)
  then show ?thesis using w' example_plain by simp
qed

text \<open>C33. The list of buckets has exactly the buckets stored on the drive, in name order, leaving out those whose
  name starts with a dot, as long as there are fewer than 800 keys in the bucket range and every listed key
  there is a bucket's.\<close>

theorem bucket_list_complete:
  assumes "kinetic_layer E contents readers writer" "ready w"
    "\<forall>k \<in> dom (contents (w_drive w)). CHR '':'' \<notin> set k \<and> k \<noteq> [] \<and> nul_free k"
    "keys = key_range ''bucket.'' ''bucket/'' True True (dom (contents (w_drive w)))" "length keys < 800"
    "\<forall>k \<in> set keys. listed k \<longrightarrow> named (contents (w_drive w)) k"
  shows "run_state (ListBuckets (Suc fuel) E) w =
           (Some (Inr (map (bucket_of (contents (w_drive w))) (filter listed keys))), touched w)"
  by (rule kinetic_layer.run_ListBuckets [OF assms])

lemma example_bucket_keys:
  "key_range ''bucket.'' ''bucket/'' True True (dom (map_of example_listing)) = [bucket_key ''bkt'']"
  unfolding mem_key_range
  by (simp add: example_listing_def example_drive_def in_key_range_def makeKey_def bucket_key_def)

theorem bucket_list_complete_witness:
  "run_state (ListBuckets 1 mem_env) (mem_world example_listing) =
     (Some (Inr [\<lparr>bi_Name = ''bkt'', bi_Created = 0\<rparr>]), touched (mem_world example_listing))"
proof -
  have l: "listed (bucket_key ''bkt'')" by (simp add: listed_def bucket_key_def)
  have s: "map_of example_listing (bucket_key ''bkt'') =
      Some (Gob \<lparr>bi_Name = bucket_key ''bkt'', bi_Created = 0\<rparr>, Raw [])"
    by (simp add: example_listing_def example_drive_def)
  have n: "named (map_of example_listing) (bucket_key ''bkt'')"
    unfolding named_def s by (simp add: gob_Decode_def) (simp add: bucket_key_def)
  have b: "bucket_of (map_of example_listing) (bucket_key ''bkt'') = \<lparr>bi_Name = ''bkt'', bi_Created = 0\<rparr>"
    unfolding bucket_of_def s by (simp add: gob_Decode_def) (simp add: bucket_key_def)
  have d: "\<forall>k \<in> dom (map_of example_listing). CHR '':'' \<notin> set k \<and> k \<noteq> [] \<and> nul_free k"
    using example_listing_tidy by (simp add: tidy_def)
  show ?thesis
    using bucket_list_complete [OF mem_layer.kinetic_layer_axioms [of base_env], of "mem_world example_listing" _ 0]
      example_bucket_keys l n b d by simp
qed

text \<open>When the drive refuses to store a new bucket's key, for instance because it is full, the creation of
  the bucket is still reported as a success, and the bucket does not exist afterwards.\<close>

theorem bucket_creation_hides_failure:
  assumes "kinetic_layer E contents readers writer" "ready w" "nul_free b" "fresh (w_ns w) b []"
    "e_valid_bucket_strict E b" "contents (w_drive w) (bucket_key b) = None"
    "fst (CPut (e_ops E) (bucket_key b) (Gob \<lparr>bi_Name = bucket_key b, bi_Created = e_now E (w_tick w)\<rparr>) (Raw [])
            option (w_drive w)) \<noteq> None"
  shows "\<exists>w'. run_state (MakeBucketWithLocation E b) w = (None, w') \<and> contents (w_drive w') (bucket_key b) = None"
proof -
  let ?r = "CPut (e_ops E) (bucket_key b) (Gob \<lparr>bi_Name = bucket_key b, bi_Created = e_now E (w_tick w)\<rparr>) (Raw [])
            option (w_drive w)"
  have drive: "kinetic_drive (e_ops E) contents" using assms(1) by (simp add: kinetic_layer_def)
  have "contents (snd ?r) = contents (w_drive w)"
    using kinetic_drive.CPut_contents [OF drive prod.collapse [symmetric, of ?r]] assms(7) by simp
  then show ?thesis using kinetic_layer.run_MakeBucket_new [OF assms(1-6)] assms(6) by simp
qed

theorem bucket_creation_hides_failure_witness:
  "\<exists>w'. run_state (MakeBucketWithLocation (on_quota 0 base_env) ''bkt'') (mem_world []) = (None, w') \<and>
     map_of (w_drive w') (bucket_key ''bkt'') = None"
  using bucket_creation_hides_failure [OF quota_layer.kinetic_layer_axioms [of 0 base_env],
      of "mem_world []" "''bkt''"] example_plain
  by (simp add: CPut_def quota_ops_def mem_ops_def toKineticError_def)

text \<open>C34. A bucket is deleted only if the listing of its first key shows nothing, and then its key is removed; a
  bucket whose first key is visible is refused and left alone. Deleting a bucket also deletes the unrelated
  key \<^verbatim>\<open>bucketKey\<close>.\<close>

theorem delete_bucket_if_empty:
  assumes "healthy_layer E contents readers writer" "ready w" "b \<noteq> []" "nul_free b" "fresh (w_ns w) b []"
    "tidy E (contents (w_drive w)) b"
    "ks = key_range (makeKey b []) (b @ ''0'') True True (dom (contents (w_drive w)))"
    "length ks + 1 < fuel" "4 < fuel" "ks = [] \<or> \<not> hidden_at E (contents (w_drive w)) b (hd ks)"
  shows "\<exists>w'. run_state (DeleteBucket fuel E b) w =
       (Some (if ks = [] then None else Some (Storage errBucketNotEmpty)), w') \<and> settled w w' \<and>
     contents (w_drive w') = (if ks = [] then (contents (w_drive w))(bucket_key b := None, ''bucketKey'' := None)
                              else contents (w_drive w))"
proof (cases "ks = []")
  case True
  then show ?thesis
    using healthy_layer.run_DeleteBucket_empty [OF assms(1-6), of fuel] assms(7,9) by simp
next
  case False
  have "kinetic_layer E contents readers writer" using assms(1) by (simp add: healthy_layer_def)
  from kinetic_layer.run_DeleteBucket_refused [OF this assms(2-8) False] show ?thesis
    using False assms(10) by simp
qed

theorem delete_bucket_if_empty_witness:
  "\<exists>w'. run_state (DeleteBucket 10 mem_env ''bkt'') (mem_world example_listing) =
     (Some (Some (Storage errBucketNotEmpty)), w') \<and> map_of (w_drive w') = map_of example_listing"
  using delete_bucket_if_empty [OF mem_layer.healthy_layer_axioms [of base_env], of "mem_world example_listing" "''bkt''" _ 10]
    example_listing_keys example_listing_tidy example_listing_objects(2) example_plain by (simp add: IncStr_bucket) blast

text \<open>Whether a bucket is empty is decided by its first key alone: a bucket whose first key is hidden, such as
  a part of an unfinished upload, counts as empty whatever visible objects follow.\<close>

theorem bucket_emptiness_by_first_key:
  assumes "kinetic_layer E contents readers writer" "ready w" "b \<noteq> []" "nul_free b" "tidy E (contents (w_drive w)) b"
    "ks = key_range (makeKey b []) (b @ ''0'') True True (dom (contents (w_drive w)))" "length ks + 1 < fuel"
  shows "run_state (isBucketEmpty fuel E b) w =
    (Some (Inr (ks = [] \<or> hidden_at E (contents (w_drive w)) b (hd ks))), touched w)"
  by (rule kinetic_layer.run_isBucketEmpty [OF assms])

definition example_hidden :: mem_drive where
  "example_hidden = (makeKey ''bkt'' ''a.00001.00001.e.1'', (Json (part_meta ''a'' ''e'' 1 0), Raw ''1'')) #
     (makeKey ''bkt'' ''b'', (Json example_meta, Raw ''1'')) # example_drive"

theorem bucket_emptiness_by_first_key_witness:
  "map_of example_hidden (makeKey ''bkt'' ''b'') = Some (Json example_meta, Raw ''1'') \<and>
   run_state (isBucketEmpty 10 mem_env ''bkt'') (mem_world example_hidden) =
     (Some (Inr True), touched (mem_world example_hidden))"
proof -
  have k: "key_range (makeKey ''bkt'' []) (''bkt'' @ ''0'') True True (dom (map_of example_hidden)) =
      [makeKey ''bkt'' ''a.00001.00001.e.1'', makeKey ''bkt'' ''b'']"
    unfolding mem_key_range
    by (simp add: example_hidden_def example_drive_def in_key_range_def makeKey_def bucket_key_def)
  have t: "tidy mem_env (map_of example_hidden) ''bkt''"
    by (simp add: tidy_def example_hidden_def example_drive_def makeKey_def bucket_key_def nul_free_def)
  have h: "hidden_at mem_env (map_of example_hidden) ''bkt'' (makeKey ''bkt'' ''a.00001.00001.e.1'')"
    by (simp add: hidden_at_def object_info_def KVInfoToObjectInfo_def is_hidden_def decoded_mget meta_at_def
        example_hidden_def part_meta_def makeKey_def Let_def) (simp add: mget_def)
  have "map_of example_hidden (makeKey ''bkt'' ''b'') = Some (Json example_meta, Raw ''1'')"
    by (simp add: example_hidden_def makeKey_def)
  then show ?thesis
    using bucket_emptiness_by_first_key [OF mem_layer.kinetic_layer_axioms [of base_env],
        of "mem_world example_hidden" "''bkt''" _ 10] k t h example_plain by simp
qed

text \<open>C37. Reading the metadata of an object whose encoded metadata exceeds 64 KiB, such as that of an upload of
  many parts, panics while the global mutex of the drive is held; the next operation that takes the mutex
  never goes on.\<close>

theorem oversized_metadata_wedges_layer:
  assumes "kinetic_layer E contents readers writer" "ready w" "b \<noteq> []"
    "contents (w_drive w) (C_CString (makeKey b x)) = Some (m, v)" "\<not> fits16 E m"
  shows "\<exists>w'. run_state (getObjectInfo E b x) w = (Inl slicePanic, w') \<and> w_kineticMutex w' \<and>
     w_blocked (snd (run_state kineticMutex_Lock w'))"
  using kinetic_layer.run_getObjectInfo_panic [OF assms]
  by (simp add: kineticMutex_Lock_def run)

theorem oversized_metadata_wedges_layer_witness:
  "\<exists>w'. run_state (getObjectInfo (on_memory (base_env\<lparr>e_enc := (\<lambda>b. replicate 65537 CHR ''j'')\<rparr>)) ''bkt'' ''b'') (mem_world example_listing) =
     (Inl slicePanic, w') \<and> w_blocked (snd (run_state kineticMutex_Lock w'))"
proof -
  have "map_of example_listing (C_CString (makeKey ''bkt'' ''b'')) = Some (Json example_meta, Raw ''1'')"
    by (simp add: example_listing_def makeKey_def)
  moreover have "\<not> fits16 (on_memory (base_env\<lparr>e_enc := (\<lambda>b. replicate 65537 CHR ''j'')\<rparr>)) (Json example_meta)"
    by (simp add: fits16_def blob_size_def blob_bytes_def)
  ultimately show ?thesis
    using oversized_metadata_wedges_layer [OF mem_layer.kinetic_layer_axioms, of "mem_world example_listing" "''bkt''" "''b''"
        "Json example_meta" "Raw ''1''" "base_env\<lparr>e_enc := (\<lambda>b. replicate 65537 CHR ''j'')\<rparr>"] by auto
qed

section \<open>Multipart uploads\<close>

text \<open>C24. Storing a part of an upload writes its body under the key made of the object's next version, the part
  number, the digest of the body and its size, and reports that digest as the part's ETag; if the drive refuses
  the write, its error is reported and nothing changes.\<close>

theorem part_stored_under_next_version:
  assumes "kinetic_layer E contents readers writer" "ready w" "nul_free b" "nul_free x" "fresh (w_ns w) b []"
    "bucket_at E (contents (w_drive w)) b" "nameable b x"
    "readable E (contents (w_drive w)) (makeKey b x)" "nv = newVersion (version_at (contents (w_drive w)) (makeKey b x))"
    "plain_body r" "r_src r \<noteq> []" "\<forall>h. e_md5 E h \<noteq> []" "tag = hex_EncodeToString (e_md5 E (r_src r))"
    and put: "CPut (e_ops E) (part_key b x nv n tag (r_actualSize r))
      (Json (part_meta x tag (r_size r) (e_now E (w_tick w)))) (Raw (r_src r)) option (w_drive w) = (e, d')"
  shows "\<exists>res w'. run_state (PutObjectPart E b x u n r) w = (res, w') \<and> settled w w' \<and>
     (case e of Some err \<Rightarrow> res = Inl err \<and> contents (w_drive w') = contents (w_drive w)
      | None \<Rightarrow> (\<exists>pi. res = Inr pi \<and> pi_PartNumber pi = n \<and> pi_ETag pi = tag \<and> pi_Size pi = r_size r) \<and>
          contents (w_drive w') = (contents (w_drive w))(C_CString (part_key b x nv n tag (r_actualSize r)) \<mapsto>
            (Json (part_meta x tag (r_size r) (e_now E (w_tick w))), Raw (r_src r))))"
proof -
  have drive: "kinetic_drive (e_ops E) contents" using assms(1) by (simp add: kinetic_layer_def)
  note d' = kinetic_drive.CPut_contents [OF drive put]
  obtain w' where "run_state (PutObjectPart E b x u n r) w =
      (case e of Some err \<Rightarrow> Inl err
       | None \<Rightarrow> Inr \<lparr>pi_PartNumber = n, pi_LastModified = e_now E (w_tick w + 1), pi_ETag = tag,
                      pi_Size = r_size r, pi_ActualSize = r_actualSize r\<rparr>, w')" "settled w w'" "w_drive w' = d'"
    using kinetic_layer.run_PutObjectPart [OF assms(1-13) put, of u] by auto
  then show ?thesis using d' by (cases e) auto
qed

theorem part_stored_under_next_version_witness:
  "\<exists>res w' m. run_state (PutObjectPart mem_env ''bkt'' ''a'' ''u'' 1 example_body) (mem_world example_drive) = (res, w') \<and>
     map_of (w_drive w') (C_CString (part_key ''bkt'' ''a'' ''00001'' 1 (hex_EncodeToString ''mhello'') 5)) =
       Some (m, Raw ''hello'')"
proof -
  let ?tag = "hex_EncodeToString (e_md5 mem_env (r_src example_body))"
  let ?m = "Json (part_meta ''a'' ?tag (r_size example_body) (e_now mem_env (w_tick (mem_world example_drive))))"
  have v: "newVersion (version_at (map_of (w_drive (mem_world example_drive))) (makeKey ''bkt'' ''a'')) = ''00001''"
    by (simp add: version_at_def newVersion_empty) code_simp
  have nm: "nameable ''bkt'' ''a''"
    using example_names by (simp add: nameable_def putable_def IsValidObjectName_def)
  obtain d' where d': "CPut (e_ops mem_env) (part_key ''bkt'' ''a'' ''00001'' 1 ?tag (r_actualSize example_body)) ?m
      (Raw (r_src example_body)) option (w_drive (mem_world example_drive)) = (None, d')"
    using mem_layer.CPut_total by blast
  have "\<exists>res w'. run_state (PutObjectPart mem_env ''bkt'' ''a'' ''u'' 1 example_body) (mem_world example_drive) = (res, w') \<and>
     settled (mem_world example_drive) w' \<and>
     (\<exists>pi. res = Inr pi \<and> pi_PartNumber pi = 1 \<and> pi_ETag pi = ?tag \<and> pi_Size pi = r_size example_body) \<and>
     map_of (w_drive w') = (map_of (w_drive (mem_world example_drive)))
       (C_CString (part_key ''bkt'' ''a'' ''00001'' 1 ?tag (r_actualSize example_body)) \<mapsto> (?m, Raw (r_src example_body)))"
    using part_stored_under_next_version [OF mem_layer.kinetic_layer_axioms _ _ _ _ _ nm _ v [symmetric] _ _ _ refl d', of "''u''"]
      example_plain by (simp add: example_body_def)
  then show ?thesis by (auto simp: example_body_def)
qed


definition example_upload :: mem_drive where
  "example_upload = (upload_key ''bkt'' ''a'' ''u1'', (Json example_meta, Json example_meta)) #
     (part_key ''bkt'' ''a'' ''00001'' 1 ''e1'' 1048576, (Json example_meta, Raw ''abc'')) #
     (part_key ''bkt'' ''a'' ''00001'' 2 ''e2'' 2, (Json example_meta, Raw ''de'')) # example_drive"

definition example_complete :: "CompletePart list" where
  "example_complete = [\<lparr>cp_PartNumber = 1, cp_ETag = ''e1''\<rparr>, \<lparr>cp_PartNumber = 2, cp_ETag = ''e2''\<rparr>]"

definition example_sizes :: "CompletePart \<Rightarrow> int" where
  "example_sizes p = (if cp_PartNumber p = 1 then 1048576 else 2)"

lemma few_keys: "length d \<le> 800 \<Longrightarrow> card {q \<in> dom (map_of d). P q} \<le> 800"
proof -
  have "card {q \<in> dom (map_of d). P q} \<le> card (fst ` set d)"
    by (rule card_mono) (auto simp: dom_map_of_conv_image_fst)
  also have "\<dots> \<le> length d" by (rule order_trans [OF card_image_le]) (simp_all add: card_length)
  finally show "length d \<le> 800 \<Longrightarrow> ?thesis" by simp
qed

lemma example_keys:
  "part_key ''bkt'' ''a'' ''00001'' 1 ''e1'' 1048576 = ''bkt/a.00001.00001.e1.1048576''"
  "part_key ''bkt'' ''a'' ''00001'' 2 ''e2'' 2 = ''bkt/a.00001.00002.e2.2''"
  "upload_key ''bkt'' ''a'' ''u1'' = ''bkt/a.fs.json.u1''"
  by (simp_all add: part_key_def encodePartFile_def Sprintf_05d_def zero_pad_def FormatInt_def show_nat.simps digit_char_def
      makeKey_def upload_key_def) code_simp+


lemma example_upload_facts:
  "map_of example_upload (makeKey ''bkt'' ''a'') = None"
  "map_of example_upload (upload_key ''bkt'' ''a'' ''u1'') = Some (Json example_meta, Json example_meta)"
  "plain_keys (map_of example_upload)"
  "p \<in> set example_complete \<Longrightarrow> resolves mem_env (map_of example_upload) ''bkt'' ''a'' ''00001'' p (example_sizes p)"
proof -
  have pre: "version_prefix (makeKey ''bkt'' ''a'') ''00001'' = ''bkt/a.00001.''"
    by (simp add: version_prefix_def makeKey_def)
  have num: "Sprintf_05d 1 = ''00001''" "Sprintf_05d 2 = ''00002''"
    by (simp_all add: Sprintf_05d_def zero_pad_def show_nat.simps digit_char_def) code_simp+
  show "map_of example_upload (makeKey ''bkt'' ''a'') = None"
    "map_of example_upload (upload_key ''bkt'' ''a'' ''u1'') = Some (Json example_meta, Json example_meta)"
    "plain_keys (map_of example_upload)"
    by (simp_all add: example_upload_def example_drive_def example_keys makeKey_def bucket_key_def plain_keys_def nul_free_def)
  show "resolves mem_env (map_of example_upload) ''bkt'' ''a'' ''00001'' p (example_sizes p)"
    if p: "p \<in> set example_complete" for p
  proof -
    consider "p = \<lparr>cp_PartNumber = 1, cp_ETag = ''e1''\<rparr>" | "p = \<lparr>cp_PartNumber = 2, cp_ETag = ''e2''\<rparr>"
      using p by (auto simp: example_complete_def)
    then show ?thesis
      by cases (simp_all add: resolves_def pre num example_sizes_def example_keys example_upload_def example_drive_def bucket_key_def)
  qed
qed


text \<open>C25. Completing an upload that names a part which is not on the drive fails and leaves the drive, the upload
  and its parts as they are.\<close>

theorem incomplete_upload_refused:
  assumes "kinetic_layer E contents readers writer" "ready w" "plain_keys (contents (w_drive w))" "nul_free b" "nul_free x"
    "readable E (contents (w_drive w)) (makeKey b x)" "nul_free (version_at (contents (w_drive w)) (makeKey b x))"
    "nv = newVersion (version_at (contents (w_drive w)) (makeKey b x))" "nul_free nv" "p \<in> set parts"
    "\<forall>k \<in> dom (contents (w_drive w)).
       \<not> prefix (version_prefix (makeKey b x) nv @ Sprintf_05d (cp_PartNumber p) @ ''.'' @ cp_ETag p @ ''.'') k"
  shows "\<exists>e w'. run_state (CompleteMultipartUpload E b x u parts) w = (Inl e, w') \<and> settled w w' \<and>
     w_drive w' = w_drive w"
  by (rule kinetic_layer.run_Complete_missing [OF assms])

theorem incomplete_upload_refused_witness:
  "\<exists>e w'. run_state (CompleteMultipartUpload mem_env ''bkt'' ''a'' ''u1''
      (example_complete @ [\<lparr>cp_PartNumber = 3, cp_ETag = ''e3''\<rparr>])) (mem_world example_upload) = (Inl e, w') \<and>
     w_drive w' = example_upload"
proof -
  have ver: "version_at (map_of example_upload) (makeKey ''bkt'' ''a'') = []"
    "readable mem_env (map_of example_upload) (makeKey ''bkt'' ''a'')"
    using example_upload_facts(1) by (simp_all add: version_at_def readable_def)
  have nv: "newVersion [] = ''00001''" "Sprintf_05d 3 = ''00003''"
    by (simp_all add: newVersion_empty) (simp_all add: Sprintf_05d_def zero_pad_def show_nat.simps digit_char_def, code_simp+)
  have "\<forall>k \<in> dom (map_of example_upload).
     \<not> prefix (version_prefix (makeKey ''bkt'' ''a'') ''00001'' @ Sprintf_05d 3 @ ''.'' @ ''e3'' @ ''.'') k"
    by (simp add: nv version_prefix_def makeKey_def example_upload_def example_keys example_drive_def bucket_key_def)
  then show ?thesis
    using incomplete_upload_refused [OF mem_layer.kinetic_layer_axioms [of base_env], of "mem_world example_upload"
        "''bkt''" "''a''" "''00001''" "\<lparr>cp_PartNumber = 3, cp_ETag = ''e3''\<rparr>"
        "example_complete @ [\<lparr>cp_PartNumber = 3, cp_ETag = ''e3''\<rparr>]" "''u1''"]
      example_upload_facts(3) example_plain ver nv by (simp add: nul_free_def) blast
qed



end
